(* ===== verification/Prelude.thy ===== *)
theory Prelude
  imports
    "HOL-Library.AList"
    "HOL-Library.Char_ord"
    "HOL-Library.List_Lexorder"
    "HOL-Library.State_Monad"
    "HOL-Library.Monad_Syntax"
begin

text \<open>
  Shared vocabulary of the development.  Go values decoded from JSON
  (\<^verbatim>\<open>interface{}\<close> trees) are the datatype \<open>json\<close>; a Go map
  \<^verbatim>\<open>map[string]interface{}\<close> inside such a tree is an association list kept in
  increasing key order (\<open>wf_json\<close>), so that HOL equality of well-formed values is
  \<^verbatim>\<open>reflect.DeepEqual\<close>.  Other Go maps are association lists with distinct keys whose
  list order stands for the order in which a \<^verbatim>\<open>range\<close> loop visits them; the
  theorems quantify over the list and so over every such order.  Errors are values of
  \<open>err\<close>, fallible functions return \<open>err + 'a\<close>, and effects are computations of
  \<open>('w, 'a) state\<close> over the state of the outside world.
\<close>

named_theorems go_simps \<open>evaluation rules of the Go standard library model\<close>
named_theorems map_simps \<open>lookup rules of association-list maps\<close>

section \<open>JSON values\<close>

text \<open>
  \<^verbatim>\<open>JFloat\<close> carries the shortest decimal rendering of a \<^verbatim>\<open>float64\<close>, which
  identifies the value and is what \<^verbatim>\<open>%v\<close> prints.  \<^verbatim>\<open>JNilArr\<close> is a nil
  \<^verbatim>\<open>[]interface{}\<close> held in an interface: it reads like an empty array but is not
  \<^verbatim>\<open>DeepEqual\<close> to one.
\<close>

datatype json =
    JNull
  | JBool bool
  | JInt int
  | JFloat string
  | JString string
  | JNilArr
  | JArr "json list"
  | JObj "(string \<times> json) list"

type_synonym jobj = "(string \<times> json) list"
type_synonym unstructured = jobj
type_synonym strmap = "(string \<times> string) list"

text \<open>Reading a missing key of a Go map gives the zero value, here the nil interface.\<close>

definition jget :: "jobj \<Rightarrow> string \<Rightarrow> json" where
  "jget m k = (case map_of m k of None \<Rightarrow> JNull | Some v \<Rightarrow> v)"

fun jput :: "string \<Rightarrow> 'v \<Rightarrow> (string \<times> 'v) list \<Rightarrow> (string \<times> 'v) list" where
  "jput k v [] = [(k, v)]"
| "jput k v ((k', v') # m) =
     (if k < k' then (k, v) # (k', v') # m
      else if k = k' then (k, v) # m
      else (k', v') # jput k v m)"

definition jdel :: "string \<Rightarrow> (string \<times> 'v) list \<Rightarrow> (string \<times> 'v) list" where
  "jdel k m = filter (\<lambda>p. fst p \<noteq> k) m"

abbreviation keys_sorted :: "(string \<times> 'v) list \<Rightarrow> bool" where
  "keys_sorted m \<equiv> sorted_wrt (<) (map fst m)"

fun wf_json :: "json \<Rightarrow> bool" where
  "wf_json (JArr xs) = (\<forall>x \<in> set xs. wf_json x)"
| "wf_json (JObj m) = (keys_sorted m \<and> (\<forall>p \<in> set m. wf_json (snd p)))"
| "wf_json _ = True"

fun jweight :: "json \<Rightarrow> nat" where
  "jweight (JArr xs) = Suc (sum_list (map jweight xs))"
| "jweight (JObj m) = Suc (sum_list (map (\<lambda>p. jweight (snd p)) m))"
| "jweight _ = 1"

section \<open>Maps\<close>

lemma map_of_jput [simp, map_simps]: "map_of (jput k v m) = (map_of m)(k \<mapsto> v)"
  by (induction m) auto

lemma map_of_jdel [simp, map_simps]: "map_of (jdel k m) = (map_of m)(k := None)"
  by (induction m) (auto simp: jdel_def)

lemma set_fst_jput [simp]: "fst ` set (jput k v m) = insert k (fst ` set m)"
  by (metis dom_fun_upd dom_map_of_conv_image_fst map_of_jput option.distinct(1))

lemma set_fst_jdel [simp]: "fst ` set (jdel k m) = fst ` set m - {k}"
  by (auto simp: jdel_def image_iff)

lemma set_jput_subset: "set (jput k v m) \<subseteq> insert (k, v) (set m)"
  by (induction m) (auto split: if_splits)

lemma set_jdel_subset: "set (jdel k m) \<subseteq> set m"
  by (auto simp: jdel_def)

lemma ball_fst_jput: "(\<forall>p \<in> set (jput k v m). P (fst p)) \<longleftrightarrow> P k \<and> (\<forall>p \<in> set m. P (fst p))"
proof -
  have "(\<forall>p \<in> set (jput k v m). P (fst p)) \<longleftrightarrow> (\<forall>x \<in> fst ` set (jput k v m). P x)"
    by (simp only: ball_simps(9))
  also have "\<dots> \<longleftrightarrow> P k \<and> (\<forall>p \<in> set m. P (fst p))"
    by (simp only: set_fst_jput ball_simps(7,9))
  finally show ?thesis .
qed

lemma keys_sorted_jput [simp]: "keys_sorted m \<Longrightarrow> keys_sorted (jput k v m)"
proof (induction m)
  case (Cons p m)
  then show ?case
    by (cases p) (auto simp: ball_fst_jput [where P = "\<lambda>x. fst p < x"] dest: less_trans)
qed simp

lemma keys_sorted_filter [simp]: "keys_sorted m \<Longrightarrow> keys_sorted (filter P m)"
  by (induction m) auto

lemma keys_sorted_jdel [simp]: "keys_sorted m \<Longrightarrow> keys_sorted (jdel k m)"
  by (simp add: jdel_def)

lemma keys_sorted_distinct [simp]: "keys_sorted m \<Longrightarrow> distinct (map fst m)"
  by (induction m) auto

lemma map_of_Cons_less:
  assumes "keys_sorted ((k, v) # m)" "j \<le> k" "j \<noteq> k"
  shows "map_of ((k, v) # m) j = None"
proof -
  have "j \<notin> fst ` set ((k, v) # m)"
    using assms by fastforce
  then show ?thesis by (simp add: map_of_eq_None_iff del: map_of.simps)
qed

text \<open>Two maps in key order with the same lookups are the same list.\<close>

lemma keys_sorted_ext:
  assumes "keys_sorted m" "keys_sorted n" "map_of m = map_of n"
  shows "m = n"
proof -
  have eq: "set m = set n"
    using set_map_of_compr [OF keys_sorted_distinct [OF assms(1)]]
      set_map_of_compr [OF keys_sorted_distinct [OF assms(2)]] assms(3)
    by (simp only:)
  have "map fst m = map fst n"
    by (rule strict_sorted_equal [OF assms(2,1)]) (simp only: set_map eq)
  moreover have "inj_on fst (set m \<union> set n)"
    using keys_sorted_distinct [OF assms(1)] eq by (simp only: distinct_map Un_absorb)
  ultimately show ?thesis
    by (rule map_inj_on)
qed

lemma jget_simps [simp]:
  "map_of m k = Some v \<Longrightarrow> jget m k = v"
  "map_of m k = None \<Longrightarrow> jget m k = JNull"
  by (simp_all add: jget_def)

lemma jget_jput [simp]: "jget (jput k v m) j = (if j = k then v else jget m j)"
  by (simp add: jget_def)

lemma map_of_filter_fst [map_simps]:
  "map_of (filter (\<lambda>p. P (fst p)) m) k = (if P k then map_of m k else None)"
  by (induction m) auto

lemma wf_json_jget [simp]: "wf_json (JObj m) \<Longrightarrow> wf_json (jget m k)"
  by (auto simp: jget_def dest: map_of_SomeD split: option.splits)

lemma wf_json_jput: "wf_json (JObj m) \<Longrightarrow> wf_json v \<Longrightarrow> wf_json (JObj (jput k v m))"
  using set_jput_subset by fastforce

lemma wf_json_jdel: "wf_json (JObj m) \<Longrightarrow> wf_json (JObj (jdel k m))"
  using set_jdel_subset by fastforce

lemma jweight_pos [simp]: "0 < jweight x"
  by (cases x) auto

lemma jweight_neq_0 [simp]: "jweight x \<noteq> 0"
  by (cases x) auto

lemma jweight_field: "(k, v) \<in> set m \<Longrightarrow> jweight v < jweight (JObj m)"
proof -
  assume "(k, v) \<in> set m"
  then have "jweight v \<le> sum_list (map (\<lambda>p. jweight (snd p)) m)"
    by (intro member_le_sum_list) (force, simp)
  then show ?thesis by simp
qed

lemma jweight_item: "v \<in> set xs \<Longrightarrow> jweight v < jweight (JArr xs)"
  by (simp add: member_le_sum_list le_imp_less_Suc)

lemma find_SomeD: "find P xs = Some x \<Longrightarrow> x \<in> set xs \<and> P x"
  by (induction xs) (auto split: if_splits)

section \<open>Errors\<close>

text \<open>
  \<^verbatim>\<open>fmt.Errorf\<close> with its message up to a trailing \<^verbatim>\<open>: %w\<close> and the wrapped
  error, the two error values the code compares against
  (\<^verbatim>\<open>hooks.TooManyRequestError\<close>, \<^verbatim>\<open>customize.ErrRelatedInformerNotSynced\<close>), and
  errors made by libraries.  \<open>GoPanic\<close> is the run-time panic of a nil dereference or a
  failed type assertion.
\<close>

datatype err =
    Errorf string "err option"
  | TooManyRequestError int
  | ErrRelatedInformerNotSynced
  | LibErr string
  | GoPanic

text \<open>\<^verbatim>\<open>errors.As(err, &tooManyRequestError)\<close> and \<^verbatim>\<open>errors.Is(err, ErrRelatedInformerNotSynced)\<close>
  walk the chain of wrapped errors.\<close>

fun asTooMany :: "err \<Rightarrow> int option" where
  "asTooMany (TooManyRequestError n) = Some n"
| "asTooMany (Errorf _ (Some e)) = asTooMany e"
| "asTooMany _ = None"

fun isNotSynced :: "err \<Rightarrow> bool" where
  "isNotSynced ErrRelatedInformerNotSynced = True"
| "isNotSynced (Errorf _ (Some e)) = isNotSynced e"
| "isNotSynced _ = False"

section \<open>Strings\<close>

text \<open>\<^verbatim>\<open>strings.SplitN(s, sep, n)\<close> for a one-byte separator and \<open>n > 0\<close>, and
  \<^verbatim>\<open>strings.Split\<close>.\<close>

fun splitN :: "char \<Rightarrow> nat \<Rightarrow> string \<Rightarrow> string list" where
  "splitN c 0 s = []"
| "splitN c (Suc 0) s = [s]"
| "splitN c (Suc (Suc n)) s =
     (if c \<in> set s
      then takeWhile (\<lambda>x. x \<noteq> c) s # splitN c (Suc n) (tl (dropWhile (\<lambda>x. x \<noteq> c) s))
      else [s])"

definition split :: "char \<Rightarrow> string \<Rightarrow> string list" where
  "split c s = splitN c (Suc (length s)) s"

fun joinWith :: "string \<Rightarrow> string list \<Rightarrow> string" where
  "joinWith sep [] = []"
| "joinWith sep [x] = x"
| "joinWith sep (x # y # xs) = x @ sep @ joinWith sep (y # xs)"

text \<open>The verb \<^verbatim>\<open>%q\<close> of \<^verbatim>\<open>fmt\<close> on a string: double quotes around it, with the quote, the
  backslash and control characters escaped.\<close>

definition hexDigit :: "nat \<Rightarrow> char" where
  "hexDigit n = (if n < 10 then char_of (48 + n) else char_of (87 + n))"

definition quoteChar :: "char \<Rightarrow> string" where
  "quoteChar c =
     (let n = of_char c :: nat in
      if n = 34 then [char_of (92 :: nat), c]
      else if n = 92 then [c, c]
      else if n \<in> {7, 8, 9, 10, 11, 12, 13} then [char_of (92 :: nat), ''abtnvfr'' ! (n - 7)]
      else if n < 32 \<or> n = 127 then [char_of (92 :: nat), CHR ''x'', hexDigit (n div 16), hexDigit (n mod 16)]
      else [c])"

definition fmtQ :: "string \<Rightarrow> string" where
  "fmtQ s = char_of (34 :: nat) # concat (map quoteChar s) @ [char_of (34 :: nat)]"

text \<open>\<^verbatim>\<open>strings.ReplaceAll\<close> of a one-byte pattern.\<close>

definition replaceAll :: "string \<Rightarrow> char \<Rightarrow> string \<Rightarrow> string" where
  "replaceAll s c r = concat (map (\<lambda>x. if x = c then r else [x]) s)"

lemma takeWhile_sep [simp]:
  "c \<notin> set a \<Longrightarrow> takeWhile (\<lambda>x. x \<noteq> c) (a @ c # b) = a"
  by (induction a) auto

lemma dropWhile_sep [simp]:
  "c \<notin> set a \<Longrightarrow> dropWhile (\<lambda>x. x \<noteq> c) (a @ c # b) = c # b"
  by (induction a) auto

lemma append_sep_eq:
  "c \<notin> set a \<Longrightarrow> c \<notin> set b \<Longrightarrow> a @ c # x = b @ c # y \<longleftrightarrow> a = b \<and> x = y"
  by (metis append_same_eq dropWhile_sep list.inject takeWhile_sep)

lemma splitN_sep [simp]:
  "c \<notin> set a \<Longrightarrow> splitN c (Suc (Suc n)) (a @ c # b) = a # splitN c (Suc n) b"
  by simp

lemma splitN_nosep [simp]: "c \<notin> set a \<Longrightarrow> splitN c (Suc n) a = [a]"
  by (cases n) auto

fun digitChar :: "nat \<Rightarrow> char" where
  "digitChar n = char_of (48 + n mod 10)"

fun showNat :: "nat \<Rightarrow> string" where
  "showNat n = (if n < 10 then [digitChar n] else showNat (n div 10) @ [digitChar n])"

declare showNat.simps [simp del]

definition showInt :: "int \<Rightarrow> string" where
  "showInt i = (if i < 0 then CHR ''-'' # showNat (nat (- i)) else showNat (nat i))"

text \<open>\<^verbatim>\<open>fmt.Sprintf("%v", x)\<close> on a decoded JSON value; maps print in key order.\<close>

fun fmtV :: "json \<Rightarrow> string" where
  "fmtV JNull = ''<nil>''"
| "fmtV (JBool b) = (if b then ''true'' else ''false'')"
| "fmtV (JInt i) = showInt i"
| "fmtV (JFloat f) = f"
| "fmtV (JString s) = s"
| "fmtV JNilArr = ''[]''"
| "fmtV (JArr xs) = ''['' @ joinWith '' '' (map fmtV xs) @ '']''"
| "fmtV (JObj m) = ''map['' @ joinWith '' '' (map (\<lambda>p. fst p @ '':'' @ fmtV (snd p)) m) @ '']''"

section \<open>Effects\<close>

text \<open>A loop over a list that runs every element and collects the errors, as the code does
  where one failure must not stop the others.\<close>

fun collectErrs :: "('a \<Rightarrow> ('w, err option) state) \<Rightarrow> 'a list \<Rightarrow> ('w, err list) state" where
  "collectErrs f [] = State_Monad.return []"
| "collectErrs f (x # xs) =
     do { r \<leftarrow> f x;
          rs \<leftarrow> collectErrs f xs;
          State_Monad.return ((case r of None \<Rightarrow> [] | Some e \<Rightarrow> [e]) @ rs) }"

lemma collectErrs_skip:
  assumes "\<And>x w. x \<in> set xs \<Longrightarrow> run_state (f x) w = (None, w)"
  shows "run_state (collectErrs f xs) w = ([], w)"
  using assms by (induction xs) auto


text \<open>A computation keeps a property of the world, whatever it returns.\<close>

named_theorems pres \<open>computations that keep a property of the world\<close>

definition preserves :: "('w \<Rightarrow> bool) \<Rightarrow> ('w, 'a) state \<Rightarrow> bool" where
  "preserves P c \<longleftrightarrow> (\<forall>w. P w \<longrightarrow> P (snd (run_state c w)))"

lemma preservesI: "(\<And>w. P w \<Longrightarrow> P (snd (run_state c w))) \<Longrightarrow> preserves P c"
  by (simp add: preserves_def)

lemma preservesD: "preserves P c \<Longrightarrow> P w \<Longrightarrow> P (snd (run_state c w))"
  by (simp add: preserves_def)

lemma preserves_run: "preserves P c \<Longrightarrow> run_state c w = (x, w') \<Longrightarrow> P w \<Longrightarrow> P w'"
  using preservesD [of P c w] by simp

lemma preserves_return [pres]: "preserves P (State_Monad.return x)"
  by (simp add: preserves_def)

lemma preserves_bind [pres]: "preserves P c \<Longrightarrow> (\<And>x. preserves P (f x)) \<Longrightarrow> preserves P (c \<bind> f)"
  by (simp add: preserves_def State_Monad.bind_def case_prod_beta)

lemma preserves_collectErrs [pres]:
  "(\<And>x. x \<in> set xs \<Longrightarrow> preserves P (f x)) \<Longrightarrow> preserves P (collectErrs f xs)"
  by (induction xs) (auto intro!: pres)

text \<open>The same state with a private component beside it.\<close>

definition liftFst :: "('w, 'a) state \<Rightarrow> ('w \<times> 's, 'a) state" where
  "liftFst c = State (\<lambda>(w, s). case run_state c w of (x, w') \<Rightarrow> (x, (w', s)))"

lemma run_liftFst [simp]: "run_state (liftFst c) (w, s) = (fst (run_state c w), (snd (run_state c w), s))"
  by (simp add: liftFst_def case_prod_beta)

text \<open>A computation that leaves the outside world alone; it may change the private component.\<close>

definition silent :: "('w \<times> 's, 'a) state \<Rightarrow> bool" where
  "silent c \<longleftrightarrow> (\<forall>w s. fst (snd (run_state c (w, s))) = w)"

lemma silent_return [pres]: "silent (State_Monad.return x)"
  by (simp add: silent_def)

lemma silent_bind [pres]: "silent c \<Longrightarrow> (\<And>x. silent (f x)) \<Longrightarrow> silent (c \<bind> f)"
  unfolding silent_def by (simp add: State_Monad.bind_def case_prod_beta) (metis prod.collapse)

lemma silent_collectErrs [pres]: "(\<And>x. x \<in> set xs \<Longrightarrow> silent (f x)) \<Longrightarrow> silent (collectErrs f xs)"
  by (induction xs) (auto intro!: pres)

lemma silent_preserves: "silent c \<Longrightarrow> preserves (\<lambda>(w, s). P w) c"
  by (auto simp: silent_def preserves_def case_prod_beta)

lemma preserves_liftFst [pres]: "preserves P c \<Longrightarrow> preserves (\<lambda>(w, s). P w) (liftFst c)"
  by (auto simp: preserves_def)

text \<open>A loop reaches a property that one of its steps brings about and the others keep.\<close>

lemma collectErrs_reaches:
  assumes "x \<in> set xs" "\<And>s. Q (snd (run_state (f x) s))" "\<And>y. y \<in> set xs \<Longrightarrow> preserves Q (f y)"
  shows "Q (snd (run_state (collectErrs f xs) s))"
  using assms
proof (induction xs arbitrary: s)
  case (Cons y ys)
  obtain r t where y: "run_state (f y) s = (r, t)" by (metis surj_pair)
  have "Q (snd (run_state (collectErrs f ys) t))"
  proof (cases "x = y")
    case True
    then have "Q t" using Cons.prems(2) [of s] y by simp
    moreover have "preserves Q (collectErrs f ys)" using Cons.prems(3) by (intro pres) simp
    ultimately show ?thesis by (simp add: preserves_def)
  next
    case False
    then show ?thesis using Cons.prems by (intro Cons.IH) simp_all
  qed
  then show ?case using y by (simp add: case_prod_beta)
qed simp

end
