(* ===== verification/K8s_Data.thy ===== *)
theory K8s_Data
  imports Prelude
begin

text \<open>
  The data the program exchanges with the Kubernetes libraries: owner references, selectors,
  resource descriptions, request options, as records with the fields the program reads and writes.
\<close>

record gvk =
  gvkGroup :: string
  gvkVersion :: string
  gvkKind :: string

type_synonym groupKind = "string \<times> string"

definition GroupKind :: "gvk \<Rightarrow> groupKind" where
  "GroupKind g = (gvkGroup g, gvkKind g)"

record gvr =
  gvrGroup :: string
  gvrVersion :: string
  gvrResource :: string

record OwnerReference =
  orAPIVersion :: string
  orKind :: string
  orName :: string
  orUID :: string
  orController :: "bool option"
  orBlockOwnerDeletion :: "bool option"

text \<open>A \<^verbatim>\<open>labels.Selector\<close> is used through its two methods only.\<close>

record selector =
  Matches :: "strmap option \<Rightarrow> bool"
  SelEmpty :: bool

record LabelSelectorRequirement =
  lsrKey :: string
  lsrOperator :: string
  lsrValues :: "string list"

record LabelSelector =
  MatchLabels :: strmap
  MatchExpressions :: "LabelSelectorRequirement list"

text \<open>A \<^verbatim>\<open>dynamic.ResourceInterface\<close>: the client of one resource, bound to a namespace, or
  the root client where the namespace is empty.\<close>

record resourceInterface =
  riResource :: gvr
  riNamespace :: string

text \<open>What discovery reports: a \<^verbatim>\<open>metav1.APIResource\<close>, and a list of them for one group-version.\<close>

record metaAPIResource =
  marName :: string
  marKind :: string
  marGroup :: string
  marVersion :: string
  marNamespaced :: bool

record apiResourceList =
  arlGroupVersion :: string
  arlAPIResources :: "metaAPIResource list"

text \<open>What the \<^verbatim>\<open>metav1.Object\<close> interface shows of an object.\<close>

record metaObject =
  moName :: string
  moNamespace :: string
  moUID :: string
  moLabels :: "strmap option"
  moOwnerReferences :: "OwnerReference list"
  moDeletionTimestamp :: "string option"
  moFinalizers :: "string list"

datatype patchType = ApplyPatchType | JSONPatchType

record patchOptions =
  poFieldManager :: string
  poForce :: bool
  poDryRun :: bool

record deleteOptions =
  doUID :: "string option"
  doPropagation :: "string option"

end
