(* ===== verification/Types.thy ===== *)
theory Types
  imports Complex_Main K8s_Data
begin

text \<open>
  The API types of the program, \<^verbatim>\<open>pkg/apis/metacontroller/v1alpha1/types.go\<close>: the specifications
  users write (\<^verbatim>\<open>CompositeController\<close>, \<^verbatim>\<open>DecoratorController\<close>), the hooks they name, and
  the revisions the program stores.  A pointer field is an option; of the standard object
  metadata the program's own types keep the fields it uses.
\<close>

section \<open>Rules\<close>

record ResourceRule =
  rrAPIVersion :: string
  rrResource :: string

record StatusConditionCheck =
  sccType :: string
  sccStatus :: "string option"
  sccReason :: "string option"

record ChildUpdateStatusChecks =
  Conditions :: "StatusConditionCheck list"

text \<open>\<^verbatim>\<open>ChildUpdateMethod\<close> is a string in Go and a value outside the five constants is possible.\<close>

type_synonym ChildUpdateMethod = string

abbreviation ChildUpdateOnDelete :: ChildUpdateMethod where "ChildUpdateOnDelete \<equiv> ''OnDelete''"
abbreviation ChildUpdateRecreate :: ChildUpdateMethod where "ChildUpdateRecreate \<equiv> ''Recreate''"
abbreviation ChildUpdateInPlace :: ChildUpdateMethod where "ChildUpdateInPlace \<equiv> ''InPlace''"
abbreviation ChildUpdateRollingRecreate :: ChildUpdateMethod where "ChildUpdateRollingRecreate \<equiv> ''RollingRecreate''"
abbreviation ChildUpdateRollingInPlace :: ChildUpdateMethod where "ChildUpdateRollingInPlace \<equiv> ''RollingInPlace''"

record CompositeControllerChildUpdateStrategy =
  ccusMethod :: ChildUpdateMethod
  ccusStatusChecks :: ChildUpdateStatusChecks

record CompositeControllerChildResourceRule = ResourceRule +
  ccUpdateStrategy :: "CompositeControllerChildUpdateStrategy option"

record CompositeControllerRevisionHistory =
  FieldPaths :: "string list"

record CompositeControllerParentResourceRule = ResourceRule +
  prRevisionHistory :: "CompositeControllerRevisionHistory option"
  prLabelSelector :: "LabelSelector option"
  prIgnoreStatusChanges :: "bool option"

section \<open>Hooks\<close>

record ServiceReference =
  srName :: string
  srNamespace :: string
  srPort :: "int option"
  srProtocol :: "string option"

record WebhookEtagConfig =
  weEnabled :: "bool option"
  weCacheTimeoutSeconds :: "int option"
  weCacheCleanupSeconds :: "int option"

record SecretRef =
  sfName :: string
  sfNamespace :: string

record SecretKeyRef =
  skName :: string
  skNamespace :: string
  skKey :: string

record ResourceKeyRef =
  rkName :: string
  rkNamespace :: string
  rkKey :: string

record Authorization =
  auType :: string
  auSecretRef :: SecretKeyRef

record BasicAuth =
  baSecretRef :: SecretRef
  baUsernameKey :: string
  baPasswordKey :: string

record ClientTLS =
  ctSecretRef :: SecretRef
  ctCertKey :: string
  ctPrivateKeyKey :: string

record CABundle =
  cbInline :: "string option"
  cbSecretRef :: "ResourceKeyRef option"
  cbConfigMapRef :: "ResourceKeyRef option"

record EndpointConfig =
  ecHost :: string
  ecCABundle :: "CABundle option"
  ecClientTLS :: "ClientTLS option"
  ecAuthorization :: "Authorization option"
  ecBasicAuth :: "BasicAuth option"

text \<open>\<^verbatim>\<open>metav1.Duration\<close> in nanoseconds; \<^verbatim>\<open>ResponseUnmarshallMode\<close> is a string.\<close>

record Webhook =
  whURL :: "string option"
  whTimeout :: "int option"
  whEtag :: "WebhookEtagConfig option"
  whPath :: "string option"
  whService :: "ServiceReference option"
  whResponseUnmarshallMode :: "string option"
  whCABundle :: "CABundle option"
  whClientTLS :: "ClientTLS option"
  whAuthorization :: "Authorization option"
  whBasicAuth :: "BasicAuth option"

type_synonym HookVersion = string

abbreviation HookVersionV1 :: HookVersion where "HookVersionV1 \<equiv> ''v1''"
abbreviation HookVersionV2 :: HookVersion where "HookVersionV2 \<equiv> ''v2''"

record Hook =
  hkVersion :: "HookVersion option"
  hkWebhook :: "Webhook option"

definition Hook_GetVersion :: "Hook option \<Rightarrow> HookVersion" where
  "Hook_GetVersion h =
     (case h of
        None \<Rightarrow> HookVersionV1
      | Some hk \<Rightarrow> (case hkVersion hk of
                     None \<Rightarrow> HookVersionV1
                   | Some v \<Rightarrow> if v = '''' then HookVersionV1 else v))"

record CompositeControllerHooks =
  cchCustomize :: "Hook option"
  cchSync :: "Hook option"
  cchFinalize :: "Hook option"
  cchPreUpdateChild :: "Hook option"
  cchPostUpdateChild :: "Hook option"

record DecoratorControllerHooks =
  dchCustomize :: "Hook option"
  dchSync :: "Hook option"
  dchFinalize :: "Hook option"

section \<open>Controllers\<close>

record CompositeControllerSpec =
  ccsParentResource :: CompositeControllerParentResourceRule
  ccsChildResources :: "CompositeControllerChildResourceRule list"
  ccsHooks :: "CompositeControllerHooks option"
  ccsEndpointConfigs :: "EndpointConfig list"
  ccsResyncPeriodSeconds :: "int option"
  ccsGenerateSelector :: "bool option"

record CompositeController =
  ccName :: string
  ccSpec :: CompositeControllerSpec

definition CompositeController_GetCustomizeHook :: "CompositeController \<Rightarrow> Hook option" where
  "CompositeController_GetCustomizeHook cc =
     (case ccsHooks (ccSpec cc) of None \<Rightarrow> None | Some hooks \<Rightarrow> cchCustomize hooks)"

definition CompositeController_GetEndpointConfigs :: "CompositeController \<Rightarrow> EndpointConfig list" where
  "CompositeController_GetEndpointConfigs cc = ccsEndpointConfigs (ccSpec cc)"

record AnnotationSelector =
  asMatchAnnotations :: strmap
  asMatchExpressions :: "LabelSelectorRequirement list"

record DecoratorControllerResourceRule = ResourceRule +
  drLabelSelector :: "LabelSelector option"
  drAnnotationSelector :: "AnnotationSelector option"
  drIgnoreStatusChanges :: "bool option"

record DecoratorControllerAttachmentUpdateStrategy =
  dausMethod :: ChildUpdateMethod

record DecoratorControllerAttachmentRule = ResourceRule +
  daUpdateStrategy :: "DecoratorControllerAttachmentUpdateStrategy option"

record DecoratorControllerSpec =
  dcsResources :: "DecoratorControllerResourceRule list"
  dcsAttachments :: "DecoratorControllerAttachmentRule list"
  dcsHooks :: "DecoratorControllerHooks option"
  dcsEndpointConfigs :: "EndpointConfig list"
  dcsResyncPeriodSeconds :: "int option"

record DecoratorController =
  dcName :: string
  dcSpec :: DecoratorControllerSpec

definition DecoratorController_GetCustomizeHook :: "DecoratorController \<Rightarrow> Hook option" where
  "DecoratorController_GetCustomizeHook dc =
     (case dcsHooks (dcSpec dc) of None \<Rightarrow> None | Some hooks \<Rightarrow> dchCustomize hooks)"

definition DecoratorController_GetEndpointConfigs :: "DecoratorController \<Rightarrow> EndpointConfig list" where
  "DecoratorController_GetEndpointConfigs dc = dcsEndpointConfigs (dcSpec dc)"

record RelatedResourceRule = ResourceRule +
  rlLabelSelector :: "LabelSelector option"
  rlNamespaceSelector :: "LabelSelector option"
  rlNamespace :: string
  rlNames :: "string list"

section \<open>Revisions\<close>

record ControllerRevisionChildren =
  crcAPIGroup :: string
  crcKind :: string
  crcNames :: "string list"

text \<open>\<^verbatim>\<open>Children\<close> is \<open>None\<close> for a nil slice, which is not \<^verbatim>\<open>DeepEqual\<close> to an empty one.\<close>

record ControllerRevision =
  crName :: string
  crNamespace :: string
  crUID :: string
  crLabels :: "strmap option"
  crOwnerReferences :: "OwnerReference list"
  crDeletionTimestamp :: "string option"
  crFinalizers :: "string list"
  crResourceVersion :: string
  crParentPatch :: string
  crChildren :: "ControllerRevisionChildren list option"

section \<open>Hook responses\<close>

text \<open>What hooks return, with the fields of \<^verbatim>\<open>pkg/controller/*/api/v1/hooks.go\<close>; the \<^verbatim>\<open>v2\<close> types have
  the same fields.  \<^verbatim>\<open>float64\<close> seconds are rationals; a nil map is \<open>None\<close>.\<close>

record CompositeHookResponse =
  chrStatus :: "jobj option"
  chrChildren :: "unstructured list"
  chrResyncAfterSeconds :: rat
  chrFinalized :: bool

record DecoratorHookResponse =
  dhrLabels :: "(string \<times> string option) list"
  dhrAnnotations :: "(string \<times> string option) list"
  dhrStatus :: "jobj option"
  dhrAttachments :: "unstructured list"
  dhrResyncAfterSeconds :: rat
  dhrFinalized :: bool

record CustomizeHookResponse =
  cuVersion :: HookVersion
  cuRelatedResourceRules :: "RelatedResourceRule list"

text \<open>A revision as a \<^verbatim>\<open>metav1.Object\<close>.\<close>

definition metaR :: "ControllerRevision \<Rightarrow> metaObject" where
  "metaR r =
     \<lparr>moName = crName r, moNamespace = crNamespace r, moUID = crUID r, moLabels = crLabels r,
      moOwnerReferences = crOwnerReferences r, moDeletionTimestamp = crDeletionTimestamp r,
      moFinalizers = crFinalizers r\<rparr>"

end
