(* ===== verification/K8s.thy ===== *)
theory K8s
  imports Types "HOL-Library.Word"
begin

text \<open>
  The packages the program calls and this repository does not hold (the Kubernetes client
  libraries and API server, the work queue, hash functions, caches) are one
  record \<open>'w k8s\<close>, the parameter \<open>K\<close> of every definition that uses them.
  Pure library functions are plain fields; what reaches the API server, an informer cache, a queue or a clock
  is a computation over the outside world \<open>'w\<close>.  The laws a theorem needs of the library are the named
  predicates at the end; each states documented behaviour.
\<close>

section \<open>Library functions\<close>

record 'w k8s =
  \<comment> \<open>unstructured accessors\<close>
  GetName :: "unstructured \<Rightarrow> string"
  GetNamespace :: "unstructured \<Rightarrow> string"
  GetUID :: "unstructured \<Rightarrow> string"
  GetKind :: "unstructured \<Rightarrow> string"
  GetAPIVersion :: "unstructured \<Rightarrow> string"
  GetResourceVersion :: "unstructured \<Rightarrow> string"
  GetGeneration :: "unstructured \<Rightarrow> int"
  GetLabels :: "unstructured \<Rightarrow> strmap option"
  GetAnnotations :: "unstructured \<Rightarrow> strmap option"
  GetFinalizers :: "unstructured \<Rightarrow> string list"
  GetDeletionTimestamp :: "unstructured \<Rightarrow> string option"
  GetOwnerReferences :: "unstructured \<Rightarrow> OwnerReference list"
  GroupVersionKind :: "unstructured \<Rightarrow> gvk"
  SetNamespace :: "unstructured \<Rightarrow> string \<Rightarrow> unstructured"
  SetLabels :: "unstructured \<Rightarrow> strmap \<Rightarrow> unstructured"
  SetAnnotations :: "unstructured \<Rightarrow> strmap \<Rightarrow> unstructured"
  SetOwnerReferences :: "unstructured \<Rightarrow> OwnerReference list \<Rightarrow> unstructured"
  SetResourceVersion :: "unstructured \<Rightarrow> string \<Rightarrow> unstructured"
  \<comment> \<open>nested fields\<close>
  NestedFieldNoCopy :: "jobj \<Rightarrow> string list \<Rightarrow> err + json option"
  SetNestedField :: "jobj \<Rightarrow> json \<Rightarrow> string list \<Rightarrow> err + jobj"
  RemoveNestedField :: "jobj \<Rightarrow> string list \<Rightarrow> jobj"
  NestedSlice :: "jobj \<Rightarrow> string list \<Rightarrow> err + json list option"
  NestedMap :: "jobj \<Rightarrow> string list \<Rightarrow> err + jobj option"
  NestedInt64 :: "jobj \<Rightarrow> string list \<Rightarrow> err + int option"
  NestedStringMap :: "jobj \<Rightarrow> string list \<Rightarrow> err + strmap option"
  \<comment> \<open>encoding, hashing, errors\<close>
  Marshal :: "json \<Rightarrow> err + string"
  Unmarshal :: "string \<Rightarrow> err + jobj"
  JsonMarshal :: "json \<Rightarrow> err + string"
  CreateMergePatch :: "string \<Rightarrow> string \<Rightarrow> err + string"
  Sum64 :: "string \<Rightarrow> 64 word"
  Sha1Hex :: "string \<Rightarrow> string"
  NewAggregate :: "err list \<Rightarrow> err option"
  IsNotFound :: "err \<Rightarrow> bool"
  IsGone :: "err \<Rightarrow> bool"
  IsConflict :: "err \<Rightarrow> bool"
  IsAlreadyExists :: "err \<Rightarrow> bool"
  IsBadRequest :: "err \<Rightarrow> bool"
  IsForbidden :: "err \<Rightarrow> bool"
  NewGone :: "string \<Rightarrow> err"
  NewNotFound :: "string \<Rightarrow> err"
  ErrorString :: "err \<Rightarrow> string"
  \<comment> \<open>metav1, schema, controllerutil, labels\<close>
  GetControllerOf :: "OwnerReference list \<Rightarrow> OwnerReference option"
  GroupVersionString :: "string \<Rightarrow> string \<Rightarrow> string"
  ParseGroupVersion :: "string \<Rightarrow> err + string \<times> string"
  ContainsFinalizer :: "unstructured \<Rightarrow> string \<Rightarrow> bool"
  AddFinalizerTo :: "unstructured \<Rightarrow> string \<Rightarrow> unstructured"
  RemoveFinalizerFrom :: "unstructured \<Rightarrow> string \<Rightarrow> unstructured"
  LabelSelectorAsSelector :: "LabelSelector \<Rightarrow> err + selector"
  Everything :: selector
  \<comment> \<open>the API server\<close>
  CtxErr :: "('w, err option) state"
  ApiGet :: "resourceInterface \<Rightarrow> string \<Rightarrow> ('w, err + unstructured) state"
  ApiCreate :: "resourceInterface \<Rightarrow> unstructured \<Rightarrow> ('w, err + unstructured) state"
  ApiUpdate :: "resourceInterface \<Rightarrow> unstructured \<Rightarrow> ('w, err + unstructured) state"
  ApiUpdateStatus :: "resourceInterface \<Rightarrow> unstructured \<Rightarrow> ('w, err + unstructured) state"
  ApiDelete :: "resourceInterface \<Rightarrow> string \<Rightarrow> deleteOptions \<Rightarrow> ('w, err option) state"
  ApiPatch :: "resourceInterface \<Rightarrow> string \<Rightarrow> patchType \<Rightarrow> string \<Rightarrow> patchOptions
                 \<Rightarrow> ('w, err + unstructured) state"
  ServerGroupsAndResources :: "('w, apiResourceList list \<times> err option) state"
  RevGet :: "string \<Rightarrow> string \<Rightarrow> ('w, err + ControllerRevision) state"
  RevCreate :: "string \<Rightarrow> ControllerRevision \<Rightarrow> ('w, err + ControllerRevision) state"
  RevUpdate :: "string \<Rightarrow> ControllerRevision \<Rightarrow> ('w, err + ControllerRevision) state"
  RevDelete :: "string \<Rightarrow> string \<Rightarrow> deleteOptions \<Rightarrow> ('w, err option) state"
  RevRetryOnConflict :: "('w, err + ControllerRevision option) state \<Rightarrow> ('w, err + ControllerRevision option) state"
  RetryOnConflict :: "('w, err + unstructured) state \<Rightarrow> ('w, err + unstructured) state"

definition metaU :: "'w k8s \<Rightarrow> unstructured \<Rightarrow> metaObject" where
  "metaU K obj =
     \<lparr>moName = GetName K obj, moNamespace = GetNamespace K obj, moUID = GetUID K obj,
      moLabels = GetLabels K obj, moOwnerReferences = GetOwnerReferences K obj,
      moDeletionTimestamp = GetDeletionTimestamp K obj, moFinalizers = GetFinalizers K obj\<rparr>"

section \<open>Laws of the library\<close>

text \<open>\<^verbatim>\<open>utilerrors.NewAggregate\<close> of no errors is nil, of some errors is an error.\<close>

definition aggregate_law :: "'w k8s \<Rightarrow> bool" where
  "aggregate_law K \<longleftrightarrow> (\<forall>es. NewAggregate K es = None \<longleftrightarrow> es = [])"

text \<open>\<^verbatim>\<open>retry.RetryOnConflict\<close> runs its function once or more; it stops at the first run
  that does not end in a conflict, or gives up with the conflict of the last run.\<close>

fun retryN :: "(err \<Rightarrow> bool) \<Rightarrow> nat \<Rightarrow> ('w, err + 'a) state \<Rightarrow> ('w, err + 'a) state" where
  "retryN isConflict 0 f = f"
| "retryN isConflict (Suc n) f =
     do { r \<leftarrow> f;
          case r of
            Inl e \<Rightarrow> if isConflict e then retryN isConflict n f else State_Monad.return r
          | Inr _ \<Rightarrow> State_Monad.return r }"

definition retry_law :: "'w k8s \<Rightarrow> bool" where
  "retry_law K \<longleftrightarrow>
     (\<forall>f w. \<exists>n. run_state (RetryOnConflict K f) w = run_state (retryN (IsConflict K) n f) w) \<and>
     (\<forall>f w. \<exists>n. run_state (RevRetryOnConflict K f) w = run_state (retryN (IsConflict K) n f) w)"

lemma preserves_retryN [pres]: "preserves P f \<Longrightarrow> preserves P (retryN c n f)"
proof (induction n)
  case (Suc n)
  then show ?case by (auto intro!: pres split: sum.split)
qed simp

lemma preserves_retry [pres]:
  assumes "retry_law K"
  shows "preserves P f \<Longrightarrow> preserves P (RetryOnConflict K f)"
    and "preserves P g \<Longrightarrow> preserves P (RevRetryOnConflict K g)"
  using assms preserves_retryN unfolding retry_law_def preserves_def by metis+

lemma retryN_stop:
  assumes "run_state f w = (r, w')" "\<And>e. r = Inl e \<Longrightarrow> \<not> c e"
  shows "run_state (retryN c n f) w = (r, w')"
  using assms by (cases n) (auto split: sum.split)

text \<open>The retry helper returns the outcome of a run that is not a conflict.\<close>

lemma retry_stop:
  assumes "retry_law K" "\<And>e. r = Inl e \<Longrightarrow> \<not> IsConflict K e"
  shows "run_state f w = (r, w') \<Longrightarrow> run_state (RetryOnConflict K f) w = (r, w')"
  using assms retryN_stop unfolding retry_law_def by metis

lemma retry_stop_rev:
  assumes "retry_law K" "\<And>e. r = Inl e \<Longrightarrow> \<not> IsConflict K e"
  shows "run_state f w = (r, w') \<Longrightarrow> run_state (RevRetryOnConflict K f) w = (r, w')"
  using assms retryN_stop unfolding retry_law_def by metis

text \<open>The errors the helpers for "gone" and "not found" make are not conflicts.\<close>

definition api_errors_law :: "'w k8s \<Rightarrow> bool" where
  "api_errors_law K \<longleftrightarrow>
     (\<forall>s. \<not> IsConflict K (NewNotFound K s) \<and> IsNotFound K (NewNotFound K s) \<and>
          \<not> IsConflict K (NewGone K s) \<and> IsGone K (NewGone K s))"

end
