(* ===== verification/Reference.thy ===== *)
theory Reference
  imports K8s
begin

text \<open>
  A concrete instance of the library record, used only by witnesses: it shows that the laws
  the theorems assume of the libraries can hold together, and gives an API server to run the
  model on.  Objects are read and written as the JSON documents they are; the server keeps
  them in a list and logs every request.  No theorem about the program mentions it.
\<close>

section \<open>Objects as JSON documents\<close>

fun strOf :: "json \<Rightarrow> string" where
  "strOf (JString s) = s"
| "strOf _ = ''''"

fun objOf :: "json \<Rightarrow> jobj" where
  "objOf (JObj m) = m"
| "objOf _ = []"

fun arrOf :: "json \<Rightarrow> json list" where
  "arrOf (JArr xs) = xs"
| "arrOf _ = []"

fun intOf :: "json \<Rightarrow> int" where
  "intOf (JInt i) = i"
| "intOf _ = 0"

definition metaOf :: "unstructured \<Rightarrow> jobj" where
  "metaOf obj = objOf (jget obj ''metadata'')"

definition putMeta :: "unstructured \<Rightarrow> string \<Rightarrow> json \<Rightarrow> unstructured" where
  "putMeta obj k v = jput ''metadata'' (JObj (jput k v (metaOf obj))) obj"

definition strMapOf :: "json \<Rightarrow> strmap option" where
  "strMapOf j = (case j of JObj m \<Rightarrow> Some (map (\<lambda>p. (fst p, strOf (snd p))) m) | _ \<Rightarrow> None)"

definition ofStrMap :: "strmap \<Rightarrow> json" where
  "ofStrMap m = JObj (map (\<lambda>p. (fst p, JString (snd p))) m)"

definition boolField :: "string \<Rightarrow> bool option \<Rightarrow> jobj" where
  "boolField k b = (case b of None \<Rightarrow> [] | Some x \<Rightarrow> [(k, JBool x)])"

definition boolOf :: "jobj \<Rightarrow> string \<Rightarrow> bool option" where
  "boolOf m k = (case map_of m k of Some (JBool b) \<Rightarrow> Some b | _ \<Rightarrow> None)"

definition ofOwner :: "OwnerReference \<Rightarrow> json" where
  "ofOwner r = JObj
     ([(''apiVersion'', JString (orAPIVersion r))] @ boolField ''blockOwnerDeletion'' (orBlockOwnerDeletion r)
      @ boolField ''controller'' (orController r)
      @ [(''kind'', JString (orKind r)), (''name'', JString (orName r)), (''uid'', JString (orUID r))])"

definition ownerOf :: "json \<Rightarrow> OwnerReference" where
  "ownerOf j = (let m = objOf j in
     \<lparr>orAPIVersion = strOf (jget m ''apiVersion''), orKind = strOf (jget m ''kind''),
      orName = strOf (jget m ''name''), orUID = strOf (jget m ''uid''),
      orController = boolOf m ''controller'', orBlockOwnerDeletion = boolOf m ''blockOwnerDeletion''\<rparr>)"

definition ownersOf :: "unstructured \<Rightarrow> OwnerReference list" where
  "ownersOf obj = map ownerOf (arrOf (jget (metaOf obj) ''ownerReferences''))"

definition refGroupVersion :: "string \<Rightarrow> string \<times> string" where
  "refGroupVersion s = (case splitN (CHR ''/'') 2 s of [g, v] \<Rightarrow> (g, v) | _ \<Rightarrow> ('''', s))"

fun nested :: "json \<Rightarrow> string list \<Rightarrow> err + json option" where
  "nested j [] = Inr (Some j)"
| "nested (JObj m) (f # fs) = (case map_of m f of None \<Rightarrow> Inr None | Some v \<Rightarrow> nested v fs)"
| "nested _ (f # fs) = Inl (LibErr ''accessor error'')"

fun setNested :: "jobj \<Rightarrow> json \<Rightarrow> string list \<Rightarrow> err + jobj" where
  "setNested m v [] = Inl (LibErr ''no fields'')"
| "setNested m v [f] = Inr (jput f v m)"
| "setNested m v (f # fs) =
     (case map_of m f of
        None \<Rightarrow> map_sum id (\<lambda>r. jput f (JObj r) m) (setNested [] v fs)
      | Some (JObj n) \<Rightarrow> map_sum id (\<lambda>r. jput f (JObj r) m) (setNested n v fs)
      | _ \<Rightarrow> Inl (LibErr ''not a map''))"

fun removeNested :: "jobj \<Rightarrow> string list \<Rightarrow> jobj" where
  "removeNested m [] = m"
| "removeNested m [f] = jdel f m"
| "removeNested m (f # fs) = (case map_of m f of Some (JObj n) \<Rightarrow> jput f (JObj (removeNested n fs)) m | _ \<Rightarrow> m)"

definition nestedSlice :: "jobj \<Rightarrow> string list \<Rightarrow> err + json list option" where
  "nestedSlice m fs = (case nested (JObj m) fs of
     Inl e \<Rightarrow> Inl e | Inr None \<Rightarrow> Inr None | Inr (Some (JArr xs)) \<Rightarrow> Inr (Some xs)
   | Inr (Some _) \<Rightarrow> Inl (LibErr ''not a slice''))"

definition nestedMap :: "jobj \<Rightarrow> string list \<Rightarrow> err + jobj option" where
  "nestedMap m fs = (case nested (JObj m) fs of
     Inl e \<Rightarrow> Inl e | Inr None \<Rightarrow> Inr None | Inr (Some (JObj x)) \<Rightarrow> Inr (Some x)
   | Inr (Some _) \<Rightarrow> Inl (LibErr ''not a map''))"

definition nestedInt :: "jobj \<Rightarrow> string list \<Rightarrow> err + int option" where
  "nestedInt m fs = (case nested (JObj m) fs of
     Inl e \<Rightarrow> Inl e | Inr None \<Rightarrow> Inr None | Inr (Some (JInt i)) \<Rightarrow> Inr (Some i)
   | Inr (Some _) \<Rightarrow> Inl (LibErr ''not an int64''))"

definition nestedStrMap :: "jobj \<Rightarrow> string list \<Rightarrow> err + strmap option" where
  "nestedStrMap m fs = (case nested (JObj m) fs of
     Inl e \<Rightarrow> Inl e | Inr None \<Rightarrow> Inr None | Inr (Some j) \<Rightarrow> Inr (strMapOf j))"

section \<open>Selectors and errors\<close>

definition matchReq :: "LabelSelectorRequirement \<Rightarrow> strmap \<Rightarrow> bool" where
  "matchReq r m =
     (if lsrOperator r = ''In'' then (case map_of m (lsrKey r) of None \<Rightarrow> False | Some v \<Rightarrow> v \<in> set (lsrValues r))
      else if lsrOperator r = ''NotIn'' then (case map_of m (lsrKey r) of None \<Rightarrow> True | Some v \<Rightarrow> v \<notin> set (lsrValues r))
      else if lsrOperator r = ''Exists'' then map_of m (lsrKey r) \<noteq> None
      else map_of m (lsrKey r) = None)"

definition refSelector :: "LabelSelector \<Rightarrow> selector" where
  "refSelector s =
     \<lparr>Matches = (\<lambda>m. list_all (\<lambda>p. map_of (case m of None \<Rightarrow> [] | Some x \<Rightarrow> x) (fst p) = Some (snd p)) (MatchLabels s) \<and>
        list_all (\<lambda>r. matchReq r (case m of None \<Rightarrow> [] | Some x \<Rightarrow> x)) (MatchExpressions s)),
      SelEmpty = (MatchLabels s = [] \<and> MatchExpressions s = [])\<rparr>"

definition refControllerOf :: "OwnerReference list \<Rightarrow> OwnerReference option" where
  "refControllerOf refs = find (\<lambda>r. orController r = Some True) refs"

section \<open>An API server in memory\<close>

type_synonym objKey = "string \<times> string \<times> string"

record world =
  wObjects :: "(objKey \<times> unstructured) list"
  wLog :: "(string \<times> string) list"
  wRevisions :: "((string \<times> string) \<times> ControllerRevision) list"
  wGroups :: "apiResourceList list"

definition objKeyOf :: "resourceInterface \<Rightarrow> string \<Rightarrow> objKey" where
  "objKeyOf rc name = (gvrResource (riResource rc), riNamespace rc, name)"

definition logCall :: "string \<Rightarrow> string \<Rightarrow> (world, unit) state" where
  "logCall verb name = State (\<lambda>w. ((), w\<lparr>wLog := wLog w @ [(verb, name)]\<rparr>))"

definition refName :: "unstructured \<Rightarrow> string" where
  "refName obj = strOf (jget (metaOf obj) ''name'')"

definition refGet :: "resourceInterface \<Rightarrow> string \<Rightarrow> (world, err + unstructured) state" where
  "refGet rc name = State (\<lambda>w.
     (case map_of (wObjects w) (objKeyOf rc name) of None \<Rightarrow> Inl (LibErr ''NotFound'') | Some obj \<Rightarrow> Inr obj,
      w\<lparr>wLog := wLog w @ [(''get'', name)]\<rparr>))"

definition refPut :: "string \<Rightarrow> resourceInterface \<Rightarrow> unstructured \<Rightarrow> (world, err + unstructured) state" where
  "refPut verb rc obj = State (\<lambda>w.
     let k = objKeyOf rc (refName obj); w' = w\<lparr>wLog := wLog w @ [(verb, refName obj)]\<rparr> in
     if verb = ''create'' \<and> map_of (wObjects w) k \<noteq> None then (Inl (LibErr ''AlreadyExists''), w')
     else if verb \<noteq> ''create'' \<and> map_of (wObjects w) k = None then (Inl (LibErr ''NotFound''), w')
     else (Inr obj, w'\<lparr>wObjects := AList.update k obj (wObjects w)\<rparr>))"

definition refDelete :: "resourceInterface \<Rightarrow> string \<Rightarrow> deleteOptions \<Rightarrow> (world, err option) state" where
  "refDelete rc name opts = State (\<lambda>w.
     let w' = w\<lparr>wLog := wLog w @ [(''delete'', name)]\<rparr> in
     if map_of (wObjects w) (objKeyOf rc name) = None then (Some (LibErr ''NotFound''), w')
     else (None, w'\<lparr>wObjects := AList.delete (objKeyOf rc name) (wObjects w)\<rparr>))"

definition refPatch :: "resourceInterface \<Rightarrow> string \<Rightarrow> patchType \<Rightarrow> string \<Rightarrow> patchOptions \<Rightarrow> (world, err + unstructured) state" where
  "refPatch rc name t body opts = State (\<lambda>w.
     (case map_of (wObjects w) (objKeyOf rc name) of None \<Rightarrow> Inl (LibErr ''NotFound'') | Some obj \<Rightarrow> Inr obj,
      w\<lparr>wLog := wLog w @ [(''patch'', name)]\<rparr>))"

definition refRevPut :: "string \<Rightarrow> string \<Rightarrow> ControllerRevision \<Rightarrow> (world, err + ControllerRevision) state" where
  "refRevPut verb ns r = State (\<lambda>w.
     (Inr r, w\<lparr>wRevisions := AList.update (ns, crName r) r (wRevisions w), wLog := wLog w @ [(verb, crName r)]\<rparr>))"

definition refK :: "world k8s" where
  "refK =
     \<lparr>GetName = refName,
      GetNamespace = (\<lambda>obj. strOf (jget (metaOf obj) ''namespace'')),
      GetUID = (\<lambda>obj. strOf (jget (metaOf obj) ''uid'')),
      GetKind = (\<lambda>obj. strOf (jget obj ''kind'')),
      GetAPIVersion = (\<lambda>obj. strOf (jget obj ''apiVersion'')),
      GetResourceVersion = (\<lambda>obj. strOf (jget (metaOf obj) ''resourceVersion'')),
      GetGeneration = (\<lambda>obj. intOf (jget (metaOf obj) ''generation'')),
      GetLabels = (\<lambda>obj. strMapOf (jget (metaOf obj) ''labels'')),
      GetAnnotations = (\<lambda>obj. strMapOf (jget (metaOf obj) ''annotations'')),
      GetFinalizers = (\<lambda>obj. map strOf (arrOf (jget (metaOf obj) ''finalizers''))),
      GetDeletionTimestamp = (\<lambda>obj. case map_of (metaOf obj) ''deletionTimestamp'' of Some (JString s) \<Rightarrow> Some s | _ \<Rightarrow> None),
      GetOwnerReferences = ownersOf,
      GroupVersionKind = (\<lambda>obj. let gv = refGroupVersion (strOf (jget obj ''apiVersion'')) in
         \<lparr>gvkGroup = fst gv, gvkVersion = snd gv, gvkKind = strOf (jget obj ''kind'')\<rparr>),
      SetNamespace = (\<lambda>obj s. putMeta obj ''namespace'' (JString s)),
      SetLabels = (\<lambda>obj m. putMeta obj ''labels'' (ofStrMap m)),
      SetAnnotations = (\<lambda>obj m. putMeta obj ''annotations'' (ofStrMap m)),
      SetOwnerReferences = (\<lambda>obj rs. putMeta obj ''ownerReferences'' (JArr (map ofOwner rs))),
      SetResourceVersion = (\<lambda>obj s. putMeta obj ''resourceVersion'' (JString s)),
      NestedFieldNoCopy = (\<lambda>m fs. nested (JObj m) fs),
      SetNestedField = setNested,
      RemoveNestedField = removeNested,
      NestedSlice = nestedSlice,
      NestedMap = nestedMap,
      NestedInt64 = nestedInt,
      NestedStringMap = nestedStrMap,
      Marshal = (\<lambda>j. if j = JObj [] then Inr ''{}'' else Inl (LibErr ''marshal'')),
      Unmarshal = (\<lambda>s. if s = ''{}'' then Inr [] else Inl (LibErr ''unmarshal'')),
      JsonMarshal = (\<lambda>j. Inr (fmtV j)),
      CreateMergePatch = (\<lambda>a b. Inr b),
      Sum64 = (\<lambda>s. of_nat (length s)),
      Sha1Hex = (\<lambda>s. replicate 40 (CHR ''0'')),
      NewAggregate = (\<lambda>es. if es = [] then None else Some (LibErr ''aggregate'')),
      IsNotFound = (\<lambda>e. e = LibErr ''NotFound''),
      IsGone = (\<lambda>e. e = LibErr ''Gone''),
      IsConflict = (\<lambda>e. e = LibErr ''Conflict''),
      IsAlreadyExists = (\<lambda>e. e = LibErr ''AlreadyExists''),
      IsBadRequest = (\<lambda>e. e = LibErr ''BadRequest''),
      IsForbidden = (\<lambda>e. e = LibErr ''Forbidden''),
      NewGone = (\<lambda>_. LibErr ''Gone''),
      NewNotFound = (\<lambda>_. LibErr ''NotFound''),
      ErrorString = (\<lambda>e. case e of LibErr s \<Rightarrow> s | _ \<Rightarrow> ''error''),
      GetControllerOf = refControllerOf,
      GroupVersionString = (\<lambda>g v. if g = '''' then v else g @ ''/'' @ v),
      ParseGroupVersion = (\<lambda>s. Inr (refGroupVersion s)),
      ContainsFinalizer = (\<lambda>obj f. f \<in> set (map strOf (arrOf (jget (metaOf obj) ''finalizers'')))),
      AddFinalizerTo = (\<lambda>obj f. putMeta obj ''finalizers'' (JArr (arrOf (jget (metaOf obj) ''finalizers'') @ [JString f]))),
      RemoveFinalizerFrom = (\<lambda>obj f. putMeta obj ''finalizers'' (JArr (filter (\<lambda>x. strOf x \<noteq> f) (arrOf (jget (metaOf obj) ''finalizers''))))),
      LabelSelectorAsSelector = (\<lambda>s. Inr (refSelector s)),
      Everything = \<lparr>Matches = (\<lambda>_. True), SelEmpty = True\<rparr>,
      CtxErr = State_Monad.return None,
      ApiGet = refGet,
      ApiCreate = refPut ''create'',
      ApiUpdate = refPut ''update'',
      ApiUpdateStatus = refPut ''updateStatus'',
      ApiDelete = refDelete,
      ApiPatch = refPatch,
      ServerGroupsAndResources = State (\<lambda>w. ((wGroups w, None), w)),
      RevGet = (\<lambda>ns name. State (\<lambda>w. (case map_of (wRevisions w) (ns, name) of None \<Rightarrow> Inl (LibErr ''NotFound'') | Some r \<Rightarrow> Inr r, w))),
      RevCreate = refRevPut ''createRevision'',
      RevUpdate = refRevPut ''updateRevision'',
      RevDelete = (\<lambda>ns name opts. State (\<lambda>w. (None, w\<lparr>wRevisions := AList.delete (ns, name) (wRevisions w),
         wLog := wLog w @ [(''deleteRevision'', name)]\<rparr>))),
      RevRetryOnConflict = retryN (\<lambda>e. e = LibErr ''Conflict'') 4,
      RetryOnConflict = retryN (\<lambda>e. e = LibErr ''Conflict'') 4\<rparr>"

lemma refK_simps:
  "GetName refK = refName"
  "GetNamespace refK = (\<lambda>obj. strOf (jget (metaOf obj) ''namespace''))"
  "GetUID refK = (\<lambda>obj. strOf (jget (metaOf obj) ''uid''))"
  "GetKind refK = (\<lambda>obj. strOf (jget obj ''kind''))"
  "GetAPIVersion refK = (\<lambda>obj. strOf (jget obj ''apiVersion''))"
  "GetResourceVersion refK = (\<lambda>obj. strOf (jget (metaOf obj) ''resourceVersion''))"
  "GetGeneration refK = (\<lambda>obj. intOf (jget (metaOf obj) ''generation''))"
  "GetLabels refK = (\<lambda>obj. strMapOf (jget (metaOf obj) ''labels''))"
  "GetAnnotations refK = (\<lambda>obj. strMapOf (jget (metaOf obj) ''annotations''))"
  "GetFinalizers refK = (\<lambda>obj. map strOf (arrOf (jget (metaOf obj) ''finalizers'')))"
  "GetDeletionTimestamp refK = (\<lambda>obj. case map_of (metaOf obj) ''deletionTimestamp'' of Some (JString s) \<Rightarrow> Some s | _ \<Rightarrow> None)"
  "GetOwnerReferences refK = ownersOf"
  "GroupVersionKind refK = (\<lambda>obj. let gv = refGroupVersion (strOf (jget obj ''apiVersion'')) in
         \<lparr>gvkGroup = fst gv, gvkVersion = snd gv, gvkKind = strOf (jget obj ''kind'')\<rparr>)"
  "SetNamespace refK = (\<lambda>obj s. putMeta obj ''namespace'' (JString s))"
  "SetLabels refK = (\<lambda>obj m. putMeta obj ''labels'' (ofStrMap m))"
  "SetAnnotations refK = (\<lambda>obj m. putMeta obj ''annotations'' (ofStrMap m))"
  "SetOwnerReferences refK = (\<lambda>obj rs. putMeta obj ''ownerReferences'' (JArr (map ofOwner rs)))"
  "SetResourceVersion refK = (\<lambda>obj s. putMeta obj ''resourceVersion'' (JString s))"
  "NestedFieldNoCopy refK = (\<lambda>m fs. nested (JObj m) fs)"
  "SetNestedField refK = setNested"
  "RemoveNestedField refK = removeNested"
  "NestedSlice refK = nestedSlice"
  "NestedMap refK = nestedMap"
  "NestedInt64 refK = nestedInt"
  "NestedStringMap refK = nestedStrMap"
  "Marshal refK = (\<lambda>j. if j = JObj [] then Inr ''{}'' else Inl (LibErr ''marshal''))"
  "Unmarshal refK = (\<lambda>s. if s = ''{}'' then Inr [] else Inl (LibErr ''unmarshal''))"
  "JsonMarshal refK = (\<lambda>j. Inr (fmtV j))"
  "CreateMergePatch refK = (\<lambda>a b. Inr b)"
  "Sum64 refK = (\<lambda>s. of_nat (length s))"
  "Sha1Hex refK = (\<lambda>s. replicate 40 (CHR ''0''))"
  "NewAggregate refK = (\<lambda>es. if es = [] then None else Some (LibErr ''aggregate''))"
  "IsNotFound refK = (\<lambda>e. e = LibErr ''NotFound'')"
  "IsGone refK = (\<lambda>e. e = LibErr ''Gone'')"
  "IsConflict refK = (\<lambda>e. e = LibErr ''Conflict'')"
  "IsAlreadyExists refK = (\<lambda>e. e = LibErr ''AlreadyExists'')"
  "IsBadRequest refK = (\<lambda>e. e = LibErr ''BadRequest'')"
  "IsForbidden refK = (\<lambda>e. e = LibErr ''Forbidden'')"
  "NewGone refK = (\<lambda>_. LibErr ''Gone'')"
  "NewNotFound refK = (\<lambda>_. LibErr ''NotFound'')"
  "ErrorString refK = (\<lambda>e. case e of LibErr s \<Rightarrow> s | _ \<Rightarrow> ''error'')"
  "GetControllerOf refK = refControllerOf"
  "GroupVersionString refK = (\<lambda>g v. if g = '''' then v else g @ ''/'' @ v)"
  "ParseGroupVersion refK = (\<lambda>s. Inr (refGroupVersion s))"
  "ContainsFinalizer refK = (\<lambda>obj f. f \<in> set (map strOf (arrOf (jget (metaOf obj) ''finalizers''))))"
  "AddFinalizerTo refK = (\<lambda>obj f. putMeta obj ''finalizers'' (JArr (arrOf (jget (metaOf obj) ''finalizers'') @ [JString f])))"
  "RemoveFinalizerFrom refK = (\<lambda>obj f. putMeta obj ''finalizers'' (JArr (filter (\<lambda>x. strOf x \<noteq> f) (arrOf (jget (metaOf obj) ''finalizers'')))))"
  "LabelSelectorAsSelector refK = (\<lambda>s. Inr (refSelector s))"
  "Everything refK = \<lparr>Matches = (\<lambda>_. True), SelEmpty = True\<rparr>"
  "CtxErr refK = State_Monad.return None"
  "ApiGet refK = refGet"
  "ApiCreate refK = refPut ''create''"
  "ApiUpdate refK = refPut ''update''"
  "ApiUpdateStatus refK = refPut ''updateStatus''"
  "ApiDelete refK = refDelete"
  "ApiPatch refK = refPatch"
  "ServerGroupsAndResources refK = State (\<lambda>w. ((wGroups w, None), w))"
  "RevGet refK = (\<lambda>ns name. State (\<lambda>w. (case map_of (wRevisions w) (ns, name) of None \<Rightarrow> Inl (LibErr ''NotFound'') | Some r \<Rightarrow> Inr r, w)))"
  "RevCreate refK = refRevPut ''createRevision''"
  "RevUpdate refK = refRevPut ''updateRevision''"
  "RevDelete refK = (\<lambda>ns name opts. State (\<lambda>w. (None, w\<lparr>wRevisions := AList.delete (ns, name) (wRevisions w),
         wLog := wLog w @ [(''deleteRevision'', name)]\<rparr>)))"
  "RevRetryOnConflict refK = retryN (\<lambda>e. e = LibErr ''Conflict'') 4"
  "RetryOnConflict refK = retryN (\<lambda>e. e = LibErr ''Conflict'') 4"
  unfolding refK_def by (simp_all only: k8s.simps)

section \<open>The laws hold of it\<close>

lemma strMapOf_ofStrMap [simp]: "strMapOf (ofStrMap m) = Some m"
  by (simp add: strMapOf_def ofStrMap_def comp_def)

lemma metaOf_putMeta [simp]: "metaOf (putMeta obj k v) = jput k v (metaOf obj)"
  by (simp add: metaOf_def putMeta_def)

lemma ownerOf_ofOwner [simp]: "ownerOf (ofOwner r) = r"
  by (cases r) (simp add: ownerOf_def ofOwner_def boolOf_def boolField_def jget_def split: option.split)

lemma refK_annotations: "GetAnnotations refK (SetAnnotations refK obj ann) = Some ann"
  by (simp add: refK_simps)

lemma refK_owners: "GetOwnerReferences refK (SetOwnerReferences refK obj rs) = rs"
  by (simp add: refK_simps ownersOf_def comp_def)

lemma refK_aggregate: "aggregate_law refK"
  by (simp add: aggregate_law_def refK_simps)

lemma refK_retry: "retry_law refK"
  by (auto simp: retry_law_def refK_simps)

lemma refK_api_errors: "api_errors_law refK"
  by (simp add: api_errors_law_def refK_simps)

end
