(* ===== verification/Apply.thy ===== *)
theory Apply
  imports Reference
begin

text \<open>
  The client-side three-way merge of \<^verbatim>\<open>pkg/dynamic/apply/apply.go\<close>.  \<open>merge\<close>,
  \<open>mergeObject\<close>, \<open>mergeArray\<close> and \<open>mergeListMap\<close> call each other in the
  source; here the last three take the recursive call as their first argument and
  \<open>merge\<close> ties the knot.  The in-place mutation of the destination is the returned
  value: \<open>Merge\<close> starts from a deep copy, so no other value sees it.
\<close>

section \<open>Merge keys\<close>

definition stringMergeKey :: "json \<Rightarrow> string" where
  "stringMergeKey v = (case v of JString s \<Rightarrow> s | _ \<Rightarrow> fmtV v)"

definition knownMergeKeys :: "string list" where
  "knownMergeKeys = [''containerPort'', ''port'', ''mountPath'', ''name'', ''uid'', ''ip'', ''path'']"

text \<open>The two nested loops of \<^verbatim>\<open>detectListMapKey\<close>: \<open>None\<close> is the early return of
  the empty string at an item that is not an object; \<open>commonKeys\<close> is nil until the
  first object is seen.\<close>

fun commonKeys :: "string list option \<Rightarrow> json list \<Rightarrow> string list option option" where
  "commonKeys ck [] = Some ck"
| "commonKeys ck (JObj obj # items) =
     (case ck of
        None \<Rightarrow> commonKeys (Some (map fst obj)) items
      | Some ks \<Rightarrow> commonKeys (Some (filter (\<lambda>k. map_of obj k \<noteq> None) ks)) items)"
| "commonKeys ck (_ # items) = None"

definition detectListMapKey :: "json list list \<Rightarrow> string" where
  "detectListMapKey ls =
     (case commonKeys None (concat ls) of
        None \<Rightarrow> ''''
      | Some None \<Rightarrow> ''''
      | Some (Some ks) \<Rightarrow>
          (case filter (\<lambda>k. k \<in> set ks) knownMergeKeys of [] \<Rightarrow> '''' | k # _ \<Rightarrow> k))"

text \<open>\<^verbatim>\<open>item.(map[string]interface{})\<close>; the callers establish that the item is an object.\<close>

fun itemMap :: "json \<Rightarrow> jobj" where
  "itemMap (JObj m) = m"
| "itemMap _ = []"

abbreviation itemKey :: "string \<Rightarrow> json \<Rightarrow> string" where
  "itemKey mergeKey item \<equiv> stringMergeKey (jget (itemMap item) mergeKey)"

definition makeListMap :: "string \<Rightarrow> json list \<Rightarrow> jobj" where
  "makeListMap mergeKey items = foldl (\<lambda>res item. jput (itemKey mergeKey item) item res) [] items"

section \<open>The merge\<close>

type_synonym mergeFn = "string \<Rightarrow> json \<Rightarrow> json \<Rightarrow> json \<Rightarrow> err + json"

text \<open>A type assertion \<^verbatim>\<open>v, ok := x.(map[string]interface{})\<close>: when it fails \<open>v\<close> is nil.\<close>

fun assertObj :: "json \<Rightarrow> jobj option \<times> bool" where
  "assertObj (JObj m) = (Some m, True)"
| "assertObj _ = (None, False)"

fun assertArr :: "json \<Rightarrow> json list option \<times> bool" where
  "assertArr JNilArr = (None, True)"
|  "assertArr (JArr xs) = (Some xs, True)"
| "assertArr _ = (None, False)"

abbreviation orNil :: "'a list option \<Rightarrow> 'a list" where
  "orNil x \<equiv> (case x of None \<Rightarrow> [] | Some y \<Rightarrow> y)"

fun mergeFields :: "mergeFn \<Rightarrow> string \<Rightarrow> jobj \<Rightarrow> jobj \<Rightarrow> jobj \<Rightarrow> err + jobj" where
  "mergeFields mrg fieldPath destination lastApplied [] = Inr destination"
| "mergeFields mrg fieldPath destination lastApplied ((key, desVal) # desired) =
     (case mrg (fieldPath @ ''['' @ key @ '']'') (jget destination key) (jget lastApplied key) desVal of
        Inl e \<Rightarrow> Inl e
      | Inr v \<Rightarrow> mergeFields mrg fieldPath (jput key v destination) lastApplied desired)"

definition removeStale :: "jobj \<Rightarrow> jobj \<Rightarrow> jobj \<Rightarrow> jobj" where
  "removeStale destination lastApplied desired =
     filter (\<lambda>p. \<not> (fst p \<in> fst ` set lastApplied \<and> fst p \<notin> fst ` set desired)) destination"

definition mergeObject :: "mergeFn \<Rightarrow> string \<Rightarrow> jobj \<Rightarrow> jobj \<Rightarrow> jobj \<Rightarrow> err + jobj" where
  "mergeObject mrg fieldPath destination lastApplied desired =
     mergeFields mrg fieldPath (removeStale destination lastApplied desired) lastApplied desired"

text \<open>The destination list after \<^verbatim>\<open>mergeObject\<close> ran on the map made from it: the map
  holds, for each key, the last item with that key, and a merged object is that same Go map,
  so the list shows its new contents.\<close>

fun mergedInPlace :: "string \<Rightarrow> jobj \<Rightarrow> jobj \<Rightarrow> json list \<Rightarrow> json list" where
  "mergedInPlace mergeKey destMap desMap [] = []"
| "mergedInPlace mergeKey destMap desMap (item # items) =
     (let key = itemKey mergeKey item in
      if key \<notin> itemKey mergeKey ` set items \<and> map_of desMap key \<noteq> None
      then jget destMap key else item)
     # mergedInPlace mergeKey destMap desMap items"

text \<open>The two loops that turn the merged map back into a list; \<open>added\<close> is the set of keys
  already placed.\<close>

fun takeExisting :: "string \<Rightarrow> jobj \<Rightarrow> json list \<Rightarrow> string list \<Rightarrow> json list \<times> string list" where
  "takeExisting mergeKey destMap [] added = ([], added)"
| "takeExisting mergeKey destMap (item # items) added =
     (case map_of destMap (itemKey mergeKey item) of
        Some newItem \<Rightarrow>
          (let r = takeExisting mergeKey destMap items (itemKey mergeKey item # added)
           in (newItem # fst r, snd r))
      | None \<Rightarrow> takeExisting mergeKey destMap items added)"

fun takeNew :: "string \<Rightarrow> jobj \<Rightarrow> json list \<Rightarrow> string list \<Rightarrow> json list" where
  "takeNew mergeKey destMap [] added = []"
| "takeNew mergeKey destMap (item # items) added =
     (let key = itemKey mergeKey item in
      if key \<notin> set added
      then jget destMap key # takeNew mergeKey destMap items (key # added)
      else takeNew mergeKey destMap items added)"

definition mergeListMap :: "mergeFn \<Rightarrow> string \<Rightarrow> string \<Rightarrow> json list \<Rightarrow> json list \<Rightarrow> json list \<Rightarrow> err + json" where
  "mergeListMap mrg fieldPath mergeKey destination lastApplied desired =
     (case mergeObject mrg fieldPath (makeListMap mergeKey destination)
             (makeListMap mergeKey lastApplied) (makeListMap mergeKey desired) of
        Inl e \<Rightarrow> Inl e
      | Inr destMap \<Rightarrow>
          (let r = takeExisting mergeKey destMap
                     (mergedInPlace mergeKey destMap (makeListMap mergeKey desired) destination) []
           in Inr (JArr (fst r @ takeNew mergeKey destMap desired (snd r)))))"

definition mergeArray :: "mergeFn \<Rightarrow> string \<Rightarrow> json list \<Rightarrow> json list \<Rightarrow> json list option \<Rightarrow> err + json" where
  "mergeArray mrg fieldPath destination lastApplied desired =
     (let mergeKey = detectListMapKey [destination, lastApplied, orNil desired] in
      if mergeKey \<noteq> ''''
      then mergeListMap mrg fieldPath mergeKey destination lastApplied (orNil desired)
      else Inr (case desired of None \<Rightarrow> JNilArr | Some xs \<Rightarrow> JArr xs))"

text \<open>One level of \<^verbatim>\<open>merge\<close>.  The two checks read \<^verbatim>\<open>!ok && lastVal != nil\<close> in the source.\<close>

definition mergeStep :: "mergeFn \<Rightarrow> mergeFn" where
  "mergeStep mrg fieldPath destination lastApplied desired =
     (case destination of
        JObj destVal \<Rightarrow>
          (let (lastVal, okL) = assertObj lastApplied; (desVal, okD) = assertObj desired in
           if \<not> okL \<and> lastVal \<noteq> None
           then Inl (Errorf (''lastApplied'' @ fieldPath @ '': expecting map[string]interface'') None)
           else if \<not> okD \<and> desVal \<noteq> None
           then Inl (Errorf (''desired'' @ fieldPath @ '': expecting map[string]interface'') None)
           else map_sum id JObj (mergeObject mrg fieldPath destVal (orNil lastVal) (orNil desVal)))
      | _ \<Rightarrow>
          if snd (assertArr destination) then
            (let (lastVal, okL) = assertArr lastApplied; (desVal, okD) = assertArr desired in
             if \<not> okL \<and> lastVal \<noteq> None
             then Inl (Errorf (''lastApplied'' @ fieldPath @ '': expecting []interface'') None)
             else if \<not> okD \<and> desVal \<noteq> None
             then Inl (Errorf (''desired'' @ fieldPath @ '': expecting []interface'') None)
             else mergeArray mrg fieldPath (orNil (fst (assertArr destination))) (orNil lastVal) desVal)
          else Inr desired)"

lemma mergeFields_cong:
  assumes "\<And>k v f d l. (k, v) \<in> set desired \<Longrightarrow> f1 f d l v = f2 f d l v"
  shows "mergeFields f1 p destination lastApplied desired = mergeFields f2 p destination lastApplied desired"
  using assms
proof (induction desired arbitrary: destination)
  case (Cons q desired)
  have "f1 f d l (snd q) = f2 f d l (snd q)" for f d l
    using Cons.prems [of "fst q" "snd q"] by simp
  moreover have "mergeFields f1 p m lastApplied desired = mergeFields f2 p m lastApplied desired" for m
    by (rule Cons.IH) (erule Cons.prems [OF list.set_intros(2)])
  ultimately show ?case by (cases q) (simp split: sum.split)
qed simp

lemma makeListMap_items:
  "set (makeListMap mergeKey items) \<subseteq> (\<lambda>item. (itemKey mergeKey item, item)) ` set items"
proof -
  have "set (foldl (\<lambda>res item. jput (itemKey mergeKey item) item res) m items)
          \<subseteq> set m \<union> (\<lambda>item. (itemKey mergeKey item, item)) ` set items" for m
    using set_jput_subset by (induction items arbitrary: m) fastforce+
  from this [of "[]"] show ?thesis by (simp add: makeListMap_def)
qed

lemma mergeObject_cong:
  assumes "\<And>v f x y. jweight v < jweight u \<Longrightarrow> f1 f x y v = f2 f x y v"
  shows "mergeObject f1 p dm lm (orNil (fst (assertObj u))) = mergeObject f2 p dm lm (orNil (fst (assertObj u)))"
  using assms by (cases u) (auto simp: mergeObject_def dest!: jweight_field intro!: mergeFields_cong)

lemma mergeArray_cong:
  assumes "\<And>v f x y. jweight v < jweight u \<Longrightarrow> f1 f x y v = f2 f x y v"
  shows "mergeArray f1 p dm lm (fst (assertArr u)) = mergeArray f2 p dm lm (fst (assertArr u))"
proof -
  have "mergeObject f1 p m n (makeListMap k xs) = mergeObject f2 p m n (makeListMap k xs)"
    if "xs = orNil (fst (assertArr u))" for k xs m n
    unfolding mergeObject_def
  proof (rule mergeFields_cong)
    fix j v f d l
    assume "(j, v) \<in> set (makeListMap k xs)"
    then have "v \<in> set xs" using makeListMap_items [of k xs] by blast
    then have "jweight v < jweight u"
      using that jweight_item by (cases u) auto
    then show "f1 f d l v = f2 f d l v" by (rule assms)
  qed
  then show ?thesis
    by (simp add: mergeArray_def mergeListMap_def Let_def)
qed

lemma mergeObject_nil: "mergeObject f1 p dm lm [] = mergeObject f2 p dm lm []"
  by (simp add: mergeObject_def)

lemma mergeArray_nil: "mergeArray f1 p dm lm None = mergeArray f2 p dm lm None"
  using mergeArray_cong [of JNull f1 f2] by simp

lemma mergeStep_cong [fundef_cong]:
  assumes "p = p'" "d = d'" "l = l'" "u = u'"
    and "\<And>v f x y. jweight v < jweight u' \<Longrightarrow> f1 f x y v = f2 f x y v"
  shows "mergeStep f1 p d l u = mergeStep f2 p' d' l' u'"
  unfolding assms(1-4) mergeStep_def
  by (cases d')
    (simp_all add: Let_def case_prod_beta mergeObject_cong [OF assms(5)] mergeArray_cong [OF assms(5)]
      mergeObject_nil [of f1 _ _ _ f2] mergeArray_nil [of f1 _ _ _ f2])

function merge :: mergeFn where
  "merge fieldPath destination lastApplied desired =
     mergeStep merge fieldPath destination lastApplied desired"
  by pat_completeness auto
termination
  by (relation "measure (\<lambda>(f, d, l, u). jweight u)") auto

declare merge.simps [simp del]

text \<open>\<^verbatim>\<open>Merge\<close>: \<^verbatim>\<open>merge\<close> mutates the deep copy of \<^verbatim>\<open>observed\<close> and its return value is
  dropped, which for an object destination is the same map.\<close>

definition Merge :: "jobj \<Rightarrow> jobj \<Rightarrow> jobj \<Rightarrow> err + jobj" where
  "Merge observed lastApplied desired =
     (case merge '''' (JObj observed) (JObj lastApplied) (JObj desired) of
        Inl e \<Rightarrow> Inl (Errorf ''can't merge desired changes'' (Some e))
      | Inr r \<Rightarrow> Inr (itemMap r))"

section \<open>The last-applied annotation\<close>

definition LastAppliedAnnotation :: string where
  "LastAppliedAnnotation = ''metacontroller.k8s.io/last-applied-configuration''"

definition SetLastApplied :: "'w k8s \<Rightarrow> unstructured \<Rightarrow> jobj \<Rightarrow> err + unstructured" where
  "SetLastApplied K obj lastApplied =
     (case Marshal K (JObj lastApplied) of
        Inl e \<Rightarrow> Inl (Errorf ''can't marshal last applied config'' (Some e))
      | Inr lastAppliedJSON \<Rightarrow>
          Inr (SetAnnotations K obj
                 (jput LastAppliedAnnotation lastAppliedJSON (orNil (GetAnnotations K obj)))))"

text \<open>The nil map returned for a missing annotation reads as the empty map.\<close>

definition GetLastApplied :: "'w k8s \<Rightarrow> unstructured \<Rightarrow> err + jobj" where
  "GetLastApplied K obj =
     (case map_of (orNil (GetAnnotations K obj)) LastAppliedAnnotation of
        None \<Rightarrow> Inr []
      | Some lastAppliedJSON \<Rightarrow>
          if lastAppliedJSON = '''' then Inr []
          else (case Unmarshal K lastAppliedJSON of
                  Inl e \<Rightarrow> Inl (Errorf (''can't unmarshal '' @ fmtQ LastAppliedAnnotation @ '' annotation'') (Some e))
                | Inr lastApplied \<Rightarrow> Inr lastApplied))"


section \<open>Totality\<close>

lemma mergeFields_total:
  assumes "\<And>k v f d l. (k, v) \<in> set desired \<Longrightarrow> \<exists>r. mrg f d l v = Inr r"
  shows "\<exists>r. mergeFields mrg p destination lastApplied desired = Inr r"
  using assms
proof (induction desired arbitrary: destination)
  case (Cons q desired)
  obtain v where v: "mrg (p @ ''['' @ fst q @ '']'') (jget destination (fst q)) (jget lastApplied (fst q)) (snd q) = Inr v"
    using Cons.prems by (metis list.set_intros(1) prod.collapse)
  obtain r where "mergeFields mrg p (jput (fst q) v destination) lastApplied desired = Inr r"
    using Cons.IH Cons.prems by (meson list.set_intros(2))
  with v show ?case by (cases q) auto
qed simp

lemma mergeArray_total:
  assumes "\<And>v f d l. jweight v < jweight u \<Longrightarrow> \<exists>r. mrg f d l v = Inr r"
  shows "\<exists>r. mergeArray mrg p dm lm (fst (assertArr u)) = Inr r"
proof -
  have "\<exists>r. mergeObject mrg p m n (makeListMap k xs) = Inr r"
    if "xs = orNil (fst (assertArr u))" for k xs m n
    unfolding mergeObject_def
  proof (rule mergeFields_total)
    fix j v f d l
    assume "(j, v) \<in> set (makeListMap k xs)"
    then have "v \<in> set xs" using makeListMap_items [of k xs] by blast
    then have "jweight v < jweight u" using that jweight_item by (cases u) auto
    then show "\<exists>r. mrg f d l v = Inr r" by (rule assms)
  qed
  then show ?thesis
    by (auto simp: mergeArray_def mergeListMap_def Let_def split: sum.splits) (metis sum.distinct(1))
qed

lemma mergeObject_total:
  assumes "\<And>v f d l. jweight v < jweight u \<Longrightarrow> \<exists>r. mrg f d l v = Inr r"
  shows "\<exists>r. mergeObject mrg p dm lm (orNil (fst (assertObj u))) = Inr r"
  using assms by (cases u) (auto simp: mergeObject_def dest!: jweight_field intro!: mergeFields_total)

lemma assert_ok [simp]:
  "fst (assertObj x) \<noteq> None \<Longrightarrow> snd (assertObj x)"
  "fst (assertArr x) \<noteq> None \<Longrightarrow> snd (assertArr x)"
  by (cases x; simp)+

text \<open>The type checks of \<open>merge\<close> never fire: one level of it in closed form.\<close>

lemma mergeStep_eq:
  "mergeStep mrg p d l u =
     (case d of
        JObj dm \<Rightarrow> map_sum id JObj (mergeObject mrg p dm (orNil (fst (assertObj l))) (orNil (fst (assertObj u))))
      | JArr xs \<Rightarrow> mergeArray mrg p xs (orNil (fst (assertArr l))) (fst (assertArr u))
      | JNilArr \<Rightarrow> mergeArray mrg p [] (orNil (fst (assertArr l))) (fst (assertArr u))
      | _ \<Rightarrow> Inr u)"
  by (cases d) (auto simp: mergeStep_def Let_def case_prod_beta)

lemma merge_total: "\<exists>r. merge p d l u = Inr r"
proof (induction p d l u rule: merge.induct)
  case (1 p d l u)
  then have "\<And>v f d l. jweight v < jweight u \<Longrightarrow> \<exists>r. merge f d l v = Inr r" by blast
  then show ?case
    unfolding merge.simps [of p d l u] mergeStep_eq
    using mergeObject_total [of u merge] mergeArray_total [of u merge]
    by (cases d) (simp_all, metis map_sum.simps(2))
qed


section \<open>What the merge computes\<close>

text \<open>The value of a merge; the field path only appears in error messages.\<close>

definition merged :: "json \<Rightarrow> json \<Rightarrow> json \<Rightarrow> json" where
  "merged d l u = (case merge '''' d l u of Inl _ \<Rightarrow> JNull | Inr r \<Rightarrow> r)"

lemma mergeFields_path:
  assumes "\<And>k v f g d l. (k, v) \<in> set desired \<Longrightarrow> mrg f d l v = mrg g d l v"
  shows "mergeFields mrg p destination lastApplied desired = mergeFields mrg q destination lastApplied desired"
  using assms
proof (induction desired arbitrary: destination)
  case (Cons x desired)
  have "mrg (p @ ''['' @ fst x @ '']'') d l (snd x) = mrg (q @ ''['' @ fst x @ '']'') d l (snd x)" for d l
    by (rule Cons.prems [of "fst x"]) simp
  moreover have "mergeFields mrg p m lastApplied desired = mergeFields mrg q m lastApplied desired" for m
    by (rule Cons.IH) (erule Cons.prems [OF list.set_intros(2)])
  ultimately show ?case by (cases x) (simp split: sum.split)
qed simp

lemma merge_path: "merge p d l u = merge q d l u"
proof (induction p d l u arbitrary: q rule: merge.induct)
  case (1 p d l u)
  then have IH: "\<And>v f g d l. jweight v < jweight u \<Longrightarrow> merge f d l v = merge g d l v" by blast
  have obj: "mergeObject merge p dm lm (orNil (fst (assertObj u))) = mergeObject merge q dm lm (orNil (fst (assertObj u)))" for dm lm
    using IH by (cases u) (auto simp: mergeObject_def dest!: jweight_field intro!: mergeFields_path)
  have "mergeObject merge p m n (makeListMap k (orNil (fst (assertArr u)))) =
        mergeObject merge q m n (makeListMap k (orNil (fst (assertArr u))))" for k m n
    unfolding mergeObject_def
  proof (rule mergeFields_path)
    fix j v f g d l
    assume "(j, v) \<in> set (makeListMap k (orNil (fst (assertArr u))))"
    then have "v \<in> set (orNil (fst (assertArr u)))" using makeListMap_items by blast
    then have "jweight v < jweight u" using jweight_item by (cases u) auto
    then show "merge f d l v = merge g d l v" by (rule IH)
  qed
  then have "mergeArray merge p dm lm (fst (assertArr u)) = mergeArray merge q dm lm (fst (assertArr u))" for dm lm
    by (simp add: mergeArray_def mergeListMap_def Let_def)
  with obj show ?case
    unfolding merge.simps [of _ d l u] mergeStep_eq by (cases d) simp_all
qed

lemma merge_merged: "merge p d l u = Inr (merged d l u)"
  using merge_total [of "''''" d l u] merge_path [of p d l u "''''"] by (auto simp: merged_def)

lemma merge_eq: "merge = (\<lambda>p d l u. Inr (merged d l u))"
  by (intro ext merge_merged)

text \<open>The merge without its error plumbing: the same functions on values.\<close>

fun fieldsM :: "jobj \<Rightarrow> jobj \<Rightarrow> jobj \<Rightarrow> jobj" where
  "fieldsM d l [] = d"
| "fieldsM d l ((k, v) # u) = fieldsM (jput k (merged (jget d k) (jget l k) v) d) l u"

definition objectM :: "jobj \<Rightarrow> jobj \<Rightarrow> jobj \<Rightarrow> jobj" where
  "objectM d l u = fieldsM (removeStale d l u) l u"

definition listM :: "string \<Rightarrow> json list \<Rightarrow> json list \<Rightarrow> json list \<Rightarrow> json list" where
  "listM k d l u =
     (let m = objectM (makeListMap k d) (makeListMap k l) (makeListMap k u);
          r = takeExisting k m (mergedInPlace k m (makeListMap k u) d) []
      in fst r @ takeNew k m u (snd r))"

definition arrayM :: "json list \<Rightarrow> json list \<Rightarrow> json list option \<Rightarrow> json" where
  "arrayM d l u =
     (let k = detectListMapKey [d, l, orNil u] in
      if k \<noteq> '''' then JArr (listM k d l (orNil u))
      else case u of None \<Rightarrow> JNilArr | Some xs \<Rightarrow> JArr xs)"

lemma mergeFields_merge: "mergeFields merge p d l u = Inr (fieldsM d l u)"
  by (induction d l u rule: fieldsM.induct) (simp_all add: merge_eq)

lemma mergeObject_merge: "mergeObject merge p d l u = Inr (objectM d l u)"
  by (simp add: mergeObject_def objectM_def mergeFields_merge)

lemma mergeArray_merge: "mergeArray merge p d l u = Inr (arrayM d l u)"
  by (simp add: mergeArray_def arrayM_def mergeListMap_def listM_def mergeObject_merge Let_def split: option.splits)

lemma merged_simps:
  "merged (JObj d) l u = JObj (objectM d (orNil (fst (assertObj l))) (orNil (fst (assertObj u))))"
  "merged (JArr xs) l u = arrayM xs (orNil (fst (assertArr l))) (fst (assertArr u))"
  "merged JNilArr l u = arrayM [] (orNil (fst (assertArr l))) (fst (assertArr u))"
  "merged JNull l u = u" "merged (JBool b) l u = u" "merged (JInt i) l u = u"
  "merged (JFloat f) l u = u" "merged (JString s) l u = u"
  by (simp_all add: merged_def merge.simps mergeStep_eq mergeObject_merge mergeArray_merge)

lemma map_of_fieldsM:
  "distinct (map fst u) \<Longrightarrow>
     map_of (fieldsM d l u) k =
       (case map_of u k of None \<Rightarrow> map_of d k | Some v \<Rightarrow> Some (merged (jget d k) (jget l k) v))"
proof (induction d l u rule: fieldsM.induct)
  case (2 d l k' v u)
  then have IH: "map_of (fieldsM (jput k' (merged (jget d k') (jget l k') v) d) l u) k =
      (case map_of u k of None \<Rightarrow> map_of (jput k' (merged (jget d k') (jget l k') v) d) k
       | Some w \<Rightarrow> Some (merged (jget (jput k' (merged (jget d k') (jget l k') v) d) k) (jget l k) w))"
    by simp
  show ?case
  proof (cases "k = k'")
    case True
    with "2.prems" have "map_of u k = None" by (simp add: map_of_eq_None_iff)
    with True IH show ?thesis by simp
  next
    case False
    with IH show ?thesis by (simp split: option.split)
  qed
qed simp

lemma fieldsM_sorted: "keys_sorted d \<Longrightarrow> keys_sorted (fieldsM d l u)"
  by (induction d l u rule: fieldsM.induct) simp_all

lemma map_of_removeStale:
  "map_of (removeStale d l u) k = (if map_of l k \<noteq> None \<and> map_of u k = None then None else map_of d k)"
  unfolding removeStale_def map_of_filter_fst [where P = "\<lambda>x. \<not> (x \<in> fst ` set l \<and> x \<notin> fst ` set u)"]
  by (simp add: map_of_eq_None_iff)

lemma map_of_objectM:
  assumes "distinct (map fst u)"
  shows "map_of (objectM d l u) k =
     (case map_of u k of
        Some v \<Rightarrow> Some (merged (jget d k) (jget l k) v)
      | None \<Rightarrow> if map_of l k \<noteq> None then None else map_of d k)"
proof -
  have "map_of u k = Some v \<Longrightarrow> jget (removeStale d l u) k = jget d k" for v
    by (simp add: jget_def map_of_removeStale)
  then show ?thesis
    by (auto simp: objectM_def map_of_fieldsM [OF assms] map_of_removeStale split: option.splits)
qed

lemma objectM_sorted: "keys_sorted d \<Longrightarrow> keys_sorted (objectM d l u)"
  by (simp add: objectM_def removeStale_def fieldsM_sorted)

section \<open>Well-formedness\<close>

lemma makeListMap_sorted [simp]: "keys_sorted (makeListMap k xs)"
proof -
  have "keys_sorted m \<Longrightarrow> keys_sorted (foldl (\<lambda>res item. jput (itemKey k item) item res) m xs)"
    for m :: jobj
    by (induction xs arbitrary: m) simp_all
  from this [of "[]"] show ?thesis by (simp add: makeListMap_def)
qed

lemma wf_makeListMap: "\<forall>x \<in> set xs. wf_json x \<Longrightarrow> wf_json (JObj (makeListMap k xs))"
  using makeListMap_items [of k xs] by auto

lemma wf_fieldsM:
  assumes "wf_json (JObj d)"
    and "\<And>k v x y. (k, v) \<in> set u \<Longrightarrow> wf_json x \<Longrightarrow> wf_json (merged x y v)"
  shows "wf_json (JObj (fieldsM d l u))"
  using assms
proof (induction d l u rule: fieldsM.induct)
  case (2 d l k v u)
  have "wf_json (merged (jget d k) (jget l k) v)"
    by (rule "2.prems"(2) [OF list.set_intros(1) wf_json_jget [OF "2.prems"(1)]])
  then have "wf_json (JObj (jput k (merged (jget d k) (jget l k) v) d))"
    by (rule wf_json_jput [OF "2.prems"(1)])
  then have "wf_json (JObj (fieldsM (jput k (merged (jget d k) (jget l k) v) d) l u))"
    by (rule "2.IH") (rule "2.prems"(2) [OF list.set_intros(2)])
  then show ?case by (simp only: fieldsM.simps)
qed simp

lemma wf_objectM:
  assumes "wf_json (JObj d)"
    and "\<And>k v x y. (k, v) \<in> set u \<Longrightarrow> wf_json x \<Longrightarrow> wf_json (merged x y v)"
  shows "wf_json (JObj (objectM d l u))"
  unfolding objectM_def
  by (rule wf_fieldsM [OF _ assms(2)]) (use assms(1) in \<open>auto simp: removeStale_def\<close>)

lemma takeExisting_items: "x \<in> set (fst (takeExisting k m xs added)) \<Longrightarrow> x \<in> snd ` set m"
proof (induction xs arbitrary: added)
  case (Cons a xs)
  then show ?case
    by (auto simp: Let_def split: option.splits dest!: map_of_SomeD) force+
qed simp

lemma takeNew_items: "x \<in> set (takeNew k m xs added) \<Longrightarrow> x \<in> range (jget m)"
  by (induction xs arbitrary: added) (auto simp: Let_def split: if_splits)

lemma wf_listM:
  assumes "\<forall>x \<in> set d. wf_json x"
    and "\<And>v x y. v \<in> set u \<Longrightarrow> wf_json x \<Longrightarrow> wf_json (merged x y v)"
  shows "\<forall>x \<in> set (listM k d l u). wf_json x"
proof -
  let ?m = "objectM (makeListMap k d) (makeListMap k l) (makeListMap k u)"
  have m: "wf_json (JObj ?m)"
  proof (rule wf_objectM [OF wf_makeListMap [OF assms(1)]])
    fix j v x y
    assume "(j, v) \<in> set (makeListMap k u)" and x: "wf_json x"
    then have "v \<in> set u" using makeListMap_items [of k u] by blast
    then show "wf_json (merged x y v)" using x by (rule assms(2))
  qed
  have old: "wf_json x" if "x \<in> snd ` set ?m" for x using m that by auto
  have new: "wf_json x" if "x \<in> range (jget ?m)" for x using wf_json_jget [OF m] that by blast
  have "x \<in> snd ` set ?m \<or> x \<in> range (jget ?m)" if "x \<in> set (listM k d l u)" for x
  proof -
    let ?d = "mergedInPlace k ?m (makeListMap k u) d"
    from that have "x \<in> set (fst (takeExisting k ?m ?d [])) \<or>
        x \<in> set (takeNew k ?m u (snd (takeExisting k ?m ?d [])))"
      by (simp add: listM_def Let_def)
    then show ?thesis
      using takeExisting_items [of x k ?m ?d "[]"] takeNew_items [of x k ?m u] by blast
  qed
  then show ?thesis using old new by (metis (no_types))
qed

lemma wf_merged: "wf_json d \<Longrightarrow> wf_json u \<Longrightarrow> wf_json (merged d l u)"
proof (induction u arbitrary: d l rule: measure_induct_rule [of jweight])
  case (less u)
  have obj: "wf_json (merged x y v)"
    if "(k, v) \<in> set (orNil (fst (assertObj u)))" "wf_json x" for k v x y
    using that less.prems(2) by (cases u) (auto intro!: less.IH dest: jweight_field)
  have arr: "wf_json (merged x y v)"
    if "v \<in> set (orNil (fst (assertArr u)))" "wf_json x" for v x y
    using that less.prems(2) by (cases u) (auto intro!: less.IH dest: jweight_item)
  have arr': "wf_json (arrayM xs ys (fst (assertArr u)))" if "\<forall>x \<in> set xs. wf_json x" for xs ys
  proof -
    have "\<forall>x \<in> set (listM k xs ys (orNil (fst (assertArr u)))). wf_json x" for k
      using that arr by (rule wf_listM)
    moreover have "fst (assertArr u) = Some zs \<Longrightarrow> \<forall>x \<in> set zs. wf_json x" for zs
      using less.prems(2) by (cases u) auto
    ultimately show ?thesis
      by (simp add: arrayM_def Let_def split: option.split)
  qed
  show ?case
  proof (cases d)
    case (JObj x)
    show ?thesis
      unfolding JObj merged_simps
      by (rule wf_objectM [OF _ obj]) (use less.prems(1) JObj in \<open>simp_all\<close>)
  qed (use less.prems arr' in \<open>simp_all add: merged_simps\<close>)
qed


section \<open>Steady state\<close>

text \<open>Every list map inside a value has one item per merge key.\<close>

fun uniqueKeys :: "json \<Rightarrow> bool" where
  "uniqueKeys (JArr xs) =
     ((\<forall>x \<in> set xs. uniqueKeys x) \<and>
      (let k = detectListMapKey [xs, xs, xs] in k = '''' \<or> distinct (map (itemKey k) xs)))"
| "uniqueKeys (JObj m) = (\<forall>p \<in> set m. uniqueKeys (snd p))"
| "uniqueKeys _ = True"

lemma map_of_makeListMap:
  assumes "distinct (map (itemKey k) xs)"
  shows "map_of (makeListMap k xs) = map_of (map (\<lambda>x. (itemKey k x, x)) xs)"
proof -
  have "distinct (map (itemKey k) xs) \<Longrightarrow> \<forall>x \<in> set xs. map_of m (itemKey k x) = None \<Longrightarrow>
     map_of (foldl (\<lambda>res item. jput (itemKey k item) item res) m xs) =
     map_of m ++ map_of (map (\<lambda>x. (itemKey k x, x)) xs)" for m
  proof (induction xs arbitrary: m)
    case (Cons a xs)
    have "\<forall>x \<in> set xs. map_of (jput (itemKey k a) a m) (itemKey k x) = None"
      using Cons.prems by (auto simp: image_iff)
    then have "map_of (foldl (\<lambda>res item. jput (itemKey k item) item res) (jput (itemKey k a) a m) xs) =
        map_of (jput (itemKey k a) a m) ++ map_of (map (\<lambda>x. (itemKey k x, x)) xs)"
      using Cons.prems(1) by (intro Cons.IH) simp_all
    moreover have "itemKey k a \<notin> dom (map_of (map (\<lambda>x. (itemKey k x, x)) xs))"
      using Cons.prems(1) by (auto simp: dom_map_of_conv_image_fst)
    ultimately show ?case
      by (auto simp: map_add_def fun_eq_iff split: option.splits)
  qed simp
  from this [of "[]"] assms show ?thesis by (simp add: makeListMap_def)
qed

lemma makeListMap_lookup:
  assumes "distinct (map (itemKey k) xs)" "x \<in> set xs"
  shows "map_of (makeListMap k xs) (itemKey k x) = Some x"
  unfolding map_of_makeListMap [OF assms(1)]
  by (rule map_of_is_SomeI) (use assms in \<open>auto simp: comp_def\<close>)

lemma takeExisting_all:
  "\<forall>x \<in> set xs. map_of m (itemKey k x) = Some x \<Longrightarrow>
     takeExisting k m xs added = (xs, rev (map (itemKey k) xs) @ added)"
  by (induction xs arbitrary: added) (simp_all add: Let_def)

lemma mergedInPlace_same:
  "\<forall>x \<in> set xs. map_of m (itemKey k x) = Some x \<Longrightarrow> mergedInPlace k m n xs = xs"
  by (induction xs) (simp_all add: Let_def)

lemma takeNew_none: "\<forall>x \<in> set xs. itemKey k x \<in> set added \<Longrightarrow> takeNew k m xs added = []"
  by (induction xs) (simp_all add: Let_def)

lemma objectM_self:
  assumes "keys_sorted m" "\<forall>p \<in> set m. merged (snd p) (snd p) (snd p) = snd p"
  shows "objectM m m m = m"
proof (rule keys_sorted_ext [OF objectM_sorted [OF assms(1)] assms(1)], rule ext)
  fix k
  have "merged v v v = v" if "map_of m k = Some v" for v
    using assms(2) map_of_SomeD [OF that] by force
  then show "map_of (objectM m m m) k = map_of m k"
    using keys_sorted_distinct [OF assms(1)] by (auto simp: map_of_objectM split: option.split)
qed

lemma listM_self:
  assumes "distinct (map (itemKey k) xs)" "\<forall>x \<in> set xs. merged x x x = x"
  shows "listM k xs xs xs = xs"
proof -
  have "objectM (makeListMap k xs) (makeListMap k xs) (makeListMap k xs) = makeListMap k xs"
    using makeListMap_items [of k xs] assms(2) by (intro objectM_self) auto
  moreover have "takeExisting k (makeListMap k xs) xs [] = (xs, rev (map (itemKey k) xs))"
    "mergedInPlace k (makeListMap k xs) (makeListMap k xs) xs = xs"
    using makeListMap_lookup [OF assms(1)] by (simp_all add: takeExisting_all mergedInPlace_same)
  ultimately show ?thesis
    by (simp add: listM_def takeNew_none)
qed

lemma detect_nil [simp]: "detectListMapKey [[], [], []] = ''''"
  by (simp add: detectListMapKey_def)

lemma merged_self: "wf_json x \<Longrightarrow> uniqueKeys x \<Longrightarrow> merged x x x = x"
proof (induction x rule: measure_induct_rule [of jweight])
  case (less x)
  show ?case
  proof (cases x)
    case (JArr xs)
    have "\<forall>v \<in> set xs. merged v v v = v"
    proof
      fix v
      assume v: "v \<in> set xs"
      then have "jweight v < jweight x" using JArr jweight_item by blast
      then show "merged v v v = v" using less.prems JArr v by (intro less.IH) simp_all
    qed
    then show ?thesis
      using less.prems(2) JArr by (auto simp: merged_simps arrayM_def Let_def listM_self)
  next
    case (JObj m)
    have "\<forall>p \<in> set m. merged (snd p) (snd p) (snd p) = snd p"
    proof
      fix p
      assume p: "p \<in> set m"
      then have "jweight (snd p) < jweight x" using JObj jweight_field [of "fst p" "snd p" m] by simp
      then show "merged (snd p) (snd p) (snd p) = snd p"
        using less.prems JObj p by (intro less.IH) simp_all
    qed
    then show ?thesis
      using less.prems(1) JObj by (simp add: merged_simps objectM_self)
  qed (simp_all add: merged_simps arrayM_def)
qed

section \<open>List maps\<close>

lemma keys_makeListMap: "fst ` set (makeListMap k xs) = itemKey k ` set xs"
proof -
  have "fst ` set (foldl (\<lambda>res item. jput (itemKey k item) item res) m xs) = fst ` set m \<union> itemKey k ` set xs"
    for m :: jobj
    by (induction xs arbitrary: m) auto
  from this [of "[]"] show ?thesis by (simp add: makeListMap_def)
qed

lemma map_of_makeListMap_None: "map_of (makeListMap k xs) x = None \<longleftrightarrow> x \<notin> itemKey k ` set xs"
  by (simp add: map_of_eq_None_iff keys_makeListMap)

lemma takeExisting_keys:
  "takeExisting k m xs added =
     (map (jget m) (filter (\<lambda>x. map_of m x \<noteq> None) (map (itemKey k) xs)),
      rev (filter (\<lambda>x. map_of m x \<noteq> None) (map (itemKey k) xs)) @ added)"
  by (induction xs arbitrary: added) (auto simp: Let_def split: option.split)

lemma takeNew_keys:
  "distinct (map (itemKey k) xs) \<Longrightarrow>
     takeNew k m xs added = map (jget m) (filter (\<lambda>x. x \<notin> set added) (map (itemKey k) xs))"
proof (induction xs arbitrary: added)
  case (Cons a xs)
  then have "itemKey k a \<notin> set (map (itemKey k) xs)" by simp
  then have "filter (\<lambda>x. x \<noteq> itemKey k a \<and> x \<notin> set added) (map (itemKey k) xs) =
      filter (\<lambda>x. x \<notin> set added) (map (itemKey k) xs)"
    by (intro filter_cong) (simp_all only: simp_thms, metis)
  with Cons show ?case by (simp add: Let_def)
qed simp

text \<open>Every item is an object in key order whose merge key is a scalar.\<close>

fun scalar :: "json \<Rightarrow> bool" where
  "scalar (JObj _) = False"
| "scalar (JArr _) = False"
| "scalar JNilArr = False"
| "scalar _ = True"

definition scalarKeyed :: "string \<Rightarrow> json list \<Rightarrow> bool" where
  "scalarKeyed k xs \<longleftrightarrow>
     (\<forall>x \<in> set xs. wf_json x \<and> (\<exists>m v. x = JObj m \<and> map_of m k = Some v \<and> scalar v))"

lemma merged_scalar: "scalar d \<Longrightarrow> merged d l u = u"
  by (cases d) (simp_all add: merged_simps)

text \<open>Merging an item does not change its key.\<close>

lemma itemKey_merged:
  assumes "scalarKeyed k [x]" "scalarKeyed k [y]" "itemKey k x = itemKey k y"
  shows "itemKey k (merged x l y) = itemKey k x" "scalarKeyed k [merged x l y]"
proof -
  obtain m v where x: "x = JObj m" "map_of m k = Some v" "scalar v"
    using assms(1) by (auto simp: scalarKeyed_def)
  obtain n w where y: "y = JObj n" "map_of n k = Some w" "scalar w" and n: "distinct (map fst n)"
    using assms(2) by (auto simp: scalarKeyed_def)
  have w: "map_of (objectM m (orNil (fst (assertObj l))) n) k = Some w"
    using x(2,3) y(2) by (simp add: map_of_objectM [OF n] merged_scalar)
  then show "itemKey k (merged x l y) = itemKey k x" using assms(3) x y by (simp add: merged_simps)
  have "wf_json (merged x l y)" using assms(1,2) by (intro wf_merged) (simp_all add: scalarKeyed_def)
  then show "scalarKeyed k [merged x l y]" using w y(3) by (simp add: scalarKeyed_def x(1) y(1) merged_simps)
qed

definition mergedMap :: "string \<Rightarrow> json list \<Rightarrow> json list \<Rightarrow> json list \<Rightarrow> jobj" where
  "mergedMap k d l u = objectM (makeListMap k d) (makeListMap k l) (makeListMap k u)"

lemma map_of_mergedMap:
  "map_of (mergedMap k d l u) x =
     (case map_of (makeListMap k u) x of
        Some v \<Rightarrow> Some (merged (jget (makeListMap k d) x) (jget (makeListMap k l) x) v)
      | None \<Rightarrow> if x \<in> itemKey k ` set l then None else map_of (makeListMap k d) x)"
  using map_of_makeListMap_None [of k l x]
  by (auto simp: mergedMap_def map_of_objectM split: option.split)

lemma mergedInPlace_keys:
  assumes "scalarKeyed k d" "scalarKeyed k u" "distinct (map (itemKey k) d)" "distinct (map (itemKey k) u)"
  shows "map (itemKey k) (mergedInPlace k (mergedMap k d l u) (makeListMap k u) d) = map (itemKey k) d"
proof -
  have key: "itemKey k (jget (mergedMap k d l u) (itemKey k x)) = itemKey k x"
    if x: "x \<in> set d" "map_of (makeListMap k u) (itemKey k x) \<noteq> None" for x
  proof -
    obtain v where v: "v \<in> set u" "itemKey k v = itemKey k x"
      using x(2) by (auto simp: map_of_makeListMap_None)
    have "map_of (makeListMap k u) (itemKey k x) = Some v"
      using makeListMap_lookup [OF assms(4) v(1)] by (simp add: v(2))
    moreover have "jget (makeListMap k d) (itemKey k x) = x"
      using makeListMap_lookup [OF assms(3) x(1)] by simp
    ultimately have "jget (mergedMap k d l u) (itemKey k x) = merged x (jget (makeListMap k l) (itemKey k x)) v"
      by (simp add: map_of_mergedMap jget_def)
    moreover have "scalarKeyed k [x]" "scalarKeyed k [v]"
      using assms(1,2) x v by (simp_all add: scalarKeyed_def)
    ultimately show ?thesis using itemKey_merged(1) v(2) by simp
  qed
  have "map (itemKey k) (mergedInPlace k (mergedMap k d l u) (makeListMap k u) xs) = map (itemKey k) xs"
    if "set xs \<subseteq> set d" for xs
    using that key by (induction xs) (auto simp: Let_def)
  then show ?thesis by simp
qed

lemma listM_keys:
  assumes "scalarKeyed k d" "scalarKeyed k u" "distinct (map (itemKey k) d)" "distinct (map (itemKey k) u)"
  shows "listM k d l u =
     map (jget (mergedMap k d l u))
       (filter (\<lambda>x. x \<in> itemKey k ` set u \<or> x \<notin> itemKey k ` set l) (map (itemKey k) d) @
        filter (\<lambda>x. x \<notin> itemKey k ` set d) (map (itemKey k) u))"
proof -
  let ?m = "mergedMap k d l u"
  let ?kept = "filter (\<lambda>x. map_of ?m x \<noteq> None) (map (itemKey k) d)"
  have present: "map_of ?m x \<noteq> None \<longleftrightarrow> x \<in> itemKey k ` set u \<or> (x \<notin> itemKey k ` set l \<and> x \<in> itemKey k ` set d)" for x
    using map_of_makeListMap_None [of k u x] map_of_makeListMap_None [of k d x]
    by (auto simp: map_of_mergedMap split: option.split)
  have "listM k d l u = map (jget ?m) (?kept @ filter (\<lambda>x. x \<notin> set ?kept) (map (itemKey k) u))"
    unfolding listM_def Let_def mergedMap_def [symmetric] takeExisting_keys
      mergedInPlace_keys [OF assms] takeNew_keys [OF assms(4)]
    by simp
  also have "filter (\<lambda>x. x \<notin> set ?kept) (map (itemKey k) u) = filter (\<lambda>x. x \<notin> itemKey k ` set d) (map (itemKey k) u)"
    using present by (intro filter_cong) (auto simp del: not_None_eq)
  also have "?kept = filter (\<lambda>x. x \<in> itemKey k ` set u \<or> x \<notin> itemKey k ` set l) (map (itemKey k) d)"
    using present by (intro filter_cong) (auto simp del: not_None_eq)
  finally show ?thesis .
qed


lemma commonKeys_Some:
  "commonKeys (Some ks) items =
     (if list_all (\<lambda>x. snd (assertObj x)) items
      then Some (Some (filter (\<lambda>k. list_all (\<lambda>x. map_of (itemMap x) k \<noteq> None) items) ks))
      else None)"
proof (induction items arbitrary: ks)
  case (Cons a items)
  then show ?case by (cases a) (simp_all add: conj_commute)
qed simp

lemma commonKeys_None:
  "commonKeys None (JObj m # items) = commonKeys (Some (map fst m)) (JObj m # items)"
  by (simp add: map_of_eq_None_iff)

section \<open>Properties\<close>

text \<open>C18: The three-way merge of a whole object never fails, and it is characterised field by
  field: a field of \<^verbatim>\<open>desired\<close> holds the merge of the observed, last applied and desired values
  of that field; a field that was last applied and is no longer desired is gone; every other
  observed field, which belongs to someone else, is left as it is.\<close>

theorem Merge_fields:
  assumes "distinct (map fst desired)"
  shows "\<exists>r. Merge observed lastApplied desired = Inr r \<and>
     (\<forall>k. case map_of desired k of
            Some v \<Rightarrow> \<exists>x. merge (''['' @ k @ '']'') (jget observed k) (jget lastApplied k) v = Inr x \<and>
                       map_of r k = Some x
          | None \<Rightarrow> map_of r k = (if k \<in> fst ` set lastApplied then None else map_of observed k))"
proof -
  have "map_of (objectM observed lastApplied desired) k =
      (if k \<in> fst ` set lastApplied then None else map_of observed k)" if "map_of desired k = None" for k
    unfolding map_of_objectM [OF assms] that using map_of_eq_None_iff [of lastApplied k] by simp
  then show ?thesis
    using assms by (simp add: Merge_def merge_eq merged_simps map_of_objectM split: option.split)
qed

theorem Merge_fields_witness:
  "\<exists>r. Merge [(''a'', JInt 1), (''b'', JInt 2), (''c'', JInt 3)] [(''b'', JInt 2)] [(''a'', JInt 5), (''d'', JNull)] = Inr r \<and>
     map_of r ''a'' = Some (JInt 5) \<and> map_of r ''b'' = None \<and> map_of r ''c'' = Some (JInt 3)"
proof -
  have "distinct (map fst [(''a'', JInt 5), (''d'', JNull)])" by simp
  from Merge_fields [OF this, of "[(''a'', JInt 1), (''b'', JInt 2), (''c'', JInt 3)]" "[(''b'', JInt 2)]"]
  obtain r where r: "Merge [(''a'', JInt 1), (''b'', JInt 2), (''c'', JInt 3)] [(''b'', JInt 2)] [(''a'', JInt 5), (''d'', JNull)] = Inr r"
    and spec: "case map_of [(''a'', JInt 5), (''d'', JNull)] k of
            Some v \<Rightarrow> \<exists>x. merge (''['' @ k @ '']'') (jget [(''a'', JInt 1), (''b'', JInt 2), (''c'', JInt 3)] k)
                (jget [(''b'', JInt 2)] k) v = Inr x \<and> map_of r k = Some x
          | None \<Rightarrow> map_of r k = (if k \<in> fst ` set [(''b'', JInt 2)] then None
              else map_of [(''a'', JInt 1), (''b'', JInt 2), (''c'', JInt 3)] k)" for k
    by blast
  show ?thesis
    using r spec [of "''a''"] spec [of "''b''"] spec [of "''c''"] by (simp add: merge_eq merged_simps jget_def)
qed

text \<open>C34: Merging well-formed values succeeds on every input, whatever the kinds of the three
  values, and gives a well-formed value: the error branches of \<^verbatim>\<open>merge\<close> are dead, because a failed
  type assertion leaves the nil value that the check then compares with nil.\<close>

theorem merge_never_fails:
  assumes "wf_json destination" "wf_json desired"
  shows "\<exists>r. merge fieldPath destination lastApplied desired = Inr r \<and> wf_json r"
  using wf_merged [OF assms] by (simp add: merge_merged)

theorem merge_never_fails_witness:
  "\<exists>r. merge '''' (JObj [(''a'', JArr [JInt 1])]) (JString ''x'') (JObj [(''a'', JObj [])]) = Inr r \<and> wf_json r"
  by (rule merge_never_fails) simp_all



text \<open>The list-map heuristic as a specification: the merge key is the first known key that
  every item of every list has, provided there is an item and all of them are objects; otherwise
  the empty string.\<close>

theorem detectListMapKey_spec:
  "detectListMapKey ls =
     (let items = concat ls;
          common = filter (\<lambda>k. list_all (\<lambda>x. map_of (itemMap x) k \<noteq> None) items) knownMergeKeys
      in if items \<noteq> [] \<and> list_all (\<lambda>x. snd (assertObj x)) items \<and> common \<noteq> [] then hd common else '''')"
proof (cases "concat ls")
  case Nil
  then show ?thesis by (simp add: detectListMapKey_def del: concat_eq_Nil_conv)
next
  case (Cons a items)
  show ?thesis
  proof (cases a)
    case (JObj m)
    have "filter (\<lambda>k. k \<in> set (filter (\<lambda>k. list_all (\<lambda>x. map_of (itemMap x) k \<noteq> None) (JObj m # items)) (map fst m)))
            knownMergeKeys
        = filter (\<lambda>k. list_all (\<lambda>x. map_of (itemMap x) k \<noteq> None) (JObj m # items)) knownMergeKeys"
      by (rule filter_cong) (auto dest: map_of_SomeD intro: rev_image_eqI)
    then show ?thesis
      unfolding detectListMapKey_def Cons JObj commonKeys_None commonKeys_Some Let_def
      by (simp del: filter_filter not_None_eq list.pred_inject set_filter split: list.split)
  qed (simp_all add: detectListMapKey_def Cons)
qed

text \<open>C20: What merging two list maps yields, in order: the items already in the destination keep
  their positions unless they were last applied and are no longer desired, and the new desired
  items follow in their order; each item is the field-wise merge of the items with that key.\<close>

theorem merge_list_map:
  assumes "detectListMapKey [d, l, u] = k" "k \<noteq> ''''"
    and "scalarKeyed k d" "scalarKeyed k u" "distinct (map (itemKey k) d)" "distinct (map (itemKey k) u)"
  shows "merge p (JArr d) (JArr l) (JArr u) = Inr (JArr (map
       (\<lambda>x. case map_of (makeListMap k u) x of
              Some v \<Rightarrow> merged (jget (makeListMap k d) x) (jget (makeListMap k l) x) v
            | None \<Rightarrow> jget (makeListMap k d) x)
       (filter (\<lambda>x. x \<in> itemKey k ` set u \<or> x \<notin> itemKey k ` set l) (map (itemKey k) d) @
        filter (\<lambda>x. x \<notin> itemKey k ` set d) (map (itemKey k) u))))"
proof -
  have "merge p (JArr d) (JArr l) (JArr u) = Inr (JArr (listM k d l u))"
    using assms(1,2) by (simp add: merge_merged merged_simps arrayM_def)
  moreover have "listM k d l u = map
       (\<lambda>x. case map_of (makeListMap k u) x of
              Some v \<Rightarrow> merged (jget (makeListMap k d) x) (jget (makeListMap k l) x) v
            | None \<Rightarrow> jget (makeListMap k d) x)
       (filter (\<lambda>x. x \<in> itemKey k ` set u \<or> x \<notin> itemKey k ` set l) (map (itemKey k) d) @
        filter (\<lambda>x. x \<notin> itemKey k ` set d) (map (itemKey k) u))"
    unfolding listM_keys [OF assms(3-6)]
  proof (rule map_cong)
    fix x
    assume "x \<in> set (filter (\<lambda>x. x \<in> itemKey k ` set u \<or> x \<notin> itemKey k ` set l) (map (itemKey k) d) @
        filter (\<lambda>x. x \<notin> itemKey k ` set d) (map (itemKey k) u))"
    then have "map_of (makeListMap k u) x = None \<Longrightarrow> x \<notin> itemKey k ` set l"
      unfolding map_of_makeListMap_None by auto
    then show "jget (mergedMap k d l u) x = (case map_of (makeListMap k u) x of
              Some v \<Rightarrow> merged (jget (makeListMap k d) x) (jget (makeListMap k l) x) v
            | None \<Rightarrow> jget (makeListMap k d) x)"
      by (simp add: jget_def map_of_mergedMap split: option.split)
  qed simp
  ultimately show ?thesis by simp
qed

theorem merge_list_map_witness:
  "merge ''[ports]''
     (JArr [JObj [(''name'', JString ''a''), (''x'', JInt 1)], JObj [(''name'', JString ''b'')]])
     (JArr [JObj [(''name'', JString ''b'')]])
     (JArr [JObj [(''name'', JString ''c'')], JObj [(''name'', JString ''a''), (''y'', JInt 2)]])
   = Inr (JArr [JObj [(''name'', JString ''a''), (''x'', JInt 1), (''y'', JInt 2)], JObj [(''name'', JString ''c'')]])"
  by (subst merge_list_map [where k = "''name''"])
    (simp_all add: detectListMapKey_spec knownMergeKeys_def scalarKeyed_def stringMergeKey_def jget_def
      makeListMap_def merged_simps objectM_def removeStale_def)

text \<open>Reading the last-applied annotation back gives what was recorded, when the JSON library
  decodes what it encodes to a non-empty text and the annotation accessors of the object agree.\<close>

theorem last_applied_roundtrip:
  assumes "\<And>m j. Marshal K (JObj m) = Inr j \<Longrightarrow> j \<noteq> '''' \<and> Unmarshal K j = Inr m"
    and "\<And>obj ann. GetAnnotations K (SetAnnotations K obj ann) = Some ann"
    and "SetLastApplied K obj lastApplied = Inr obj'"
  shows "GetLastApplied K obj' = Inr lastApplied"
  using assms by (auto simp: SetLastApplied_def GetLastApplied_def split: sum.splits)

theorem last_applied_roundtrip_witness:
  "\<exists>obj'. SetLastApplied refK [(''kind'', JString ''A'')] [] = Inr obj' \<and> GetLastApplied refK obj' = Inr []"
proof -
  have mar: "Marshal refK (JObj m) = Inr j \<Longrightarrow> j \<noteq> '''' \<and> Unmarshal refK j = Inr m" for m j
    by (simp add: refK_simps split: if_splits)
  obtain obj' where "SetLastApplied refK [(''kind'', JString ''A'')] [] = Inr obj'"
    by (simp add: SetLastApplied_def refK_simps)
  with last_applied_roundtrip [OF mar refK_annotations this] show ?thesis by blast
qed

end
