(* ===== verification/Discovery.thy ===== *)
theory Discovery
  imports Reference
begin

text \<open>
  The discovery cache, \<^verbatim>\<open>pkg/dynamic/discovery/discovery.go\<close>.  The three maps of a
  group-version entry hold pointers to the same \<^verbatim>\<open>APIResource\<close> structs; the entry here keeps the
  structs in a list, in the order the server lists them, and the maps hold positions in it.
  The read/write lock makes every operation atomic, so each is one step on the map.
\<close>

section \<open>State\<close>

record APIResource =
  arName :: string
  arKind :: string
  arGroup :: string
  arVersion :: string
  arNamespaced :: bool
  arAPIVersion :: string
  arSubresourceMap :: "string list"

record groupVersionEntry =
  gveHeap :: "APIResource list"
  gveResources :: "(string \<times> nat) list"
  gveKinds :: "(string \<times> nat) list"
  gveSubresources :: "(string \<times> nat) list"

text \<open>\<open>None\<close> is the nil map before the first refresh.\<close>

record ResourceMap =
  rmGroupVersions :: "(string \<times> groupVersionEntry) list option"

section \<open>Operations\<close>

text \<open>A group-version that does not parse makes \<^verbatim>\<open>GroupVersion\<close> panic.\<close>

definition APIResource_GroupVersion :: "'w k8s \<Rightarrow> APIResource \<Rightarrow> err + string \<times> string" where
  "APIResource_GroupVersion K r =
     (case ParseGroupVersion K (arAPIVersion r) of Inl _ \<Rightarrow> Inl GoPanic | Inr gv \<Rightarrow> Inr gv)"

definition APIResource_GroupVersionKind :: "'w k8s \<Rightarrow> APIResource \<Rightarrow> err + gvk" where
  "APIResource_GroupVersionKind K r =
     map_sum id (\<lambda>gv. \<lparr>gvkGroup = fst gv, gvkVersion = snd gv, gvkKind = arKind r\<rparr>) (APIResource_GroupVersion K r)"

definition APIResource_GroupVersionResource :: "'w k8s \<Rightarrow> APIResource \<Rightarrow> err + gvr" where
  "APIResource_GroupVersionResource K r =
     map_sum id (\<lambda>gv. \<lparr>gvrGroup = fst gv, gvrVersion = snd gv, gvrResource = arName r\<rparr>) (APIResource_GroupVersion K r)"

definition APIResource_GroupResource :: "APIResource \<Rightarrow> string \<times> string" where
  "APIResource_GroupResource r = (arGroup r, arName r)"

definition HasSubresource :: "APIResource \<Rightarrow> string \<Rightarrow> bool" where
  "HasSubresource r subresourceKey \<longleftrightarrow> subresourceKey \<in> set (arSubresourceMap r)"

definition ResourceMap_Get :: "ResourceMap \<Rightarrow> string \<Rightarrow> string \<Rightarrow> APIResource option" where
  "ResourceMap_Get rm apiVersion resource =
     (case map_of (case rmGroupVersions rm of None \<Rightarrow> [] | Some m \<Rightarrow> m) apiVersion of
        None \<Rightarrow> None
      | Some gv \<Rightarrow> map_option ((!) (gveHeap gv)) (map_of (gveResources gv) resource))"

definition ResourceMap_GetKind :: "ResourceMap \<Rightarrow> string \<Rightarrow> string \<Rightarrow> APIResource option" where
  "ResourceMap_GetKind rm apiVersion kind =
     (case map_of (case rmGroupVersions rm of None \<Rightarrow> [] | Some m \<Rightarrow> m) apiVersion of
        None \<Rightarrow> None
      | Some gv \<Rightarrow> map_option ((!) (gveHeap gv)) (map_of (gveKinds gv) kind))"

text \<open>The body of the loop over \<^verbatim>\<open>group.APIResources\<close>.\<close>

definition addResource :: "string \<Rightarrow> string \<times> string \<Rightarrow> groupVersionEntry \<Rightarrow> metaAPIResource \<Rightarrow> groupVersionEntry" where
  "addResource groupVersion gv gve r =
     (let apiResource =
            \<lparr>arName = marName r, arKind = marKind r,
             arGroup = (if marGroup r = '''' then fst gv else marGroup r),
             arVersion = (if marVersion r = '''' then snd gv else marVersion r),
             arNamespaced = marNamespaced r, arAPIVersion = groupVersion, arSubresourceMap = []\<rparr>;
          i = length (gveHeap gve);
          gve = gve\<lparr>gveHeap := gveHeap gve @ [apiResource],
                    gveResources := AList.update (marName r) i (gveResources gve)\<rparr>
      in if CHR ''/'' \<in> set (marName r)
         then gve\<lparr>gveSubresources := AList.update (marName r) i (gveSubresources gve)\<rparr>
         else gve\<lparr>gveKinds := AList.update (marKind r) i (gveKinds gve)\<rparr>)"

text \<open>The body of the loop over \<^verbatim>\<open>gve.subresources\<close>.\<close>

definition addSubresource :: "groupVersionEntry \<Rightarrow> string \<Rightarrow> groupVersionEntry" where
  "addSubresource gve apiSubresourceName =
     (let arr = split (CHR ''/'') apiSubresourceName;
          apiResourceName = arr ! 0; subresourceKey = arr ! 1
      in case map_of (gveResources gve) apiResourceName of
           None \<Rightarrow> gve
         | Some i \<Rightarrow>
             gve\<lparr>gveHeap := (gveHeap gve)[i := (gveHeap gve ! i)
                   \<lparr>arSubresourceMap := List.insert subresourceKey (arSubresourceMap (gveHeap gve ! i))\<rparr>]\<rparr>)"

definition emptyEntry :: groupVersionEntry where
  "emptyEntry = \<lparr>gveHeap = [], gveResources = [], gveKinds = [], gveSubresources = []\<rparr>"

definition makeEntry :: "string \<Rightarrow> string \<times> string \<Rightarrow> metaAPIResource list \<Rightarrow> groupVersionEntry" where
  "makeEntry groupVersion gv rs =
     (let gve = foldl (addResource groupVersion gv) emptyEntry rs
      in foldl addSubresource gve (map fst (gveSubresources gve)))"

fun makeGroupVersions :: "'w k8s \<Rightarrow> (string \<times> groupVersionEntry) list \<Rightarrow> apiResourceList list
    \<Rightarrow> err + (string \<times> groupVersionEntry) list" where
  "makeGroupVersions K acc [] = Inr acc"
| "makeGroupVersions K acc (grp # groups) =
     (case ParseGroupVersion K (arlGroupVersion grp) of
        Inl _ \<Rightarrow> Inl GoPanic
      | Inr gv \<Rightarrow>
          makeGroupVersions K
            (AList.update (arlGroupVersion grp) (makeEntry (arlGroupVersion grp) gv (arlAPIResources grp)) acc)
            groups)"

definition refresh :: "'w k8s \<Rightarrow> ResourceMap \<Rightarrow> ('w, err + ResourceMap) state" where
  "refresh K rm =
     do { (groups, e) \<leftarrow> ServerGroupsAndResources K;
          State_Monad.return
            (if e \<noteq> None \<and> groups = [] then Inr rm
             else case makeGroupVersions K [] groups of
                    Inl p \<Rightarrow> Inl p
                  | Inr groupVersions \<Rightarrow> Inr (rm\<lparr>rmGroupVersions := Some groupVersions\<rparr>)) }"

definition HasSynced :: "ResourceMap \<Rightarrow> bool" where
  "HasSynced rm \<longleftrightarrow> rmGroupVersions rm \<noteq> None"

definition NewResourceMap :: ResourceMap where
  "NewResourceMap = \<lparr>rmGroupVersions = None\<rparr>"

section \<open>Entries\<close>

text \<open>The resource record made for one listed resource.\<close>

definition asAPIResource :: "string \<Rightarrow> string \<times> string \<Rightarrow> metaAPIResource \<Rightarrow> APIResource" where
  "asAPIResource groupVersion gv r =
     \<lparr>arName = marName r, arKind = marKind r,
      arGroup = (if marGroup r = '''' then fst gv else marGroup r),
      arVersion = (if marVersion r = '''' then snd gv else marVersion r),
      arNamespaced = marNamespaced r, arAPIVersion = groupVersion, arSubresourceMap = []\<rparr>"

abbreviation isSub :: "metaAPIResource \<Rightarrow> bool" where
  "isSub r \<equiv> CHR ''/'' \<in> set (marName r)"

text \<open>The position of the last element with a property.\<close>

definition lastIdx :: "('a \<Rightarrow> bool) \<Rightarrow> 'a list \<Rightarrow> nat option" where
  "lastIdx P xs = (if list_ex P xs then Some (last (filter (\<lambda>i. P (xs ! i)) [0..<length xs])) else None)"

lemma lastIdx_snoc: "lastIdx P (xs @ [x]) = (if P x then Some (length xs) else lastIdx P xs)"
proof -
  have "filter (\<lambda>i. P ((xs @ [x]) ! i)) [0..<length xs] = filter (\<lambda>i. P (xs ! i)) [0..<length xs]"
    by (rule filter_cong) (simp_all add: nth_append)
  then show ?thesis by (simp add: lastIdx_def)
qed

lemma lastIdx_Nil [simp]: "lastIdx P [] = None"
  by (simp add: lastIdx_def)

lemma lastIdx_Some:
  assumes "lastIdx P xs = Some i"
  shows "i < length xs \<and> P (xs ! i) \<and> (\<forall>j. i < j \<and> j < length xs \<longrightarrow> \<not> P (xs ! j))"
  using assms
proof (induction xs rule: rev_induct)
  case (snoc x xs)
  then show ?case
    by (auto simp: lastIdx_snoc nth_append less_Suc_eq split: if_splits)
qed simp

lemma lastIdx_None: "lastIdx P xs = None \<longleftrightarrow> \<not> list_ex P xs"
  by (simp add: lastIdx_def)

lemma addResource_fold:
  "let gve = foldl (addResource av gv) emptyEntry rs in
     gveHeap gve = map (asAPIResource av gv) rs \<and>
     map_of (gveResources gve) = (\<lambda>n. lastIdx (\<lambda>r. marName r = n) rs) \<and>
     map_of (gveKinds gve) = (\<lambda>k. lastIdx (\<lambda>r. marKind r = k \<and> \<not> isSub r) rs) \<and>
     fst ` set (gveSubresources gve) = marName ` {r \<in> set rs. isSub r}"
proof (induction rs rule: rev_induct)
  case (snoc x rs)
  then show ?case
    by (auto simp: Let_def addResource_def asAPIResource_def lastIdx_snoc update_conv' fun_eq_iff
        dom_map_of_conv_image_fst [symmetric])
qed (simp add: emptyEntry_def)

lemma addSubresource_fixed:
  "gveResources (foldl addSubresource gve ns) = gveResources gve \<and>
   gveKinds (foldl addSubresource gve ns) = gveKinds gve \<and>
   length (gveHeap (foldl addSubresource gve ns)) = length (gveHeap gve)"
  by (induction ns rule: rev_induct) (auto simp: addSubresource_def Let_def split: option.split)

lemma addSubresource_heap:
  assumes "i < length (gveHeap gve)" "\<And>n j. map_of (gveResources gve) n = Some j \<Longrightarrow> j < length (gveHeap gve)"
  shows "\<exists>ss. gveHeap (foldl addSubresource gve ns) ! i = (gveHeap gve ! i)\<lparr>arSubresourceMap := ss\<rparr> \<and>
     set ss = set (arSubresourceMap (gveHeap gve ! i)) \<union>
       {split (CHR ''/'') n ! 1 | n. n \<in> set ns \<and> map_of (gveResources gve) (split (CHR ''/'') n ! 0) = Some i}"
proof (induction ns rule: rev_induct)
  case Nil
  then show ?case by (intro exI [of _ "arSubresourceMap (gveHeap gve ! i)"]) simp
next
  case (snoc n ns)
  let ?g = "foldl addSubresource gve ns"
  from snoc obtain ss where ss: "gveHeap ?g ! i = (gveHeap gve ! i)\<lparr>arSubresourceMap := ss\<rparr>"
    "set ss = set (arSubresourceMap (gveHeap gve ! i)) \<union>
       {split (CHR ''/'') n ! 1 | n. n \<in> set ns \<and> map_of (gveResources gve) (split (CHR ''/'') n ! 0) = Some i}"
    by blast
  have fx: "gveResources ?g = gveResources gve" "length (gveHeap ?g) = length (gveHeap gve)"
    using addSubresource_fixed by blast+
  show ?case
  proof (cases "map_of (gveResources gve) (split (CHR ''/'') n ! 0) = Some i")
    case True
    then show ?thesis
      using ss fx assms(1)
      by (intro exI [of _ "List.insert (split (CHR ''/'') n ! 1) ss"]) (auto simp: addSubresource_def [of ?g n] Let_def)
  next
    case False
    then show ?thesis
      using ss fx by (intro exI [of _ ss]) (auto simp: addSubresource_def [of ?g n] Let_def split: option.split)
  qed
qed

text \<open>The subresources listed for the resource at position \<open>i\<close>.\<close>

definition subKeys :: "metaAPIResource list \<Rightarrow> nat \<Rightarrow> string set" where
  "subKeys rs i = {split (CHR ''/'') (marName r) ! 1 | r. r \<in> set rs \<and> isSub r \<and>
     lastIdx (\<lambda>q. marName q = split (CHR ''/'') (marName r) ! 0) rs = Some i}"

lemma makeEntry_maps:
  "map_of (gveResources (makeEntry av gv rs)) n = lastIdx (\<lambda>r. marName r = n) rs"
  "map_of (gveKinds (makeEntry av gv rs)) k = lastIdx (\<lambda>r. marKind r = k \<and> \<not> isSub r) rs"
  using addResource_fold [of av gv rs] addSubresource_fixed
  by (simp_all add: makeEntry_def Let_def)

lemma makeEntry_heap:
  assumes "i < length rs"
  shows "\<exists>ss. gveHeap (makeEntry av gv rs) ! i = (asAPIResource av gv (rs ! i))\<lparr>arSubresourceMap := ss\<rparr> \<and>
     set ss = subKeys rs i"
proof -
  let ?g = "foldl (addResource av gv) emptyEntry rs"
  have g: "gveHeap ?g = map (asAPIResource av gv) rs"
      "map_of (gveResources ?g) = (\<lambda>n. lastIdx (\<lambda>r. marName r = n) rs)"
      "fst ` set (gveSubresources ?g) = marName ` {r \<in> set rs. isSub r}"
    using addResource_fold [of av gv rs] by (simp_all add: Let_def)
  have bound: "j < length (gveHeap ?g)" if "map_of (gveResources ?g) n = Some j" for n j
    using lastIdx_Some that by (auto simp: g)
  have len: "i < length (gveHeap ?g)" using assms by (simp add: g(1))
  have "\<exists>ss. gveHeap (makeEntry av gv rs) ! i = (gveHeap ?g ! i)\<lparr>arSubresourceMap := ss\<rparr> \<and>
    set ss = set (arSubresourceMap (gveHeap ?g ! i)) \<union>
       {split (CHR ''/'') n ! 1 | n. n \<in> set (map fst (gveSubresources ?g)) \<and>
          map_of (gveResources ?g) (split (CHR ''/'') n ! 0) = Some i}"
    unfolding makeEntry_def Let_def by (rule addSubresource_heap [OF len]) (rule bound)
  then obtain ss where ss: "gveHeap (makeEntry av gv rs) ! i = (gveHeap ?g ! i)\<lparr>arSubresourceMap := ss\<rparr>"
    "set ss = set (arSubresourceMap (gveHeap ?g ! i)) \<union>
       {split (CHR ''/'') n ! 1 | n. n \<in> set (map fst (gveSubresources ?g)) \<and>
          map_of (gveResources ?g) (split (CHR ''/'') n ! 0) = Some i}"
    by blast
  have "set ss = subKeys rs i"
    unfolding ss(2) subKeys_def g(2) set_map g(3) using assms
    by (auto simp: g(1) asAPIResource_def)
  with ss(1) assms show ?thesis by (auto simp: g(1))
qed

lemma makeGroupVersions_parse:
  "makeGroupVersions K acc groups = Inr gvs \<Longrightarrow> g \<in> set groups \<Longrightarrow>
     \<exists>gv. ParseGroupVersion K (arlGroupVersion g) = Inr gv"
  by (induction K acc groups rule: makeGroupVersions.induct) (auto split: sum.splits)

lemma makeGroupVersions_lookup:
  assumes "makeGroupVersions K acc groups = Inr gvs" "distinct (map arlGroupVersion groups)"
  shows "map_of gvs av =
     (case find (\<lambda>g. arlGroupVersion g = av) groups of
        None \<Rightarrow> map_of acc av
      | Some g \<Rightarrow>
          (case ParseGroupVersion K av of
             Inl _ \<Rightarrow> None
           | Inr gv \<Rightarrow> Some (makeEntry av gv (arlAPIResources g))))"
  using assms
proof (induction groups arbitrary: acc)
  case (Cons g groups)
  then obtain gv where gv: "ParseGroupVersion K (arlGroupVersion g) = Inr gv" by (auto split: sum.splits)
  have none: "find (\<lambda>h. arlGroupVersion h = arlGroupVersion g) groups = None"
    using Cons.prems(2) by (auto simp: find_None_iff dest: rev_image_eqI [OF _ sym])
  have "map_of gvs av =
     (case find (\<lambda>h. arlGroupVersion h = av) groups of
        None \<Rightarrow> map_of (AList.update (arlGroupVersion g)
          (makeEntry (arlGroupVersion g) gv (arlAPIResources g)) acc) av
      | Some h \<Rightarrow> (case ParseGroupVersion K av of
             Inl _ \<Rightarrow> None | Inr gv \<Rightarrow> Some (makeEntry av gv (arlAPIResources h))))"
    using Cons.prems gv by (intro Cons.IH) simp_all
  then show ?case
    using gv none by (cases "arlGroupVersion g = av") (auto simp: update_conv' split: option.splits)
qed simp

section \<open>Properties\<close>

text \<open>The resource at position \<open>i\<close> of the list of a group-version, with the subresources the
  list has for it.\<close>

definition discovered :: "'w k8s \<Rightarrow> apiResourceList \<Rightarrow> nat \<Rightarrow> APIResource \<Rightarrow> bool" where
  "discovered K g i r \<longleftrightarrow>
     (\<exists>gv. ParseGroupVersion K (arlGroupVersion g) = Inr gv \<and>
        r = (asAPIResource (arlGroupVersion g) gv (arlAPIResources g ! i))\<lparr>arSubresourceMap := arSubresourceMap r\<rparr>) \<and>
     set (arSubresourceMap r) = subKeys (arlAPIResources g) i"

lemma refresh_entry:
  assumes "run_state (refresh K rm) w = (Inr rm', w')"
    and "run_state (ServerGroupsAndResources K) w = ((groups, None), w')"
    and "distinct (map arlGroupVersion groups)" "g \<in> set groups"
  shows "\<exists>gvs gv. rmGroupVersions rm' = Some gvs \<and> ParseGroupVersion K (arlGroupVersion g) = Inr gv \<and>
     map_of gvs (arlGroupVersion g) = Some (makeEntry (arlGroupVersion g) gv (arlAPIResources g))"
proof -
  obtain gvs where gvs: "makeGroupVersions K [] groups = Inr gvs" "rmGroupVersions rm' = Some gvs"
    using assms(1,2) by (auto simp: refresh_def split: sum.splits)
  have "find (\<lambda>h. arlGroupVersion h = arlGroupVersion g) groups = Some g"
    using assms(3,4) by (induction groups) (auto simp: image_iff)
  moreover have "\<exists>gv. ParseGroupVersion K (arlGroupVersion g) = Inr gv"
    by (rule makeGroupVersions_parse [OF gvs(1) assms(4)])
  ultimately show ?thesis
    using makeGroupVersions_lookup [OF gvs(1) assms(3), of "arlGroupVersion g"] gvs(2) by auto
qed


text \<open>C33: After a successful refresh, looking a resource up by name gives the last resource the
  server lists under that name in that group-version, with group and version defaulted from the
  list, and with exactly the subresources listed as \<^verbatim>\<open>name/sub\<close>; a name not listed gives nil.\<close>

theorem refresh_Get:
  assumes "run_state (refresh K rm) w = (Inr rm', w')"
    and "run_state (ServerGroupsAndResources K) w = ((groups, None), w')"
    and "distinct (map arlGroupVersion groups)" "g \<in> set groups"
  shows "HasSynced rm' \<and>
     (case lastIdx (\<lambda>r. marName r = name) (arlAPIResources g) of
        None \<Rightarrow> ResourceMap_Get rm' (arlGroupVersion g) name = None
      | Some i \<Rightarrow> \<exists>r. ResourceMap_Get rm' (arlGroupVersion g) name = Some r \<and> discovered K g i r)"
proof -
  obtain gvs gv where gv: "rmGroupVersions rm' = Some gvs" "ParseGroupVersion K (arlGroupVersion g) = Inr gv"
      "map_of gvs (arlGroupVersion g) = Some (makeEntry (arlGroupVersion g) gv (arlAPIResources g))"
    using refresh_entry [OF assms] by blast
  show ?thesis
  proof (cases "lastIdx (\<lambda>r. marName r = name) (arlAPIResources g)")
    case None
    then show ?thesis using gv by (simp add: ResourceMap_Get_def makeEntry_maps HasSynced_def)
  next
    case (Some i)
    then show ?thesis
      using gv lastIdx_Some [OF Some] makeEntry_heap [of i "arlAPIResources g" "arlGroupVersion g" gv]
      by (auto simp: ResourceMap_Get_def makeEntry_maps discovered_def HasSynced_def)
  qed
qed

definition podGroup :: apiResourceList where
  "podGroup = \<lparr>arlGroupVersion = ''v1'', arlAPIResources =
     [\<lparr>marName = ''pods'', marKind = ''Pod'', marGroup = '''', marVersion = '''', marNamespaced = True\<rparr>,
      \<lparr>marName = ''pods/status'', marKind = ''Pod'', marGroup = '''', marVersion = '''', marNamespaced = True\<rparr>]\<rparr>"

definition podWorld :: world where
  "podWorld = \<lparr>wObjects = [], wLog = [], wRevisions = [], wGroups = [podGroup]\<rparr>"

lemma podWorld_refresh:
  "\<exists>rm'. run_state (refresh refK NewResourceMap) podWorld = (Inr rm', podWorld)"
  by (simp add: refresh_def refK_simps podWorld_def)

theorem refresh_Get_witness:
  "\<exists>rm' r. run_state (refresh refK NewResourceMap) podWorld = (Inr rm', podWorld) \<and>
     ResourceMap_Get rm' ''v1'' ''pods'' = Some r \<and> discovered refK podGroup 0 r"
proof -
  obtain rm' where rm: "run_state (refresh refK NewResourceMap) podWorld = (Inr rm', podWorld)"
    using podWorld_refresh by blast
  have "run_state (ServerGroupsAndResources refK) podWorld = (([podGroup], None), podWorld)"
    by (simp add: refK_simps podWorld_def)
  from refresh_Get [OF rm this, of podGroup "''pods''"] show ?thesis
    using rm by (auto simp: podGroup_def lastIdx_def)
qed

text \<open>A lookup by kind never gives a subresource and agrees with the lookup by name: it
  returns the last listed main resource of that kind.\<close>

theorem refresh_GetKind:
  assumes "run_state (refresh K rm) w = (Inr rm', w')"
    and "run_state (ServerGroupsAndResources K) w = ((groups, None), w')"
    and "distinct (map arlGroupVersion groups)" "g \<in> set groups"
    and "distinct (map marName (arlAPIResources g))"
    and "ResourceMap_GetKind rm' (arlGroupVersion g) kind = Some r"
  shows "arKind r = kind \<and> CHR ''/'' \<notin> set (arName r) \<and>
     ResourceMap_Get rm' (arlGroupVersion g) (arName r) = Some r"
proof -
  let ?rs = "arlAPIResources g"
  obtain gvs gv where gv: "rmGroupVersions rm' = Some gvs" "ParseGroupVersion K (arlGroupVersion g) = Inr gv"
      "map_of gvs (arlGroupVersion g) = Some (makeEntry (arlGroupVersion g) gv ?rs)"
    using refresh_entry [OF assms(1-4)] by blast
  obtain i where i: "lastIdx (\<lambda>r. marKind r = kind \<and> \<not> isSub r) ?rs = Some i"
      and r: "r = gveHeap (makeEntry (arlGroupVersion g) gv ?rs) ! i"
    using assms(6) gv by (auto simp: ResourceMap_GetKind_def makeEntry_maps)
  obtain ss where ss: "r = (asAPIResource (arlGroupVersion g) gv (?rs ! i))\<lparr>arSubresourceMap := ss\<rparr>"
    using makeEntry_heap [of i ?rs] lastIdx_Some [OF i] r by blast
  obtain j where j: "lastIdx (\<lambda>q. marName q = marName (?rs ! i)) ?rs = Some j"
    using lastIdx_Some [OF i] lastIdx_None [of "\<lambda>q. marName q = marName (?rs ! i)" ?rs]
    by (auto simp: list_ex_iff)
  have "j = i"
    using lastIdx_Some [OF j] lastIdx_Some [OF i] assms(5) by (auto simp: distinct_conv_nth)
  with j show ?thesis
    using gv ss r lastIdx_Some [OF i] by (simp add: ResourceMap_Get_def makeEntry_maps asAPIResource_def)
qed

theorem refresh_GetKind_witness:
  "\<exists>rm' r. run_state (refresh refK NewResourceMap) podWorld = (Inr rm', podWorld) \<and>
     ResourceMap_GetKind rm' ''v1'' ''Pod'' = Some r \<and> arKind r = ''Pod'' \<and>
     ResourceMap_Get rm' ''v1'' (arName r) = Some r"
proof -
  obtain rm' where rm: "run_state (refresh refK NewResourceMap) podWorld = (Inr rm', podWorld)"
    using podWorld_refresh by blast
  have srv: "run_state (ServerGroupsAndResources refK) podWorld = (([podGroup], None), podWorld)"
    by (simp add: refK_simps podWorld_def)
  obtain r where r: "ResourceMap_GetKind rm' ''v1'' ''Pod'' = Some r"
    using rm by (auto simp: refresh_def refK_simps podWorld_def ResourceMap_GetKind_def podGroup_def
        makeEntry_maps lastIdx_def)
  with refresh_GetKind [OF rm srv, of podGroup "''Pod''" r] rm show ?thesis
    by (auto simp: podGroup_def)
qed

section \<open>The refresh loop\<close>

text \<open>The goroutine of \<^verbatim>\<open>Start\<close>.  An element of the list is what the rest of the world does until the
  next tick; the list ends where the select finds the context done.  A panic of \<open>refresh\<close> ends the loop.\<close>

fun ResourceMap_Start :: "'w k8s \<Rightarrow> ('w \<Rightarrow> 'w) list \<Rightarrow> ResourceMap \<Rightarrow> ('w, err + ResourceMap) state" where
  "ResourceMap_Start K [] rm = refresh K rm"
| "ResourceMap_Start K (wait # ticks) rm =
     do { r \<leftarrow> refresh K rm;
          case r of
            Inl p \<Rightarrow> State_Monad.return (Inl p)
          | Inr rm' \<Rightarrow> do { State (\<lambda>w. ((), wait w)); ResourceMap_Start K ticks rm' } }"

text \<open>What the fetches of the loop answer, tick by tick.\<close>

fun fetches :: "'w k8s \<Rightarrow> ('w \<Rightarrow> 'w) list \<Rightarrow> 'w \<Rightarrow> (apiResourceList list \<times> err option) list" where
  "fetches K [] w = [fst (run_state (ServerGroupsAndResources K) w)]"
| "fetches K (wait # ticks) w =
     (case run_state (ServerGroupsAndResources K) w of (a, w') \<Rightarrow> a # fetches K ticks (wait w'))"

abbreviation fetchFailed :: "apiResourceList list \<times> err option \<Rightarrow> bool" where
  "fetchFailed a \<equiv> snd a \<noteq> None \<and> fst a = []"

lemma run_refresh:
  "run_state (refresh K rm) w =
     (case run_state (ServerGroupsAndResources K) w of (a, w') \<Rightarrow>
        (if fetchFailed a then Inr rm
         else case makeGroupVersions K [] (fst a) of
                Inl p \<Rightarrow> Inl p
              | Inr m \<Rightarrow> Inr \<lparr>rmGroupVersions = Some m\<rparr>, w'))"
  by (simp add: refresh_def split: prod.split sum.split)

text \<open>The map after any number of ticks is the one before the loop when every fetch failed outright, and is
  built from the last fetch that did not fail otherwise: an outage of the API server never empties it.\<close>

theorem ResourceMap_Start_last_good:
  assumes "run_state (ResourceMap_Start K ticks rm) w = (Inr rm', w')"
  defines "good \<equiv> filter (\<lambda>a. \<not> fetchFailed a) (fetches K ticks w)"
  shows "rm' = rm \<and> good = [] \<or>
         good \<noteq> [] \<and> (\<exists>m. makeGroupVersions K [] (fst (last good)) = Inr m \<and> rm' = \<lparr>rmGroupVersions = Some m\<rparr>)"
  using assms(1) unfolding good_def
proof (induction ticks arbitrary: rm w)
  case Nil
  then show ?case by (auto simp: run_refresh split: prod.splits if_splits sum.splits)
next
  case (Cons wait ticks)
  obtain a w1 where a: "run_state (ServerGroupsAndResources K) w = (a, w1)" by fastforce
  from Cons.prems a obtain rm1 where
    step: "run_state (refresh K rm) w = (Inr rm1, w1)" and
    rest: "run_state (ResourceMap_Start K ticks rm1) (wait w1) = (Inr rm', w')"
    by (auto simp: run_refresh split: prod.splits if_splits sum.splits)
  from Cons.IH [OF rest] step a show ?case
    by (auto simp: run_refresh split: if_splits sum.splits)
qed

corollary ResourceMap_Start_synced:
  assumes "run_state (ResourceMap_Start K ticks rm) w = (Inr rm', w')"
  shows "HasSynced rm' \<longleftrightarrow> HasSynced rm \<or> (\<exists>a \<in> set (fetches K ticks w). \<not> fetchFailed a)"
  using ResourceMap_Start_last_good [OF assms] by (auto simp: HasSynced_def filter_empty_conv)

end
