(* ===== verification/Clientset.thy ===== *)
theory Clientset
  imports Discovery
begin

text \<open>
  The dynamic client, \<^verbatim>\<open>pkg/dynamic/clientset/clientset.go\<close>, and the read-modify-write loop of
  the revision client, \<^verbatim>\<open>controllerrevision_expansion.go\<close>.  The function an atomic update is
  given mutates the live object and says whether to write it: it returns the new object and
  that flag.  The three loops satisfy one contract, the locale \<open>read_modify_write\<close>.
\<close>

section \<open>Clients\<close>

record ResourceClient =
  rcInterface :: resourceInterface
  rcAPIResource :: APIResource
  rcRootClient :: resourceInterface

record Clientset =
  csResources :: ResourceMap

definition Clientset_HasSynced :: "Clientset \<Rightarrow> bool" where
  "Clientset_HasSynced cs \<longleftrightarrow> HasSynced (csResources cs)"

definition Clientset_resource :: "'w k8s \<Rightarrow> APIResource \<Rightarrow> err + ResourceClient" where
  "Clientset_resource K apiResource =
     (case APIResource_GroupVersionResource K apiResource of
        Inl p \<Rightarrow> Inl p
      | Inr r \<Rightarrow> (let client = \<lparr>riResource = r, riNamespace = ''''\<rparr> in
          Inr \<lparr>rcInterface = client, rcAPIResource = apiResource, rcRootClient = client\<rparr>))"

definition Clientset_Resource :: "'w k8s \<Rightarrow> Clientset \<Rightarrow> string \<Rightarrow> string \<Rightarrow> err + ResourceClient" where
  "Clientset_Resource K cs apiVersion resource =
     (case ResourceMap_Get (csResources cs) apiVersion resource of
        None \<Rightarrow> Inl (Errorf (''discovery: can't find resource '' @ resource @ '' in apiVersion '' @ apiVersion) None)
      | Some apiResource \<Rightarrow> Clientset_resource K apiResource)"

definition Clientset_Kind :: "'w k8s \<Rightarrow> Clientset \<Rightarrow> string \<Rightarrow> string \<Rightarrow> err + ResourceClient" where
  "Clientset_Kind K cs apiVersion kind =
     (case ResourceMap_GetKind (csResources cs) apiVersion kind of
        None \<Rightarrow> Inl (Errorf (''discovery: can't find kind '' @ kind @ '' in apiVersion '' @ apiVersion) None)
      | Some apiResource \<Rightarrow> Clientset_resource K apiResource)"

definition ResourceClient_Namespace :: "ResourceClient \<Rightarrow> string \<Rightarrow> ResourceClient" where
  "ResourceClient_Namespace rc namespace =
     (if \<not> arNamespaced (rcAPIResource rc) then rc
      else rc\<lparr>rcInterface := (if namespace \<noteq> '''' then (rcRootClient rc)\<lparr>riNamespace := namespace\<rparr>
                               else rcRootClient rc)\<rparr>)"

section \<open>Atomic updates\<close>

type_synonym updateFn = "unstructured \<Rightarrow> unstructured \<times> bool"

definition AtomicUpdate :: "'w k8s \<Rightarrow> ResourceClient \<Rightarrow> unstructured \<Rightarrow> updateFn \<Rightarrow> ('w, err + unstructured) state" where
  "AtomicUpdate K rc orig update =
     RetryOnConflict K
       (do { ce \<leftarrow> CtxErr K;
             case ce of
               Some e \<Rightarrow> State_Monad.return (Inl e)
             | None \<Rightarrow>
                 do { g \<leftarrow> ApiGet K (rcInterface rc) (GetName K orig);
                      case g of
                        Inl e \<Rightarrow> State_Monad.return (Inl e)
                      | Inr current \<Rightarrow>
                          if GetUID K current \<noteq> GetUID K orig
                          then State_Monad.return (Inl (NewNotFound K (GetName K orig)))
                          else if \<not> snd (update current) then State_Monad.return (Inr current)
                          else ApiUpdate K (rcInterface rc) (fst (update current)) } })"

definition AddFinalizer :: "'w k8s \<Rightarrow> ResourceClient \<Rightarrow> unstructured \<Rightarrow> string \<Rightarrow> ('w, err + unstructured) state" where
  "AddFinalizer K rc orig name =
     AtomicUpdate K rc orig (\<lambda>obj.
       if ContainsFinalizer K obj name then (obj, False) else (AddFinalizerTo K obj name, True))"

definition RemoveFinalizer :: "'w k8s \<Rightarrow> ResourceClient \<Rightarrow> unstructured \<Rightarrow> string \<Rightarrow> ('w, err + unstructured) state" where
  "RemoveFinalizer K rc orig name =
     AtomicUpdate K rc orig (\<lambda>obj.
       if \<not> ContainsFinalizer K obj name then (obj, False) else (RemoveFinalizerFrom K obj name, True))"

definition AtomicStatusUpdate :: "'w k8s \<Rightarrow> ResourceClient \<Rightarrow> unstructured \<Rightarrow> updateFn \<Rightarrow> ('w, err + unstructured) state" where
  "AtomicStatusUpdate K rc orig update =
     RetryOnConflict K
       (do { ce \<leftarrow> CtxErr K;
             case ce of
               Some e \<Rightarrow> State_Monad.return (Inl e)
             | None \<Rightarrow>
                 do { g \<leftarrow> ApiGet K (rcInterface rc) (GetName K orig);
                      case g of
                        Inl e \<Rightarrow> State_Monad.return (Inl e)
                      | Inr current \<Rightarrow>
                          if GetUID K current \<noteq> GetUID K orig
                          then State_Monad.return (Inl (NewNotFound K (GetName K orig)))
                          else if \<not> snd (update current) then State_Monad.return (Inr current)
                          else if HasSubresource (rcAPIResource rc) ''status''
                          then ApiUpdateStatus K (rcInterface rc) (fst (update current))
                          else ApiUpdate K (rcInterface rc) (fst (update current)) } })"

text \<open>\<^verbatim>\<open>UpdateWithRetries\<close> leaves its result nil when there is nothing to change.\<close>

definition UpdateWithRetries :: "'w k8s \<Rightarrow> string \<Rightarrow> ControllerRevision
    \<Rightarrow> (ControllerRevision \<Rightarrow> ControllerRevision \<times> bool) \<Rightarrow> ('w, err + ControllerRevision option) state" where
  "UpdateWithRetries K ns orig updateFn =
     RevRetryOnConflict K
       (do { g \<leftarrow> RevGet K ns (crName orig);
             case g of
               Inl e \<Rightarrow> State_Monad.return (Inl e)
             | Inr current \<Rightarrow>
                 if crUID current \<noteq> crUID orig
                 then State_Monad.return (Inl (NewGone K
                        (''can't update ControllerRevision '' @ crNamespace orig @ ''/'' @ crName orig @
                         '': original object is gone: got uid '' @ crUID current @ '', want '' @ crUID orig)))
                 else if \<not> snd (updateFn current) then State_Monad.return (Inr None)
                 else do { u \<leftarrow> RevUpdate K ns (fst (updateFn current));
                           State_Monad.return (map_sum id Some u) } })"

section \<open>The contract of a read-modify-write loop\<close>

text \<open>
  \<open>confined\<close>: besides its reads, the only effect is to store what the update function makes of a
  live object with the identity of the original.  \<open>stale\<close>: an object that was deleted and replaced
  is left alone and an error is returned.
\<close>

locale read_modify_write =
  fixes K :: "'w k8s"
    and check :: "('w, err option) state"
    and uid :: "'o \<Rightarrow> string"
    and live :: "'o \<Rightarrow> ('w, err + 'o) state"
    and store :: "'o \<Rightarrow> ('w, err + 'o) state"
    and rmw :: "'o \<Rightarrow> ('o \<Rightarrow> 'o \<times> bool) \<Rightarrow> ('w, err + 'r) state"
  assumes confined: "\<lbrakk>retry_law K; preserves P check; preserves P (live orig);
      \<And>cur. uid cur = uid orig \<Longrightarrow> snd (upd cur) \<Longrightarrow> preserves P (store (fst (upd cur)))\<rbrakk>
      \<Longrightarrow> preserves P (rmw orig upd)"
    and stale: "\<lbrakk>retry_law K; api_errors_law K; run_state check w = (None, w1);
      run_state (live orig) w1 = (Inr cur, w2); uid cur \<noteq> uid orig\<rbrakk>
      \<Longrightarrow> \<exists>e. run_state (rmw orig upd) w = (Inl e, w2) \<and> (IsNotFound K e \<or> IsGone K e)"
begin

lemma unchanged_confined:
  "\<lbrakk>retry_law K; preserves P check; preserves P (live orig); \<And>cur. \<not> snd (upd cur)\<rbrakk>
     \<Longrightarrow> preserves P (rmw orig upd)"
  by (rule confined) simp_all

lemma if_confined:
  "\<lbrakk>retry_law K; preserves P check; preserves P (live orig);
    \<And>cur. uid cur = uid orig \<Longrightarrow> c cur \<Longrightarrow> preserves P (store (f cur))\<rbrakk>
     \<Longrightarrow> preserves P (rmw orig (\<lambda>cur. if c cur then (f cur, True) else (cur, False)))"
  by (rule confined) (simp_all split: if_splits)

lemma always_confined:
  "\<lbrakk>retry_law K; preserves P check; preserves P (live orig);
    \<And>cur. uid cur = uid orig \<Longrightarrow> preserves P (store (f cur))\<rbrakk>
     \<Longrightarrow> preserves P (rmw orig (\<lambda>cur. (f cur, True)))"
  by (rule confined) simp_all

end

abbreviation liveObject :: "'w k8s \<Rightarrow> ResourceClient \<Rightarrow> unstructured \<Rightarrow> ('w, err + unstructured) state" where
  "liveObject K rc orig \<equiv> ApiGet K (rcInterface rc) (GetName K orig)"

definition storeStatus :: "'w k8s \<Rightarrow> ResourceClient \<Rightarrow> unstructured \<Rightarrow> ('w, err + unstructured) state" where
  "storeStatus K rc obj =
     (if HasSubresource (rcAPIResource rc) ''status'' then ApiUpdateStatus K (rcInterface rc) obj
      else ApiUpdate K (rcInterface rc) obj)"

interpretation au: read_modify_write K "CtxErr K" "GetUID K" "liveObject K rc" "ApiUpdate K (rcInterface rc)" "AtomicUpdate K rc"
  for K rc
proof
  show "preserves P (AtomicUpdate K rc orig upd)"
    if "retry_law K" "preserves P (CtxErr K)" "preserves P (liveObject K rc orig)"
      "\<And>cur. GetUID K cur = GetUID K orig \<Longrightarrow> snd (upd cur) \<Longrightarrow> preserves P (ApiUpdate K (rcInterface rc) (fst (upd cur)))"
    for P orig upd
    using that unfolding AtomicUpdate_def by (auto intro!: pres split: option.split sum.split)
  show "\<exists>e. run_state (AtomicUpdate K rc orig upd) w = (Inl e, w2) \<and> (IsNotFound K e \<or> IsGone K e)"
    if "retry_law K" "api_errors_law K" "run_state (CtxErr K) w = (None, w1)"
      "run_state (liveObject K rc orig) w1 = (Inr cur, w2)" "GetUID K cur \<noteq> GetUID K orig"
    for w w1 w2 orig cur upd
    unfolding AtomicUpdate_def
    using that by (intro exI [of _ "NewNotFound K (GetName K orig)"] conjI retry_stop) (auto simp: api_errors_law_def)
qed

interpretation asu: read_modify_write K "CtxErr K" "GetUID K" "liveObject K rc" "storeStatus K rc" "AtomicStatusUpdate K rc"
  for K rc
proof
  show "preserves P (AtomicStatusUpdate K rc orig upd)"
    if "retry_law K" "preserves P (CtxErr K)" "preserves P (liveObject K rc orig)"
      "\<And>cur. GetUID K cur = GetUID K orig \<Longrightarrow> snd (upd cur) \<Longrightarrow> preserves P (storeStatus K rc (fst (upd cur)))"
    for P orig upd
    using that unfolding AtomicStatusUpdate_def storeStatus_def
    by (auto intro!: pres split: option.split sum.split if_splits)
  show "\<exists>e. run_state (AtomicStatusUpdate K rc orig upd) w = (Inl e, w2) \<and> (IsNotFound K e \<or> IsGone K e)"
    if "retry_law K" "api_errors_law K" "run_state (CtxErr K) w = (None, w1)"
      "run_state (liveObject K rc orig) w1 = (Inr cur, w2)" "GetUID K cur \<noteq> GetUID K orig"
    for w w1 w2 orig cur upd
    unfolding AtomicStatusUpdate_def
    using that by (intro exI [of _ "NewNotFound K (GetName K orig)"] conjI retry_stop) (auto simp: api_errors_law_def)
qed

interpretation uwr: read_modify_write K "State_Monad.return None" crUID "\<lambda>orig. RevGet K ns (crName orig)"
    "RevUpdate K ns" "UpdateWithRetries K ns"
  for K ns
proof
  show "preserves P (UpdateWithRetries K ns orig upd)"
    if "retry_law K" "preserves P (RevGet K ns (crName orig))"
      "\<And>cur. crUID cur = crUID orig \<Longrightarrow> snd (upd cur) \<Longrightarrow> preserves P (RevUpdate K ns (fst (upd cur)))"
    for P orig upd
    using that unfolding UpdateWithRetries_def by (auto intro!: pres split: option.split sum.split)
  show "\<exists>e. run_state (UpdateWithRetries K ns orig upd) w = (Inl e, w2) \<and> (IsNotFound K e \<or> IsGone K e)"
    if "retry_law K" "api_errors_law K" "run_state (State_Monad.return None) w = (None :: err option, w1)"
      "run_state (RevGet K ns (crName orig)) w1 = (Inr cur, w2)" "crUID cur \<noteq> crUID orig"
    for w w1 w2 orig cur upd
    unfolding UpdateWithRetries_def
    using that by (intro exI [of _ "NewGone K (''can't update ControllerRevision '' @ crNamespace orig @ ''/'' @ crName orig @
                         '': original object is gone: got uid '' @ crUID cur @ '', want '' @ crUID orig)"] conjI retry_stop_rev)
      (auto simp: api_errors_law_def)
qed


section \<open>Properties\<close>


definition podClient :: ResourceClient where
  "podClient =
     \<lparr>rcInterface = \<lparr>riResource = \<lparr>gvrGroup = '''', gvrVersion = ''v1'', gvrResource = ''pods''\<rparr>, riNamespace = ''ns''\<rparr>,
      rcAPIResource = \<lparr>arName = ''pods'', arKind = ''Pod'', arGroup = '''', arVersion = ''v1'', arNamespaced = True,
        arAPIVersion = ''v1'', arSubresourceMap = [''status'']\<rparr>,
      rcRootClient = \<lparr>riResource = \<lparr>gvrGroup = '''', gvrVersion = ''v1'', gvrResource = ''pods''\<rparr>, riNamespace = ''''\<rparr>\<rparr>"

definition podObject :: "string \<Rightarrow> unstructured" where
  "podObject u = [(''apiVersion'', JString ''v1''), (''kind'', JString ''Pod''),
     (''metadata'', JObj [(''name'', JString ''p''), (''namespace'', JString ''ns''), (''uid'', JString u)])]"


text \<open>When the live object has another UID (the original was deleted and a new object has its
  name) nothing is written, and the error is "not found", after a single attempt.\<close>

theorem AtomicUpdate_replaced:
  assumes "retry_law K" "api_errors_law K" "run_state (CtxErr K) w = (None, w1)"
    and "run_state (ApiGet K (rcInterface rc) (GetName K orig)) w1 = (Inr cur, w2)" "GetUID K cur \<noteq> GetUID K orig"
  shows "run_state (AtomicUpdate K rc orig update) w = (Inl (NewNotFound K (GetName K orig)), w2)"
  unfolding AtomicUpdate_def
  by (rule retry_stop [OF assms(1)]) (use assms in \<open>auto simp: api_errors_law_def\<close>)

definition podStore :: world where
  "podStore = \<lparr>wObjects = [((''pods'', ''ns'', ''p''), podObject ''new'')], wLog = [], wRevisions = [], wGroups = []\<rparr>"

theorem AtomicUpdate_replaced_witness:
  "run_state (AtomicUpdate refK podClient (podObject ''old'') (\<lambda>obj. (obj, True))) podStore
     = (Inl (LibErr ''NotFound''), podStore\<lparr>wLog := [(''get'', ''p'')]\<rparr>)"
proof -
  have "run_state (ApiGet refK (rcInterface podClient) (GetName refK (podObject ''old''))) podStore
      = (Inr (podObject ''new''), podStore\<lparr>wLog := [(''get'', ''p'')]\<rparr>)"
    by (simp add: refK_simps refGet_def podStore_def podClient_def podObject_def refName_def metaOf_def jget_def objKeyOf_def)
  moreover have "run_state (CtxErr refK) podStore = (None, podStore)"
    "GetUID refK (podObject ''new'') \<noteq> GetUID refK (podObject ''old'')"
    "NewNotFound refK (GetName refK (podObject ''old'')) = LibErr ''NotFound''"
    by (simp_all add: refK_simps podObject_def metaOf_def jget_def)
  ultimately show ?thesis
    using AtomicUpdate_replaced [OF refK_retry refK_api_errors] by metis
qed

end
