(* ===== verification/ObjectMap.thy ===== *)
theory ObjectMap
  imports Reference
begin

text \<open>
  Maps of objects by type and name: \<^verbatim>\<open>pkg/controller/common/api\<close> and its versions \<^verbatim>\<open>v1\<close>
  (\<^verbatim>\<open>RelativeObjectMap\<close>, keyed relative to a parent) and \<^verbatim>\<open>v2\<close> (\<^verbatim>\<open>UniformObjectMap\<close>, keyed by
  namespace and name).  Both are Go maps of maps; what they share is the locale \<open>object_map\<close>,
  interpreted on the operations of each.  The Go interface \<^verbatim>\<open>api.ObjectMap\<close> is the datatype
  \<open>ObjectMap\<close>, whose methods dispatch on the implementation.
\<close>

section \<open>Group-version-kinds\<close>

text \<open>The order \<^verbatim>\<open>GetAllGVKs\<close> sorts by: group, then version, then kind.\<close>

instantiation gvk_ext :: (linorder) linorder
begin

definition less_gvk_ext :: "('a :: linorder) gvk_scheme \<Rightarrow> 'a gvk_scheme \<Rightarrow> bool" where
  "less_gvk_ext a b =
     (if gvkGroup a \<noteq> gvkGroup b then gvkGroup a < gvkGroup b
      else if gvkVersion a \<noteq> gvkVersion b then gvkVersion a < gvkVersion b
      else if gvkKind a \<noteq> gvkKind b then gvkKind a < gvkKind b
      else gvk.more a < gvk.more b)"

definition less_eq_gvk_ext :: "('a :: linorder) gvk_scheme \<Rightarrow> 'a gvk_scheme \<Rightarrow> bool" where
  "less_eq_gvk_ext a b \<longleftrightarrow> a = b \<or> a < b"

instance
proof
  fix x y z :: "'a gvk_scheme"
  show "x < y \<longleftrightarrow> x \<le> y \<and> \<not> y \<le> x"
    by (auto simp: less_eq_gvk_ext_def less_gvk_ext_def split: if_splits)
  show "x \<le> x" by (simp add: less_eq_gvk_ext_def)
  show "x \<le> y \<Longrightarrow> y \<le> z \<Longrightarrow> x \<le> z"
    by (auto simp: less_eq_gvk_ext_def less_gvk_ext_def split: if_splits)
  show "x \<le> y \<Longrightarrow> y \<le> x \<Longrightarrow> x = y"
    by (auto simp: less_eq_gvk_ext_def less_gvk_ext_def split: if_splits)
  show "x \<le> y \<or> y \<le> x"
    by (auto simp: less_eq_gvk_ext_def less_gvk_ext_def intro!: gvk.equality)
qed

end

definition MarshalText :: "gvk \<Rightarrow> string" where
  "MarshalText g =
     (if gvkGroup g = '''' then gvkKind g @ ''.'' @ gvkVersion g
      else gvkKind g @ ''.'' @ gvkGroup g @ ''/'' @ gvkVersion g)"

definition UnmarshalText :: "'w k8s \<Rightarrow> string \<Rightarrow> err + gvk" where
  "UnmarshalText K txt =
     (case splitN (CHR ''.'') 2 txt of
        [k, gv] \<Rightarrow>
          (case ParseGroupVersion K gv of
             Inl e \<Rightarrow> Inl e
           | Inr (g, v) \<Rightarrow> Inr \<lparr>gvkGroup = g, gvkVersion = v, gvkKind = k\<rparr>)
      | _ \<Rightarrow> Inl (Errorf (''could not unmarshall ['' @ txt @ ''], expected string in 'kind.group/version' format'') None))"

section \<open>Relative object maps\<close>

type_synonym objectGroup = "(string \<times> unstructured) list"
type_synonym objectMap = "(gvk \<times> objectGroup) list"

definition RelativeObjectMap_InitGroup :: "objectMap \<Rightarrow> gvk \<Rightarrow> objectMap" where
  "RelativeObjectMap_InitGroup m g = (if map_of m g = None then AList.update g [] m else m)"

definition relativeName :: "'w k8s \<Rightarrow> metaObject \<Rightarrow> unstructured \<Rightarrow> string" where
  "relativeName K parent obj =
     (if moNamespace parent = '''' \<and> GetNamespace K obj \<noteq> ''''
      then GetNamespace K obj @ ''/'' @ GetName K obj else GetName K obj)"

definition RelativeObjectMap_Insert :: "'w k8s \<Rightarrow> metaObject \<Rightarrow> objectMap \<Rightarrow> unstructured \<Rightarrow> objectMap" where
  "RelativeObjectMap_Insert K parent m obj =
     (let g = GroupVersionKind K obj;
          m = (if map_of m g = None then RelativeObjectMap_InitGroup m g else m);
          grp = (case map_of m g of None \<Rightarrow> [] | Some x \<Rightarrow> x)
      in AList.update g (AList.update (relativeName K parent obj) obj grp) m)"

definition RelativeObjectMap_InsertAll :: "'w k8s \<Rightarrow> metaObject \<Rightarrow> objectMap \<Rightarrow> unstructured list \<Rightarrow> objectMap" where
  "RelativeObjectMap_InsertAll K parent m objects = foldl (RelativeObjectMap_Insert K parent) m objects"

fun RelativeObjectMap_FindGroupKindName :: "objectMap \<Rightarrow> groupKind \<Rightarrow> string \<Rightarrow> unstructured option" where
  "RelativeObjectMap_FindGroupKindName [] gk name = None"
| "RelativeObjectMap_FindGroupKindName ((key, objects) # m) gk name =
     (if GroupKind key = gk then
        (case find (\<lambda>p. fst p = name) objects of
           Some p \<Rightarrow> Some (snd p)
         | None \<Rightarrow> RelativeObjectMap_FindGroupKindName m gk name)
      else RelativeObjectMap_FindGroupKindName m gk name)"

definition RelativeObjectMap_ReplaceObjectIfExists :: "'w k8s \<Rightarrow> metaObject \<Rightarrow> objectMap \<Rightarrow> unstructured \<Rightarrow> objectMap" where
  "RelativeObjectMap_ReplaceObjectIfExists K parent m obj =
     (let g = GroupVersionKind K obj; name = relativeName K parent obj in
      case map_of m g of
        None \<Rightarrow> m
      | Some objects \<Rightarrow>
          if map_of objects name \<noteq> None then AList.update g (AList.update name obj objects) m else m)"

definition RelativeObjectMap_List :: "objectMap \<Rightarrow> unstructured list" where
  "RelativeObjectMap_List m = concat (map (\<lambda>p. map snd (snd p)) m)"

definition RelativeObjectMap_GetObjectsByGVK :: "objectMap \<Rightarrow> gvk \<Rightarrow> objectGroup option" where
  "RelativeObjectMap_GetObjectsByGVK m g = map_of m g"

definition RelativeObjectMap_GetAllGVKs :: "objectMap \<Rightarrow> gvk list" where
  "RelativeObjectMap_GetAllGVKs m = (if m = [] then [] else sort (map fst m))"

definition MakeRelativeObjectMap :: "'w k8s \<Rightarrow> metaObject \<Rightarrow> unstructured list \<Rightarrow> objectMap" where
  "MakeRelativeObjectMap K parent objects = RelativeObjectMap_InsertAll K parent [] objects"

section \<open>Uniform object maps\<close>

definition UniformObjectMap_InitGroup :: "objectMap \<Rightarrow> gvk \<Rightarrow> objectMap" where
  "UniformObjectMap_InitGroup m g = (if map_of m g = None then AList.update g [] m else m)"

definition qualifiedName :: "'w k8s \<Rightarrow> unstructured \<Rightarrow> string" where
  "qualifiedName K obj =
     (if GetNamespace K obj \<noteq> '''' then GetNamespace K obj @ ''/'' @ GetName K obj else GetName K obj)"

definition UniformObjectMap_Insert :: "'w k8s \<Rightarrow> metaObject \<Rightarrow> objectMap \<Rightarrow> unstructured \<Rightarrow> objectMap" where
  "UniformObjectMap_Insert K parent m obj =
     (let g = GroupVersionKind K obj;
          m = (if map_of m g = None then UniformObjectMap_InitGroup m g else m);
          grp = (case map_of m g of None \<Rightarrow> [] | Some x \<Rightarrow> x)
      in AList.update g (AList.update (qualifiedName K obj) obj grp) m)"

definition UniformObjectMap_InsertAll :: "'w k8s \<Rightarrow> metaObject \<Rightarrow> objectMap \<Rightarrow> unstructured list \<Rightarrow> objectMap" where
  "UniformObjectMap_InsertAll K parent m objects = foldl (UniformObjectMap_Insert K parent) m objects"

fun UniformObjectMap_FindGroupKindName :: "objectMap \<Rightarrow> groupKind \<Rightarrow> string \<Rightarrow> unstructured option" where
  "UniformObjectMap_FindGroupKindName [] gk name = None"
| "UniformObjectMap_FindGroupKindName ((key, objects) # m) gk name =
     (if GroupKind key = gk then
        (case map_of objects name of
           Some obj \<Rightarrow> Some obj
         | None \<Rightarrow> UniformObjectMap_FindGroupKindName m gk name)
      else UniformObjectMap_FindGroupKindName m gk name)"

definition UniformObjectMap_ReplaceObjectIfExists :: "'w k8s \<Rightarrow> metaObject \<Rightarrow> objectMap \<Rightarrow> unstructured \<Rightarrow> objectMap" where
  "UniformObjectMap_ReplaceObjectIfExists K parent m obj =
     (let g = GroupVersionKind K obj; name = qualifiedName K obj in
      case map_of m g of
        None \<Rightarrow> m
      | Some objects \<Rightarrow>
          if objects = [] then m
          else if map_of objects name \<noteq> None then AList.update g (AList.update name obj objects) m else m)"

definition UniformObjectMap_List :: "objectMap \<Rightarrow> unstructured list" where
  "UniformObjectMap_List m = concat (map (\<lambda>p. map snd (snd p)) m)"

definition UniformObjectMap_GetObjectsByGVK :: "objectMap \<Rightarrow> gvk \<Rightarrow> objectGroup option" where
  "UniformObjectMap_GetObjectsByGVK m g = map_of m g"

definition UniformObjectMap_GetAllGVKs :: "objectMap \<Rightarrow> gvk list" where
  "UniformObjectMap_GetAllGVKs m = (if m = [] then [] else sort (map fst m))"

definition MakeUniformObjectMap :: "'w k8s \<Rightarrow> metaObject \<Rightarrow> unstructured list \<Rightarrow> objectMap" where
  "MakeUniformObjectMap K parent objects = UniformObjectMap_InsertAll K parent [] objects"

definition UniformObjectMap_Convert :: "'w k8s \<Rightarrow> metaObject \<Rightarrow> objectMap \<Rightarrow> objectMap" where
  "UniformObjectMap_Convert K parent m =
     (let potentialChildren = UniformObjectMap_List m;
          relativeObjects = foldl RelativeObjectMap_InitGroup [] (map fst m)
      in if moNamespace parent = '''' then RelativeObjectMap_InsertAll K parent relativeObjects potentialChildren
         else foldl (\<lambda>r child. if moNamespace parent = GetNamespace K child then RelativeObjectMap_Insert K parent r child else r)
                relativeObjects potentialChildren)"

section \<open>The interface\<close>

datatype ObjectMap = RelativeObjectMap objectMap | UniformObjectMap objectMap

fun ObjectMap_GetAllGVKs :: "ObjectMap \<Rightarrow> gvk list" where
  "ObjectMap_GetAllGVKs (RelativeObjectMap m) = RelativeObjectMap_GetAllGVKs m"
| "ObjectMap_GetAllGVKs (UniformObjectMap m) = UniformObjectMap_GetAllGVKs m"

fun ObjectMap_GetObjectsByGVK :: "ObjectMap \<Rightarrow> gvk \<Rightarrow> objectGroup option" where
  "ObjectMap_GetObjectsByGVK (RelativeObjectMap m) g = RelativeObjectMap_GetObjectsByGVK m g"
| "ObjectMap_GetObjectsByGVK (UniformObjectMap m) g = UniformObjectMap_GetObjectsByGVK m g"

fun ObjectMap_FindGroupKindName :: "ObjectMap \<Rightarrow> groupKind \<Rightarrow> string \<Rightarrow> unstructured option" where
  "ObjectMap_FindGroupKindName (RelativeObjectMap m) gk name = RelativeObjectMap_FindGroupKindName m gk name"
| "ObjectMap_FindGroupKindName (UniformObjectMap m) gk name = UniformObjectMap_FindGroupKindName m gk name"

fun ObjectMap_Insert :: "'w k8s \<Rightarrow> metaObject \<Rightarrow> ObjectMap \<Rightarrow> unstructured \<Rightarrow> ObjectMap" where
  "ObjectMap_Insert K parent (RelativeObjectMap m) obj = RelativeObjectMap (RelativeObjectMap_Insert K parent m obj)"
| "ObjectMap_Insert K parent (UniformObjectMap m) obj = UniformObjectMap (UniformObjectMap_Insert K parent m obj)"

fun ObjectMap_ReplaceObjectIfExists :: "'w k8s \<Rightarrow> metaObject \<Rightarrow> ObjectMap \<Rightarrow> unstructured \<Rightarrow> ObjectMap" where
  "ObjectMap_ReplaceObjectIfExists K parent (RelativeObjectMap m) obj =
     RelativeObjectMap (RelativeObjectMap_ReplaceObjectIfExists K parent m obj)"
| "ObjectMap_ReplaceObjectIfExists K parent (UniformObjectMap m) obj =
     UniformObjectMap (UniformObjectMap_ReplaceObjectIfExists K parent m obj)"

fun ObjectMap_List :: "ObjectMap \<Rightarrow> unstructured list" where
  "ObjectMap_List (RelativeObjectMap m) = RelativeObjectMap_List m"
| "ObjectMap_List (UniformObjectMap m) = UniformObjectMap_List m"

section \<open>The contract\<close>

definition wfMap :: "objectMap \<Rightarrow> bool" where
  "wfMap m \<longleftrightarrow> distinct (map fst m) \<and> list_all (\<lambda>p. distinct (map fst (snd p))) m"

locale object_map =
  fixes K :: "'w k8s"
    and key :: "metaObject \<Rightarrow> unstructured \<Rightarrow> string"
    and ins :: "metaObject \<Rightarrow> objectMap \<Rightarrow> unstructured \<Rightarrow> objectMap"
    and replace :: "metaObject \<Rightarrow> objectMap \<Rightarrow> unstructured \<Rightarrow> objectMap"
    and findObj :: "objectMap \<Rightarrow> groupKind \<Rightarrow> string \<Rightarrow> unstructured option"
    and list :: "objectMap \<Rightarrow> unstructured list"
    and byGVK :: "objectMap \<Rightarrow> gvk \<Rightarrow> objectGroup option"
    and allGVKs :: "objectMap \<Rightarrow> gvk list"
  assumes byGVK_ins: "byGVK (ins p m obj) g =
      (if g = GroupVersionKind K obj
       then Some (AList.update (key p obj) obj (case byGVK m g of None \<Rightarrow> [] | Some x \<Rightarrow> x)) else byGVK m g)"
    and byGVK_replace: "byGVK (replace p m obj) g =
      (if g = GroupVersionKind K obj
       then map_option (\<lambda>x. if map_of x (key p obj) = None then x else AList.update (key p obj) obj x) (byGVK m g)
       else byGVK m g)"
    and wf_ins: "wfMap m \<Longrightarrow> wfMap (ins p m obj)"
    and wf_replace: "wfMap m \<Longrightarrow> wfMap (replace p m obj)"
    and find_sound: "wfMap m \<Longrightarrow> findObj m gk n = Some obj \<Longrightarrow>
      \<exists>g x. GroupKind g = gk \<and> byGVK m g = Some x \<and> map_of x n = Some obj"
    and find_complete: "wfMap m \<Longrightarrow> findObj m gk n = None \<Longrightarrow> GroupKind g = gk \<Longrightarrow> byGVK m g = Some x \<Longrightarrow> map_of x n = None"
    and list_objects: "wfMap m \<Longrightarrow> obj \<in> set (list m) \<longleftrightarrow> (\<exists>g x n. byGVK m g = Some x \<and> map_of x n = Some obj)"
    and allGVKs_spec: "wfMap m \<Longrightarrow> sorted (allGVKs m) \<and> distinct (allGVKs m) \<and> set (allGVKs m) = {g. byGVK m g \<noteq> None}"
begin

definition lookup :: "objectMap \<Rightarrow> gvk \<Rightarrow> string \<Rightarrow> unstructured option" where
  "lookup m g n = (case byGVK m g of None \<Rightarrow> None | Some x \<Rightarrow> map_of x n)"

lemma lookup_ins: "lookup (ins p m obj) g n = (if g = GroupVersionKind K obj \<and> n = key p obj then Some obj else lookup m g n)"
  by (simp add: lookup_def byGVK_ins update_conv' split: option.split)

lemma lookup_replace: "lookup (replace p m obj) g n =
    (if g = GroupVersionKind K obj \<and> n = key p obj \<and> lookup m g n \<noteq> None then Some obj else lookup m g n)"
  by (auto simp: lookup_def byGVK_replace update_conv' split: option.split)

lemma wf_insAll: "wfMap m \<Longrightarrow> wfMap (foldl (ins p) m objs)"
  by (induction objs arbitrary: m) (simp_all add: wf_ins)

lemma lookup_insAll: "lookup (foldl (ins p) m objs) g n =
    (case find (\<lambda>obj. GroupVersionKind K obj = g \<and> key p obj = n) (rev objs) of
       Some obj \<Rightarrow> Some obj | None \<Rightarrow> lookup m g n)"
proof (induction objs rule: rev_induct)
  case (snoc obj objs)
  then show ?case by (auto simp: lookup_ins)
qed simp

lemma find_lookup: "wfMap m \<Longrightarrow> findObj m gk n = Some obj \<Longrightarrow> \<exists>g. GroupKind g = gk \<and> lookup m g n = Some obj"
  using find_sound by (fastforce simp: lookup_def)

lemma list_lookup:
  assumes "wfMap m"
  shows "obj \<in> set (list m) \<longleftrightarrow> (\<exists>g n. lookup m g n = Some obj)"
proof -
  have "(\<exists>x. byGVK m g = Some x \<and> map_of x n = Some obj) \<longleftrightarrow> lookup m g n = Some obj" for g n
    by (simp add: lookup_def split: option.split)
  then show ?thesis unfolding list_objects [OF assms] by blast
qed

end

lemma wfMap_update:
  assumes "wfMap m" "distinct (map fst x)"
  shows "wfMap (AList.update g x m)"
proof -
  have "set (AList.update g x m) \<subseteq> insert (g, x) (set m)"
    by (induction m) auto
  with assms show ?thesis by (auto simp: wfMap_def list_all_iff distinct_update)
qed

lemma wfMap_group: "wfMap m \<Longrightarrow> map_of m g = Some x \<Longrightarrow> distinct (map fst x)"
  by (auto simp: wfMap_def list_all_iff dest: map_of_SomeD)

lemma wfMap_Nil [simp]: "wfMap []"
  by (simp add: wfMap_def)

lemma find_fst: "find (\<lambda>p. fst p = n) xs = map_option (Pair n) (map_of xs n)"
  by (induction xs) auto

lemma UniformObjectMap_Find_eq: "UniformObjectMap_FindGroupKindName m gk n = RelativeObjectMap_FindGroupKindName m gk n"
  by (induction m gk n rule: UniformObjectMap_FindGroupKindName.induct) (auto simp: find_fst split: option.split)

lemma Find_sound:
  "distinct (map fst m) \<Longrightarrow> RelativeObjectMap_FindGroupKindName m gk n = Some obj \<Longrightarrow>
     \<exists>g x. GroupKind g = gk \<and> map_of m g = Some x \<and> map_of x n = Some obj"
proof (induction m gk n rule: RelativeObjectMap_FindGroupKindName.induct)
  case (2 key objects m gk name)
  show ?case
  proof (cases "GroupKind key = gk \<and> map_of objects name \<noteq> None")
    case True
    with "2.prems" show ?thesis by (intro exI [of _ key] exI [of _ objects]) (auto simp: find_fst)
  next
    case False
    with 2 obtain g x where "GroupKind g = gk" "map_of m g = Some x" "map_of x name = Some obj"
      by (auto simp: find_fst split: if_splits)
    moreover from this "2.prems"(1) have "g \<noteq> key" by (force dest: map_of_SomeD)
    ultimately show ?thesis by auto
  qed
qed simp

lemma Find_complete:
  "RelativeObjectMap_FindGroupKindName m gk n = None \<Longrightarrow> GroupKind g = gk \<Longrightarrow> map_of m g = Some x \<Longrightarrow> map_of x n = None"
  by (induction m gk n rule: RelativeObjectMap_FindGroupKindName.induct)
    (auto simp: find_fst split: if_splits option.splits)

lemma List_objects:
  assumes "wfMap m"
  shows "obj \<in> set (concat (map (\<lambda>p. map snd (snd p)) m)) \<longleftrightarrow> (\<exists>g x n. map_of m g = Some x \<and> map_of x n = Some obj)"
proof
  assume "obj \<in> set (concat (map (\<lambda>p. map snd (snd p)) m))"
  then obtain g x n where "(g, x) \<in> set m" "(n, obj) \<in> set x" by auto
  with assms show "\<exists>g x n. map_of m g = Some x \<and> map_of x n = Some obj"
    by (intro exI [of _ g] exI [of _ x] exI [of _ n]) (force simp: wfMap_def list_all_iff)
next
  assume "\<exists>g x n. map_of m g = Some x \<and> map_of x n = Some obj"
  then obtain g x n where "(g, x) \<in> set m" "(n, obj) \<in> set x" by (auto dest!: map_of_SomeD)
  then show "obj \<in> set (concat (map (\<lambda>p. map snd (snd p)) m))" by force
qed

lemma AllGVKs_spec:
  fixes m :: objectMap
  assumes "wfMap m"
  shows "sorted (sort (map fst m)) \<and> distinct (sort (map fst m)) \<and> set (sort (map fst m)) = {g. map_of m g \<noteq> None}"
  using assms by (auto simp: wfMap_def map_of_eq_None_iff simp del: not_None_eq)

lemmas object_map_defs =
  RelativeObjectMap_Insert_def RelativeObjectMap_InitGroup_def RelativeObjectMap_ReplaceObjectIfExists_def
  RelativeObjectMap_List_def RelativeObjectMap_GetObjectsByGVK_def RelativeObjectMap_GetAllGVKs_def
  UniformObjectMap_Insert_def UniformObjectMap_InitGroup_def UniformObjectMap_ReplaceObjectIfExists_def
  UniformObjectMap_List_def UniformObjectMap_GetObjectsByGVK_def UniformObjectMap_GetAllGVKs_def

interpretation rom: object_map K "relativeName K" "RelativeObjectMap_Insert K" "RelativeObjectMap_ReplaceObjectIfExists K"
    RelativeObjectMap_FindGroupKindName RelativeObjectMap_List RelativeObjectMap_GetObjectsByGVK RelativeObjectMap_GetAllGVKs
  for K
proof
  show "wfMap m \<Longrightarrow> RelativeObjectMap_FindGroupKindName m gk n = Some obj \<Longrightarrow>
      \<exists>g x. GroupKind g = gk \<and> RelativeObjectMap_GetObjectsByGVK m g = Some x \<and> map_of x n = Some obj" for m gk n obj
    unfolding RelativeObjectMap_GetObjectsByGVK_def by (rule Find_sound) (simp_all add: wfMap_def)
  show "wfMap m \<Longrightarrow> RelativeObjectMap_FindGroupKindName m gk n = None \<Longrightarrow> GroupKind g = gk \<Longrightarrow>
      RelativeObjectMap_GetObjectsByGVK m g = Some x \<Longrightarrow> map_of x n = None" for m gk n g x
    unfolding RelativeObjectMap_GetObjectsByGVK_def by (rule Find_complete)
  show "wfMap m \<Longrightarrow> (obj \<in> set (RelativeObjectMap_List m)) =
      (\<exists>g x n. RelativeObjectMap_GetObjectsByGVK m g = Some x \<and> map_of x n = Some obj)" for m obj
    unfolding RelativeObjectMap_GetObjectsByGVK_def RelativeObjectMap_List_def by (rule List_objects)
  show "wfMap m \<Longrightarrow> sorted (RelativeObjectMap_GetAllGVKs m) \<and> distinct (RelativeObjectMap_GetAllGVKs m) \<and>
      set (RelativeObjectMap_GetAllGVKs m) = {g. RelativeObjectMap_GetObjectsByGVK m g \<noteq> None}" for m
    using AllGVKs_spec [of m] by (simp add: object_map_defs)
qed (auto simp: object_map_defs Let_def update_conv'
       intro!: wfMap_update distinct_update dest: wfMap_group split: option.splits)

interpretation uom: object_map K "\<lambda>p. qualifiedName K" "UniformObjectMap_Insert K" "UniformObjectMap_ReplaceObjectIfExists K"
    UniformObjectMap_FindGroupKindName UniformObjectMap_List UniformObjectMap_GetObjectsByGVK UniformObjectMap_GetAllGVKs
  for K
proof
  show "wfMap m \<Longrightarrow> UniformObjectMap_FindGroupKindName m gk n = Some obj \<Longrightarrow>
      \<exists>g x. GroupKind g = gk \<and> UniformObjectMap_GetObjectsByGVK m g = Some x \<and> map_of x n = Some obj" for m gk n obj
    unfolding UniformObjectMap_GetObjectsByGVK_def UniformObjectMap_Find_eq by (rule Find_sound) (simp_all add: wfMap_def)
  show "wfMap m \<Longrightarrow> UniformObjectMap_FindGroupKindName m gk n = None \<Longrightarrow> GroupKind g = gk \<Longrightarrow>
      UniformObjectMap_GetObjectsByGVK m g = Some x \<Longrightarrow> map_of x n = None" for m gk n g x
    unfolding UniformObjectMap_GetObjectsByGVK_def UniformObjectMap_Find_eq by (rule Find_complete)
  show "wfMap m \<Longrightarrow> (obj \<in> set (UniformObjectMap_List m)) =
      (\<exists>g x n. UniformObjectMap_GetObjectsByGVK m g = Some x \<and> map_of x n = Some obj)" for m obj
    unfolding UniformObjectMap_GetObjectsByGVK_def UniformObjectMap_List_def by (rule List_objects)
  show "wfMap m \<Longrightarrow> sorted (UniformObjectMap_GetAllGVKs m) \<and> distinct (UniformObjectMap_GetAllGVKs m) \<and>
      set (UniformObjectMap_GetAllGVKs m) = {g. UniformObjectMap_GetObjectsByGVK m g \<noteq> None}" for m
    using AllGVKs_spec [of m] by (simp add: object_map_defs)
qed (auto simp: object_map_defs Let_def update_conv'
       intro!: wfMap_update distinct_update dest: wfMap_group split: option.splits)


section \<open>Properties\<close>

definition lookupObj :: "objectMap \<Rightarrow> gvk \<Rightarrow> string \<Rightarrow> unstructured option" where
  "lookupObj m g n = (case map_of m g of None \<Rightarrow> None | Some x \<Rightarrow> map_of x n)"

lemma lookup_rom: "rom.lookup = lookupObj"
  by (intro ext) (simp add: rom.lookup_def lookupObj_def RelativeObjectMap_GetObjectsByGVK_def)

lemma lookup_uom: "uom.lookup = lookupObj"
  by (intro ext) (simp add: uom.lookup_def lookupObj_def UniformObjectMap_GetObjectsByGVK_def)

text \<open>Kubernetes names and namespaces contain no slash.\<close>

definition plainName :: "'w k8s \<Rightarrow> unstructured \<Rightarrow> bool" where
  "plainName K obj \<longleftrightarrow> CHR ''/'' \<notin> set (GetName K obj) \<and> CHR ''/'' \<notin> set (GetNamespace K obj)"

lemma qualifiedName_inj:
  assumes "plainName K a" "plainName K b" "qualifiedName K a = qualifiedName K b"
  shows "GetName K a = GetName K b \<and> GetNamespace K a = GetNamespace K b"
proof -
  have "CHR ''/'' \<in> set (qualifiedName K x) \<longleftrightarrow> GetNamespace K x \<noteq> ''''" if "plainName K x" for x
    using that by (auto simp: qualifiedName_def plainName_def)
  with assms have "GetNamespace K a = '''' \<longleftrightarrow> GetNamespace K b = ''''" by metis
  then show ?thesis
    using assms append_sep_eq [of "CHR ''/''" "GetNamespace K a" "GetNamespace K b" "GetName K a" "GetName K b"]
    by (auto simp: qualifiedName_def plainName_def split: if_splits)
qed

lemma find_unique:
  assumes "x \<in> set xs" "P x" "\<And>y. y \<in> set xs \<Longrightarrow> P y \<Longrightarrow> y = x"
  shows "find P xs = Some x"
proof (cases "find P xs")
  case None
  with assms(1,2) show ?thesis by (auto simp: find_None_iff)
next
  case (Some y)
  with find_SomeD have "y \<in> set xs" "P y" by fast+
  with assms(3) Some show ?thesis by simp
qed

definition podObj :: "string \<Rightarrow> unstructured" where
  "podObj n = [(''apiVersion'', JString ''v1''), (''kind'', JString ''Pod''),
     (''metadata'', JObj [(''name'', JString n), (''namespace'', JString ''ns''), (''uid'', JString (''uid-'' @ n))])]"

text \<open>A uniform map built from objects of which no two have the same type, namespace and name
  loses none and invents none: each object is found under its qualified name, the listing is
  exactly the given objects, and the types come sorted without repetition.\<close>

theorem MakeUniformObjectMap_faithful:
  assumes "list_all (plainName K) objs"
    and "distinct (map (\<lambda>obj. (GroupVersionKind K obj, GetNamespace K obj, GetName K obj)) objs)"
  shows "let m = MakeUniformObjectMap K parent objs in
     list_all (\<lambda>obj. lookupObj m (GroupVersionKind K obj) (qualifiedName K obj) = Some obj) objs \<and>
     set (UniformObjectMap_List m) = set objs \<and>
     sorted (UniformObjectMap_GetAllGVKs m) \<and> distinct (UniformObjectMap_GetAllGVKs m)"
proof -
  define m where "m = MakeUniformObjectMap K parent objs"
  then have m: "m = foldl (UniformObjectMap_Insert K parent) [] objs"
    by (simp add: MakeUniformObjectMap_def UniformObjectMap_InsertAll_def)
  have wf: "wfMap m" unfolding m by (rule uom.wf_insAll) simp
  have same: "y = x" if "x \<in> set objs" "y \<in> set objs" "GroupVersionKind K y = GroupVersionKind K x"
      "qualifiedName K y = qualifiedName K x" for x y
    using qualifiedName_inj [of K y x] that assms(1,2) by (auto simp: list_all_iff distinct_map inj_on_def)
  have look: "lookupObj m (GroupVersionKind K x) (qualifiedName K x) = Some x" if "x \<in> set objs" for x
  proof -
    have "find (\<lambda>obj. GroupVersionKind K obj = GroupVersionKind K x \<and> qualifiedName K obj = qualifiedName K x) (rev objs) = Some x"
      by (rule find_unique) (use that same in auto)
    then show ?thesis
      unfolding m lookup_uom [symmetric] uom.lookup_insAll [where K = K] by simp
  qed
  have "x \<in> set objs" if "lookupObj m g n = Some x" for x g n
    using that unfolding m lookup_uom [symmetric] uom.lookup_insAll [where K = K]
    by (auto simp: uom.lookup_def UniformObjectMap_GetObjectsByGVK_def split: option.splits dest: find_SomeD)
  with look have "set (UniformObjectMap_List m) = set objs"
    using uom.list_lookup [OF wf] unfolding lookup_uom by blast
  then show ?thesis
    using look uom.allGVKs_spec [OF wf] by (simp add: list_all_iff Let_def m_def [symmetric])
qed

theorem MakeUniformObjectMap_faithful_witness:
  "set (UniformObjectMap_List (MakeUniformObjectMap refK (metaU refK []) [podObj ''a'', podObj ''b''])) = {podObj ''a'', podObj ''b''}"
proof -
  have "list_all (plainName refK) [podObj ''a'', podObj ''b'']"
    "distinct (map (\<lambda>obj. (GroupVersionKind refK obj, GetNamespace refK obj, GetName refK obj)) [podObj ''a'', podObj ''b''])"
    by (simp_all add: plainName_def podObj_def refK_simps refName_def metaOf_def jget_def)
  from MakeUniformObjectMap_faithful [OF this, of "metaU refK []"] show ?thesis by (simp add: Let_def)
qed

text \<open>Text encoding of a type used as a key in webhook requests: decoding what was encoded
  gives the type back, for kinds without a dot and groups and versions without a slash.\<close>

theorem gvk_text_roundtrip:
  assumes "\<And>g v. CHR ''/'' \<notin> set g \<Longrightarrow> CHR ''/'' \<notin> set v \<Longrightarrow> g \<noteq> '''' \<Longrightarrow>
             ParseGroupVersion K (g @ ''/'' @ v) = Inr (g, v)"
    and "\<And>v. CHR ''/'' \<notin> set v \<Longrightarrow> ParseGroupVersion K v = Inr ('''', v)"
    and "CHR ''.'' \<notin> set (gvkKind x)" "CHR ''/'' \<notin> set (gvkGroup x)" "CHR ''/'' \<notin> set (gvkVersion x)"
  shows "UnmarshalText K (MarshalText x) = Inr x"
proof -
  let ?gv = "if gvkGroup x = '''' then gvkVersion x else gvkGroup x @ ''/'' @ gvkVersion x"
  have "MarshalText x = gvkKind x @ CHR ''.'' # ?gv" by (simp add: MarshalText_def)
  then have "splitN (CHR ''.'') 2 (MarshalText x) = [gvkKind x, ?gv]"
    using assms(3) by (simp add: eval_nat_numeral del: splitN.simps(3))
  moreover have "ParseGroupVersion K ?gv = Inr (gvkGroup x, gvkVersion x)"
    using assms(1,2,4,5) by simp
  ultimately show ?thesis by (cases x) (simp add: UnmarshalText_def)
qed

lemma refGroupVersion_slash: "CHR ''/'' \<notin> set g \<Longrightarrow> refGroupVersion (g @ ''/'' @ v) = (g, v)"
  by (simp add: refGroupVersion_def eval_nat_numeral)

lemma refGroupVersion_plain: "CHR ''/'' \<notin> set v \<Longrightarrow> refGroupVersion v = ('''', v)"
  by (simp add: refGroupVersion_def eval_nat_numeral)

theorem gvk_text_roundtrip_witness:
  "UnmarshalText refK (MarshalText \<lparr>gvkGroup = ''apps'', gvkVersion = ''v1'', gvkKind = ''Deployment''\<rparr>) =
     Inr \<lparr>gvkGroup = ''apps'', gvkVersion = ''v1'', gvkKind = ''Deployment''\<rparr>"
proof (rule gvk_text_roundtrip)
  show "ParseGroupVersion refK (g @ ''/'' @ v) = Inr (g, v)" if "CHR ''/'' \<notin> set g" for g v
    using refGroupVersion_slash [OF that] by (simp add: refK_simps)
  show "ParseGroupVersion refK v = Inr ('''', v)" if "CHR ''/'' \<notin> set v" for v
    using refGroupVersion_plain [OF that] by (simp add: refK_simps)
qed simp_all

text \<open>A uniform map whose every entry sits under its object's type and qualified name.\<close>

definition uniformlyKeyed :: "'w k8s \<Rightarrow> objectMap \<Rightarrow> bool" where
  "uniformlyKeyed K m \<longleftrightarrow>
     wfMap m \<and> (\<forall>g n obj. lookupObj m g n = Some obj \<longrightarrow> GroupVersionKind K obj = g \<and> n = qualifiedName K obj \<and> plainName K obj)"

lemma foldl_if: "foldl (\<lambda>r x. if P x then f r x else r) a xs = foldl f a (filter P xs)"
  by (induction xs arbitrary: a) simp_all

lemma lookup_initGroups: "lookupObj m g n = None \<Longrightarrow> lookupObj (foldl RelativeObjectMap_InitGroup m gs) g n = None"
  by (induction gs arbitrary: m)
    (auto simp: RelativeObjectMap_InitGroup_def lookupObj_def update_conv' split: option.splits)

lemma gvks_insAll:
  "dom (map_of (foldl (RelativeObjectMap_Insert K p) m objs)) = dom (map_of m) \<union> GroupVersionKind K ` set objs"
  by (induction objs arbitrary: m)
    (auto simp: RelativeObjectMap_Insert_def RelativeObjectMap_InitGroup_def Let_def update_conv' split: if_splits option.splits)

lemma gvks_initGroups: "dom (map_of (foldl RelativeObjectMap_InitGroup m gs)) = dom (map_of m) \<union> set gs"
  by (induction gs arbitrary: m) (auto simp: RelativeObjectMap_InitGroup_def update_conv' split: if_splits)

text \<open>Converting a uniform map for a namespaced parent gives exactly the objects of the parent's
  namespace, each under its plain name, and drops cluster-scoped objects and those of other
  namespaces; every type of the original map is still present, possibly with no objects.\<close>

theorem Convert_namespaced:
  assumes "uniformlyKeyed K m" "moNamespace parent \<noteq> ''''"
    and "CHR ''/'' \<notin> set (moNamespace parent)" "CHR ''/'' \<notin> set n"
  shows "lookupObj (UniformObjectMap_Convert K parent m) g n = lookupObj m g (moNamespace parent @ ''/'' @ n) \<and>
     fst ` set m \<subseteq> dom (map_of (UniformObjectMap_Convert K parent m))"
proof -
  let ?ns = "moNamespace parent"
  let ?objs = "filter (\<lambda>c. ?ns = GetNamespace K c) (UniformObjectMap_List m)"
  let ?P = "\<lambda>obj. GroupVersionKind K obj = g \<and> relativeName K parent obj = n"
  have conv: "UniformObjectMap_Convert K parent m =
      foldl (RelativeObjectMap_Insert K parent) (foldl RelativeObjectMap_InitGroup [] (map fst m)) ?objs"
    using assms(2) by (simp add: UniformObjectMap_Convert_def Let_def foldl_if)
  have listed: "obj \<in> set (UniformObjectMap_List m) \<longleftrightarrow> (\<exists>g n. lookupObj m g n = Some obj)" for obj
    using uom.list_lookup assms(1) unfolding lookup_uom uniformlyKeyed_def by blast
  have look: "lookupObj (UniformObjectMap_Convert K parent m) g n = find ?P (rev ?objs)"
    unfolding conv lookup_rom [symmetric] rom.lookup_insAll
    using lookup_initGroups [of "[]" g n "map fst m"]
    by (simp add: lookup_rom lookupObj_def split: option.split)
  have fwd: "lookupObj m g (?ns @ ''/'' @ n) = Some obj" if "find ?P (rev ?objs) = Some obj" for obj
  proof -
    from find_SomeD [OF that] have o: "obj \<in> set ?objs" "?P obj" by simp_all
    then obtain g' n' where l: "lookupObj m g' n' = Some obj" using listed by auto
    with assms(1) have "GroupVersionKind K obj = g'" "n' = qualifiedName K obj"
      unfolding uniformlyKeyed_def by blast+
    with assms(2) o l show ?thesis by (auto simp: qualifiedName_def relativeName_def)
  qed
  have bwd: "find ?P (rev ?objs) \<noteq> None" if l: "lookupObj m g (?ns @ ''/'' @ n) = Some obj" for obj
  proof -
    from l assms(1) have o: "GroupVersionKind K obj = g" "qualifiedName K obj = ?ns @ ''/'' @ n" "plainName K obj"
      by (auto simp: uniformlyKeyed_def)
    have "GetNamespace K obj \<noteq> ''''" using o(2,3) by (auto simp: qualifiedName_def plainName_def)
    then have "GetNamespace K obj = ?ns" "GetName K obj = n"
      using o(2,3) assms(3) append_sep_eq [of "CHR ''/''" "GetNamespace K obj" ?ns "GetName K obj" n]
      by (auto simp: qualifiedName_def plainName_def)
    with o(1) l listed assms(2) have "obj \<in> set ?objs" "?P obj" by (auto simp: relativeName_def)
    then show ?thesis by (auto simp: find_None_iff)
  qed
  have "lookupObj (UniformObjectMap_Convert K parent m) g n = lookupObj m g (?ns @ ''/'' @ n)"
    unfolding look using fwd bwd by (cases "find ?P (rev ?objs)"; cases "lookupObj m g (?ns @ ''/'' @ n)") auto
  then show ?thesis
    unfolding conv gvks_insAll gvks_initGroups by auto
qed

lemma podMap_keyed: "uniformlyKeyed refK (MakeUniformObjectMap refK p [podObj ''a''])"
  by (auto simp: uniformlyKeyed_def MakeUniformObjectMap_def UniformObjectMap_InsertAll_def UniformObjectMap_Insert_def
      UniformObjectMap_InitGroup_def Let_def lookupObj_def wfMap_def plainName_def podObj_def refK_simps refName_def
      metaOf_def jget_def split: if_splits)

theorem Convert_namespaced_witness:
  "lookupObj (UniformObjectMap_Convert refK (metaU refK (podObj ''p'')) (MakeUniformObjectMap refK (metaU refK (podObj ''p'')) [podObj ''a'']))
     (GroupVersionKind refK (podObj ''a'')) ''a'' = Some (podObj ''a'')"
proof -
  have ns: "moNamespace (metaU refK (podObj ''p'')) = ''ns''"
    by (simp add: metaU_def refK_simps podObj_def metaOf_def jget_def)
  have "lookupObj (MakeUniformObjectMap refK (metaU refK (podObj ''p'')) [podObj ''a'']) (GroupVersionKind refK (podObj ''a'')) ''ns/a'' = Some (podObj ''a'')"
    by (simp add: MakeUniformObjectMap_def UniformObjectMap_InsertAll_def UniformObjectMap_Insert_def
      UniformObjectMap_InitGroup_def Let_def lookupObj_def podObj_def refK_simps refName_def qualifiedName_def metaOf_def jget_def)
  with Convert_namespaced [OF podMap_keyed, of "metaU refK (podObj ''p'')" "''a''"] ns show ?thesis by simp
qed

end
