(* ===== verification/ManageChildren.thy ===== *)
theory ManageChildren
  imports Apply Clientset ObjectMap
begin

text \<open>
  Reconciling children with the API server: \<^verbatim>\<open>pkg/controller/common/manage_children.go\<close> with the
  helpers of \<^verbatim>\<open>common.go\<close> and \<^verbatim>\<open>diff.go\<close>.  The package variable \<^verbatim>\<open>lastUpdatedCache\<close> is the
  second component of the state, beside the outside world.  \<^verbatim>\<open>ApplyOperation.desired\<close> is a pointer
  that the appliers mutate; the mutated object is passed on explicitly.  Log output is not modelled.
\<close>

section \<open>Helpers\<close>

definition describeObject :: "'w k8s \<Rightarrow> unstructured \<Rightarrow> string" where
  "describeObject K obj =
     (let ns = GetNamespace K obj in
      if ns \<noteq> '''' then GetKind K obj @ '' '' @ ns @ ''/'' @ GetName K obj
      else GetKind K obj @ '' '' @ GetName K obj)"

definition nullifyLastAppliedAnnotation :: "'w k8s \<Rightarrow> unstructured \<Rightarrow> unstructured" where
  "nullifyLastAppliedAnnotation K obj =
     (case GetAnnotations K obj of
        None \<Rightarrow> obj
      | Some annotations \<Rightarrow>
          if map_of annotations LastAppliedAnnotation = None then obj
          else SetAnnotations K obj (jdel LastAppliedAnnotation annotations))"

definition JsonMergePatch :: "'w k8s \<Rightarrow> unstructured \<Rightarrow> unstructured \<Rightarrow> err + string" where
  "JsonMergePatch K original desired =
     (case Marshal K (JObj (nullifyLastAppliedAnnotation K original)) of
        Inl e \<Rightarrow> Inl e
      | Inr originalJson \<Rightarrow>
          (case Marshal K (JObj (nullifyLastAppliedAnnotation K desired)) of
             Inl e \<Rightarrow> Inl e
           | Inr desiredJson \<Rightarrow> CreateMergePatch K originalJson desiredJson))"

definition objectMetaSystemFields :: "string list" where
  "objectMetaSystemFields =
     [''selfLink'', ''uid'', ''resourceVersion'', ''generation'', ''creationTimestamp'', ''deletionTimestamp'',
      ''deletionGracePeriodSeconds'', ''managedFields'']"

definition revertField :: "'w k8s \<Rightarrow> unstructured \<Rightarrow> string list \<Rightarrow> unstructured \<Rightarrow> err + unstructured" where
  "revertField K orig fieldPath newObj =
     (case NestedFieldNoCopy K orig fieldPath of
        Inl e \<Rightarrow> Inl (Errorf (''can't traverse UnstructuredContent to look for field ['' @ joinWith '' '' fieldPath @ '']'') (Some e))
      | Inr (Some field) \<Rightarrow>
          (case SetNestedField K newObj field fieldPath of
             Inl e \<Rightarrow> Inl (Errorf (''can't revert field ['' @ joinWith '' '' fieldPath @ '']'') (Some e))
           | Inr o' \<Rightarrow> Inr o')
      | Inr None \<Rightarrow> Inr (RemoveNestedField K newObj fieldPath))"

fun revertFields :: "'w k8s \<Rightarrow> unstructured \<Rightarrow> string list \<Rightarrow> unstructured \<Rightarrow> err + unstructured" where
  "revertFields K orig [] newObj = Inr newObj"
| "revertFields K orig (fieldName # fieldNames) newObj =
     (case revertField K orig [''metadata'', fieldName] newObj of
        Inl e \<Rightarrow> Inl e
      | Inr o' \<Rightarrow> revertFields K orig fieldNames o')"

definition revertObjectMetaSystemFields :: "'w k8s \<Rightarrow> unstructured \<Rightarrow> unstructured \<Rightarrow> err + unstructured" where
  "revertObjectMetaSystemFields K newObj orig = revertFields K orig objectMetaSystemFields newObj"

text \<open>A failure to record the last-applied annotation is logged and ignored.\<close>

definition ApplyUpdate :: "'w k8s \<Rightarrow> unstructured \<Rightarrow> unstructured \<Rightarrow> err + unstructured" where
  "ApplyUpdate K orig update =
     (case GetLastApplied K orig of
        Inl e \<Rightarrow> Inl e
      | Inr lastApplied \<Rightarrow>
          (let update = nullifyLastAppliedAnnotation K update in
           case Merge orig lastApplied update of
             Inl e \<Rightarrow> Inl e
           | Inr newObj \<Rightarrow>
               (case revertObjectMetaSystemFields K newObj orig of
                  Inl e \<Rightarrow> Inl (Errorf ''failed to revert ObjectMeta system fields'' (Some e))
                | Inr newObj \<Rightarrow>
                    (case revertField K orig [''status''] newObj of
                       Inl e \<Rightarrow> Inl (Errorf ''failed to revert .status'' (Some e))
                     | Inr newObj \<Rightarrow>
                         (case SetLastApplied K newObj update of
                            Inl _ \<Rightarrow> Inr newObj
                          | Inr newObj \<Rightarrow> Inr newObj)))))"

definition MakeControllerRef :: "'w k8s \<Rightarrow> unstructured \<Rightarrow> OwnerReference" where
  "MakeControllerRef K parent =
     \<lparr>orAPIVersion = GetAPIVersion K parent, orKind = GetKind K parent, orName = GetName K parent,
      orUID = GetUID K parent, orController = Some True, orBlockOwnerDeletion = Some True\<rparr>"

definition claimOwnership :: "'w k8s \<Rightarrow> unstructured \<Rightarrow> unstructured \<Rightarrow> unstructured" where
  "claimOwnership K parent desired =
     (let controllerRef = MakeControllerRef K parent; ownerRefs = GetOwnerReferences K desired in
      if list_ex (\<lambda>ref. orUID ref = orUID controllerRef) ownerRefs then desired
      else SetOwnerReferences K desired (ownerRefs @ [controllerRef]))"

section \<open>The last-update cache\<close>

record lastUpdate =
  luHash :: "64 word"
  luGeneration :: int
  luResourceVersion :: string
  luUID :: string

type_synonym lastUpdateCache = "(string \<times> lastUpdate) list"
type_synonym ('w, 'a) cstate = "('w \<times> lastUpdateCache, 'a) state"

definition LastUpdateCache_Set :: "string \<Rightarrow> 64 word \<Rightarrow> int \<Rightarrow> string \<Rightarrow> string \<Rightarrow> ('w, unit) cstate" where
  "LastUpdateCache_Set key hash generation resourceVersion uid =
     State (\<lambda>(w, cache). ((), (w, AList.update key
       \<lparr>luHash = hash, luGeneration = generation, luResourceVersion = resourceVersion, luUID = uid\<rparr> cache)))"

definition LastUpdateCache_Delete :: "string \<Rightarrow> ('w, unit) cstate" where
  "LastUpdateCache_Delete key = State (\<lambda>(w, cache). ((), (w, AList.delete key cache)))"

definition getCache :: "('w, lastUpdateCache) cstate" where
  "getCache = State (\<lambda>(w, cache). (cache, (w, cache)))"

definition lastUpdateCacheKey :: "'w k8s \<Rightarrow> ResourceClient \<Rightarrow> unstructured \<Rightarrow> string" where
  "lastUpdateCacheKey K client obj =
     arGroup (rcAPIResource client) @ ''/'' @ arKind (rcAPIResource client) @ ''/'' @
     GetNamespace K obj @ ''/'' @ GetName K obj"

definition isCacheInvalid :: "'w k8s \<Rightarrow> lastUpdateCache \<Rightarrow> string \<Rightarrow> unstructured \<Rightarrow> 64 word \<Rightarrow> bool" where
  "isCacheInvalid K cache cacheKeyName observed desiredHash =
     (case map_of cache cacheKeyName of
        None \<Rightarrow> True
      | Some lastUpdated \<Rightarrow>
          if luUID lastUpdated \<noteq> GetUID K observed then True
          else if luHash lastUpdated \<noteq> desiredHash then True
          else if GetGeneration K observed = 0 \<and> GetResourceVersion K observed \<noteq> luResourceVersion lastUpdated then True
          else if luGeneration lastUpdated \<noteq> GetGeneration K observed then True
          else False)"

section \<open>Deleting\<close>

definition deletePrecondition :: "'w k8s \<Rightarrow> unstructured \<Rightarrow> deleteOptions" where
  "deletePrecondition K obj = \<lparr>doUID = Some (GetUID K obj), doPropagation = Some ''Background''\<rparr>"

definition deleteChild :: "'w k8s \<Rightarrow> ResourceClient \<Rightarrow> objectGroup option \<Rightarrow> string \<times> unstructured \<Rightarrow> ('w, err option) cstate" where
  "deleteChild K client desired p =
     (let obj = snd p in
      if GetDeletionTimestamp K obj \<noteq> None then State_Monad.return None
      else if desired = None \<or> map_of (orNil desired) (fst p) = None then
        do { r \<leftarrow> liftFst (ApiDelete K (rcInterface (ResourceClient_Namespace client (GetNamespace K obj)))
                   (GetName K obj) (deletePrecondition K obj));
             case r of
               Some e \<Rightarrow> State_Monad.return
                  (if IsNotFound K e then None else Some (Errorf (''can't delete '' @ describeObject K obj) (Some e)))
             | None \<Rightarrow> do { LastUpdateCache_Delete (lastUpdateCacheKey K client obj); State_Monad.return None } }
      else State_Monad.return None)"

definition deleteChildren :: "'w k8s \<Rightarrow> ResourceClient \<Rightarrow> objectGroup \<Rightarrow> objectGroup option \<Rightarrow> ('w, err option) cstate" where
  "deleteChildren K client observed desired =
     do { errs \<leftarrow> collectErrs (deleteChild K client desired) observed;
          State_Monad.return (NewAggregate K errs) }"

section \<open>Applying\<close>

record ApplyOptions =
  aoFieldManager :: string
  aoStrategy :: string

type_synonym getMethod = "string \<Rightarrow> string \<Rightarrow> ChildUpdateMethod"

record ApplyOperation =
  opUpdateStrategy :: getMethod
  opParent :: unstructured
  opObserved :: "unstructured option"
  opDesired :: unstructured

definition sanitizeForSSACompare :: "'w k8s \<Rightarrow> unstructured \<Rightarrow> unstructured" where
  "sanitizeForSSACompare K obj =
     (let c = foldl (\<lambda>c fieldName. RemoveNestedField K c [''metadata'', fieldName]) obj objectMetaSystemFields;
          c = RemoveNestedField K c [''status'']
      in nullifyLastAppliedAnnotation K c)"

definition childUpdateRecreate :: "'w k8s \<Rightarrow> ResourceClient \<Rightarrow> unstructured \<Rightarrow> unstructured \<Rightarrow> ('w, err option) cstate" where
  "childUpdateRecreate K client observed desired =
     do { r \<leftarrow> liftFst (ApiDelete K (rcInterface (ResourceClient_Namespace client (GetNamespace K desired)))
                 (GetName K desired) (deletePrecondition K observed));
          State_Monad.return (case r of
              None \<Rightarrow> None
            | Some e \<Rightarrow> if IsNotFound K e then None else Some e) }"

definition childUpdateOnDelete :: "('w, err option) cstate" where
  "childUpdateOnDelete = State_Monad.return None"

definition unknownMethod :: "ResourceClient \<Rightarrow> ChildUpdateMethod \<Rightarrow> err" where
  "unknownMethod client m =
     Errorf (''invalid update strategy for '' @ arKind (rcAPIResource client) @ '': unknown method '' @ fmtQ m) None"

definition createChild :: "'w k8s \<Rightarrow> ResourceClient \<Rightarrow> ApplyOperation \<Rightarrow> ('w, err option) cstate" where
  "createChild K client op =
     (case SetLastApplied K (opDesired op) (opDesired op) of
        Inl e \<Rightarrow> State_Monad.return (Some e)
      | Inr desired \<Rightarrow>
          (let desired = claimOwnership K (opParent op) desired in
           do { r \<leftarrow> liftFst (ApiCreate K (rcInterface (ResourceClient_Namespace client (GetNamespace K desired))) desired);
                State_Monad.return (case r of
                    Inr _ \<Rightarrow> None
                  | Inl e \<Rightarrow> if IsAlreadyExists K e then None else Some e) }))"

definition updateInPlace :: "'w k8s \<Rightarrow> ResourceClient \<Rightarrow> unstructured \<Rightarrow> unstructured \<Rightarrow> ('w, err option) cstate" where
  "updateInPlace K client desired newObj =
     do { r \<leftarrow> liftFst (ApiUpdate K (rcInterface (ResourceClient_Namespace client (GetNamespace K desired))) newObj);
          State_Monad.return (case r of
              Inr _ \<Rightarrow> None
            | Inl e \<Rightarrow> if IsNotFound K e then None else if IsConflict K e then None else Some e) }"

definition DynamicApply_Apply :: "'w k8s \<Rightarrow> ResourceClient \<Rightarrow> ApplyOperation \<Rightarrow> ('w, err option) cstate" where
  "DynamicApply_Apply K client op =
     (case opObserved op of
        Some observed \<Rightarrow>
          (case ApplyUpdate K observed (opDesired op) of
             Inl e \<Rightarrow> State_Monad.return (Some e)
           | Inr newObj \<Rightarrow>
               if newObj = observed then State_Monad.return None
               else if GetDeletionTimestamp K observed \<noteq> None then State_Monad.return None
               else
                 (let m = opUpdateStrategy op (arGroup (rcAPIResource client)) (arKind (rcAPIResource client)) in
                  if m = ChildUpdateOnDelete \<or> m = '''' then childUpdateOnDelete
                  else if m = ChildUpdateRecreate \<or> m = ChildUpdateRollingRecreate
                  then childUpdateRecreate K client observed (opDesired op)
                  else if m = ChildUpdateInPlace \<or> m = ChildUpdateRollingInPlace
                  then updateInPlace K client (opDesired op) newObj
                  else State_Monad.return (Some (unknownMethod client m))))
      | None \<Rightarrow> createChild K client op)"

text \<open>The final server-side apply of \<^verbatim>\<open>ServerSideApply.Apply\<close>, with the cache update.\<close>

definition ssaPatch :: "'w k8s \<Rightarrow> ResourceClient \<Rightarrow> ApplyOptions \<Rightarrow> unstructured \<Rightarrow> string
    \<Rightarrow> (int \<Rightarrow> string \<Rightarrow> string \<Rightarrow> ('w, unit) cstate) \<Rightarrow> ('w, err option) cstate" where
  "ssaPatch K client opts desired data storeState =
     do { r \<leftarrow> liftFst (ApiPatch K (rcInterface (ResourceClient_Namespace client (GetNamespace K desired)))
                 (GetName K desired) ApplyPatchType data
                 \<lparr>poFieldManager = aoFieldManager opts, poForce = True, poDryRun = False\<rparr>);
          case r of
            Inl e \<Rightarrow> State_Monad.return (if IsConflict K e then None else Some e)
          | Inr patched \<Rightarrow>
              do { storeState (GetGeneration K patched) (GetResourceVersion K patched) (GetUID K patched);
                   State_Monad.return None } }"

text \<open>The \<^verbatim>\<open>Recreate\<close> case: a dry run decides whether the child must be deleted.\<close>

definition ssaRecreate :: "'w k8s \<Rightarrow> ResourceClient \<Rightarrow> ApplyOptions \<Rightarrow> unstructured \<Rightarrow> unstructured \<Rightarrow> string
    \<Rightarrow> (int \<Rightarrow> string \<Rightarrow> string \<Rightarrow> ('w, unit) cstate) \<Rightarrow> ('w, err option) cstate" where
  "ssaRecreate K client opts observed desired data storeState =
     do { r \<leftarrow> liftFst (ApiPatch K (rcInterface (ResourceClient_Namespace client (GetNamespace K desired)))
                 (GetName K desired) ApplyPatchType data
                 \<lparr>poFieldManager = aoFieldManager opts, poForce = True, poDryRun = True\<rparr>);
          case r of
            Inl e \<Rightarrow>
              if IsBadRequest K e \<or> IsForbidden K e
              then do { storeState (GetGeneration K observed) (GetResourceVersion K observed) (GetUID K observed);
                        State_Monad.return None }
              else State_Monad.return (Some (Errorf ''dry run failed for server-side apply'' (Some e)))
          | Inr dryRunPatched \<Rightarrow>
              if GetGeneration K observed \<noteq> GetGeneration K dryRunPatched \<or> GetUID K observed \<noteq> GetUID K dryRunPatched
              then State_Monad.return (Some (Errorf (''generation or UID changed during dry run for server-side apply, expected generation ''
                     @ showInt (GetGeneration K observed) @ '' and UID '' @ GetUID K observed @ '' but got generation ''
                     @ showInt (GetGeneration K dryRunPatched) @ '' and UID '' @ GetUID K dryRunPatched
                     @ '', this likely means the object was updated after we read it, retrying on next reconciliation loop to avoid unnecessary delete and recreate'') None))
              else if sanitizeForSSACompare K dryRunPatched = sanitizeForSSACompare K observed
              then do { storeState (GetGeneration K observed) (GetResourceVersion K observed) (GetUID K observed);
                        State_Monad.return None }
              else do { e \<leftarrow> childUpdateRecreate K client observed desired;
                        case e of
                          Some x \<Rightarrow> State_Monad.return (Some x)
                        | None \<Rightarrow> do { LastUpdateCache_Delete (lastUpdateCacheKey K client desired);
                                       State_Monad.return None } } }"

text \<open>The \<^verbatim>\<open>InPlace\<close> case: \<open>None\<close> falls through to the final apply, \<open>Some r\<close> returns \<open>r\<close>.\<close>

definition ssaDropAnnotation :: "'w k8s \<Rightarrow> ResourceClient \<Rightarrow> unstructured \<Rightarrow> unstructured \<Rightarrow> ('w, err option option) cstate" where
  "ssaDropAnnotation K client observed desired =
     (if map_of (orNil (GetAnnotations K observed)) LastAppliedAnnotation = None then State_Monad.return None
      else
        do { r \<leftarrow> liftFst (ApiPatch K (rcInterface (ResourceClient_Namespace client (GetNamespace K desired)))
                    (GetName K desired) JSONPatchType
                    (''[{\"op\": \"remove\", \"path\": \"/metadata/annotations/'' @
                     replaceAll (replaceAll LastAppliedAnnotation (CHR ''~'') ''~0'') (CHR ''/'') ''~1'' @ ''\"}]'')
                    \<lparr>poFieldManager = '''', poForce = False, poDryRun = False\<rparr>);
             State_Monad.return (case r of
                 Inr _ \<Rightarrow> None
               | Inl e \<Rightarrow> if IsNotFound K e then Some None else Some (Some e)) })"

definition ServerSideApply_Apply :: "'w k8s \<Rightarrow> ResourceClient \<Rightarrow> ApplyOptions \<Rightarrow> ApplyOperation \<Rightarrow> ('w, err option) cstate" where
  "ServerSideApply_Apply K client opts op =
     (if (case opObserved op of Some observed \<Rightarrow> GetDeletionTimestamp K observed \<noteq> None | None \<Rightarrow> False)
      then State_Monad.return None
      else
        (let desired = sanitizeForSSACompare K (claimOwnership K (opParent op) (opDesired op)) in
         case JsonMarshal K (JObj desired) of
           Inl e \<Rightarrow> State_Monad.return (Some e)
         | Inr data \<Rightarrow>
             (let desiredHash = Sum64 K data;
                  cacheKeyName = lastUpdateCacheKey K client desired;
                  storeState = LastUpdateCache_Set cacheKeyName desiredHash
              in case opObserved op of
                   None \<Rightarrow> ssaPatch K client opts desired data storeState
                 | Some observed \<Rightarrow>
                     do { cache \<leftarrow> getCache;
                          if \<not> isCacheInvalid K cache cacheKeyName observed desiredHash then State_Monad.return None
                          else
                            (let m = opUpdateStrategy op (arGroup (rcAPIResource client)) (arKind (rcAPIResource client)) in
                             if m = ChildUpdateOnDelete \<or> m = '''' then
                               do { r \<leftarrow> childUpdateOnDelete;
                                    storeState (GetGeneration K observed) (GetResourceVersion K observed) (GetUID K observed);
                                    State_Monad.return r }
                             else if m = ChildUpdateRecreate \<or> m = ChildUpdateRollingRecreate
                             then ssaRecreate K client opts observed desired data storeState
                             else if m = ChildUpdateInPlace \<or> m = ChildUpdateRollingInPlace then
                               do { r \<leftarrow> ssaDropAnnotation K client observed desired;
                                    case r of
                                      Some x \<Rightarrow> State_Monad.return x
                                    | None \<Rightarrow> ssaPatch K client opts desired data storeState }
                             else State_Monad.return (Some (unknownMethod client m))) })))"

datatype Applier = DynamicApply ResourceClient | ServerSideApply ResourceClient ApplyOptions

definition NewApplier :: "ResourceClient \<Rightarrow> ApplyOptions \<Rightarrow> err + Applier" where
  "NewApplier client opts =
     (if aoStrategy opts = ''dynamic-apply'' \<or> aoStrategy opts = '''' then Inr (DynamicApply client)
      else if aoStrategy opts = ''server-side-apply'' then Inr (ServerSideApply client opts)
      else Inl (Errorf (''invalid apply strategy: unknown strategy '' @ fmtQ (aoStrategy opts)) None))"

fun Applier_Apply :: "'w k8s \<Rightarrow> Applier \<Rightarrow> ApplyOperation \<Rightarrow> ('w, err option) cstate" where
  "Applier_Apply K (DynamicApply client) op = DynamicApply_Apply K client op"
| "Applier_Apply K (ServerSideApply client opts) op = ServerSideApply_Apply K client opts op"

definition updateChildren :: "'w k8s \<Rightarrow> ResourceClient \<Rightarrow> getMethod \<Rightarrow> unstructured \<Rightarrow> objectGroup option \<Rightarrow> objectGroup
    \<Rightarrow> ApplyOptions \<Rightarrow> ('w, err option) cstate" where
  "updateChildren K client updateStrategy parent observed desired opts =
     (case NewApplier client opts of
        Inl e \<Rightarrow> State_Monad.return (Some e)
      | Inr applier \<Rightarrow>
          do { errs \<leftarrow> collectErrs (\<lambda>p. Applier_Apply K applier
                 \<lparr>opUpdateStrategy = updateStrategy, opParent = parent,
                  opObserved = map_of (orNil observed) (fst p), opDesired = snd p\<rparr>) desired;
               State_Monad.return (NewAggregate K errs) })"

section \<open>Managing all children\<close>

definition manageDeletes :: "'w k8s \<Rightarrow> Clientset \<Rightarrow> ObjectMap \<Rightarrow> ObjectMap option \<Rightarrow> gvk \<Rightarrow> ('w, err option) cstate" where
  "manageDeletes K dynClient observedChildren desiredChildren g =
     (case ObjectMap_GetObjectsByGVK observedChildren g of
        None \<Rightarrow> State_Monad.return None
      | Some objects \<Rightarrow>
          (case Clientset_Kind K dynClient (GroupVersionString K (gvkGroup g) (gvkVersion g)) (gvkKind g) of
             Inl e \<Rightarrow> State_Monad.return (Some e)
           | Inr client \<Rightarrow>
               deleteChildren K client objects
                 (case desiredChildren of None \<Rightarrow> None | Some d \<Rightarrow> ObjectMap_GetObjectsByGVK d g)))"

definition manageUpdates :: "'w k8s \<Rightarrow> Clientset \<Rightarrow> getMethod \<Rightarrow> unstructured \<Rightarrow> ObjectMap option \<Rightarrow> ObjectMap
    \<Rightarrow> ApplyOptions \<Rightarrow> gvk \<Rightarrow> ('w, err option) cstate" where
  "manageUpdates K dynClient updateStrategy parent observedChildren desiredChildren opts g =
     (case ObjectMap_GetObjectsByGVK desiredChildren g of
        None \<Rightarrow> State_Monad.return None
      | Some objects \<Rightarrow>
          (case Clientset_Kind K dynClient (GroupVersionString K (gvkGroup g) (gvkVersion g)) (gvkKind g) of
             Inl e \<Rightarrow> State_Monad.return (Some e)
           | Inr client \<Rightarrow>
               updateChildren K client updateStrategy parent
                 (case observedChildren of None \<Rightarrow> None | Some d \<Rightarrow> ObjectMap_GetObjectsByGVK d g) objects opts))"

definition ManageChildren :: "'w k8s \<Rightarrow> Clientset \<Rightarrow> getMethod \<Rightarrow> unstructured \<Rightarrow> ObjectMap option \<Rightarrow> ObjectMap option
    \<Rightarrow> ApplyOptions \<Rightarrow> ('w, err option) cstate" where
  "ManageChildren K dynClient updateStrategy parent observedChildren desiredChildren opts =
     do { errs1 \<leftarrow> (case observedChildren of
              None \<Rightarrow> State_Monad.return []
            | Some o' \<Rightarrow> collectErrs (manageDeletes K dynClient o' desiredChildren) (ObjectMap_GetAllGVKs o'));
          errs2 \<leftarrow> (case desiredChildren of
              None \<Rightarrow> State_Monad.return []
            | Some d \<Rightarrow> collectErrs (manageUpdates K dynClient updateStrategy parent observedChildren d opts) (ObjectMap_GetAllGVKs d));
          State_Monad.return (NewAggregate K (errs1 @ errs2)) }"


section \<open>The contract of an applier\<close>

lemma silent_cache [pres]:
  "silent (LastUpdateCache_Set k h g r u)" "silent (LastUpdateCache_Delete k)" "silent getCache" "silent childUpdateOnDelete"
  by (simp_all add: silent_def LastUpdateCache_Set_def LastUpdateCache_Delete_def getCache_def childUpdateOnDelete_def)

lemmas preserves_cache [pres] = silent_cache [THEN silent_preserves]

text \<open>Whatever the strategy, a child that is pending deletion and a child whose update method is
  \<^verbatim>\<open>OnDelete\<close> cause no request.\<close>

locale applier =
  fixes K :: "'w k8s"
    and client :: ResourceClient
    and apply' :: "ApplyOperation \<Rightarrow> ('w, err option) cstate"
  assumes pending: "opObserved op = Some ob \<Longrightarrow> GetDeletionTimestamp K ob \<noteq> None \<Longrightarrow> silent (apply' op)"
    and onDelete: "opObserved op = Some ob \<Longrightarrow>
      opUpdateStrategy op (arGroup (rcAPIResource client)) (arKind (rcAPIResource client)) \<in> {ChildUpdateOnDelete, ''''} \<Longrightarrow>
      silent (apply' op)"
begin

lemma frozen_silent:
  assumes "\<And>p. p \<in> set desired \<Longrightarrow> \<exists>ob. map_of observed (fst p) = Some ob \<and>
      (GetDeletionTimestamp K ob \<noteq> None \<or>
       strategy (arGroup (rcAPIResource client)) (arKind (rcAPIResource client)) \<in> {ChildUpdateOnDelete, ''''})"
  shows "silent (collectErrs (\<lambda>p. apply' \<lparr>opUpdateStrategy = strategy, opParent = parent,
      opObserved = map_of observed (fst p), opDesired = snd p\<rparr>) desired)"
proof (rule silent_collectErrs)
  fix p
  assume "p \<in> set desired"
  from assms [OF this] obtain ob where ob: "map_of observed (fst p) = Some ob"
    and c: "GetDeletionTimestamp K ob \<noteq> None \<or>
       strategy (arGroup (rcAPIResource client)) (arKind (rcAPIResource client)) \<in> {ChildUpdateOnDelete, ''''}"
    by blast
  from c show "silent (apply' \<lparr>opUpdateStrategy = strategy, opParent = parent,
      opObserved = map_of observed (fst p), opDesired = snd p\<rparr>)"
    by (rule disjE) (rule pending [of _ ob] onDelete [of _ ob]; simp add: ob)+
qed

end

interpretation da: applier K client "DynamicApply_Apply K client" for K client
  by unfold_locales (auto simp: DynamicApply_Apply_def Let_def intro!: pres split: sum.split)

interpretation ssa: applier K client "ServerSideApply_Apply K client opts" for K client opts
  by unfold_locales (auto simp: ServerSideApply_Apply_def Let_def intro!: pres split: sum.split)

section \<open>Confinement\<close>

definition objectAt :: "ObjectMap option \<Rightarrow> gvk \<Rightarrow> string \<Rightarrow> unstructured option" where
  "objectAt m g n = (case m of None \<Rightarrow> None | Some x \<Rightarrow>
     (case ObjectMap_GetObjectsByGVK x g of None \<Rightarrow> None | Some grp \<Rightarrow> map_of grp n))"

abbreviation keepsW :: "('w \<Rightarrow> bool) \<Rightarrow> ('w, 'a) cstate \<Rightarrow> bool" where
  "keepsW P \<equiv> preserves (\<lambda>(w, c). P w)"

lemma deleteChild_confined:
  assumes "GetDeletionTimestamp K (snd p) = None \<Longrightarrow> map_of (orNil desired) (fst p) = None \<Longrightarrow>
     preserves P (ApiDelete K (rcInterface (ResourceClient_Namespace client (GetNamespace K (snd p))))
        (GetName K (snd p)) (deletePrecondition K (snd p)))"
  shows "keepsW P (deleteChild K client desired p)"
  using assms unfolding deleteChild_def Let_def
  by (auto intro!: pres split: option.split)

lemma childUpdateRecreate_confined:
  assumes "\<And>ri n. preserves P (ApiDelete K ri n (deletePrecondition K observed))"
  shows "keepsW P (childUpdateRecreate K client observed desired)"
  unfolding childUpdateRecreate_def by (auto intro!: pres assms)

lemma createChild_confined:
  assumes "\<And>ri d. SetLastApplied K (opDesired op) (opDesired op) = Inr d \<Longrightarrow>
     preserves P (ApiCreate K ri (claimOwnership K (opParent op) d))"
  shows "keepsW P (createChild K client op)"
  using assms unfolding createChild_def Let_def by (auto intro!: pres split: sum.split)

lemma updateInPlace_confined:
  assumes "\<And>ri. preserves P (ApiUpdate K ri newObj)"
  shows "keepsW P (updateInPlace K client desired newObj)"
  using assms unfolding updateInPlace_def by (auto intro!: pres)

lemma DynamicApply_confined:
  assumes create: "\<And>ri d. opObserved op = None \<Longrightarrow> SetLastApplied K (opDesired op) (opDesired op) = Inr d \<Longrightarrow>
       preserves P (ApiCreate K ri (claimOwnership K (opParent op) d))"
    and recreate: "\<And>ri n ob new. opObserved op = Some ob \<Longrightarrow> GetDeletionTimestamp K ob = None \<Longrightarrow>
       ApplyUpdate K ob (opDesired op) = Inr new \<Longrightarrow> new \<noteq> ob \<Longrightarrow> preserves P (ApiDelete K ri n (deletePrecondition K ob))"
    and update: "\<And>ri ob new. opObserved op = Some ob \<Longrightarrow> GetDeletionTimestamp K ob = None \<Longrightarrow>
       ApplyUpdate K ob (opDesired op) = Inr new \<Longrightarrow> new \<noteq> ob \<Longrightarrow> preserves P (ApiUpdate K ri new)"
  shows "keepsW P (DynamicApply_Apply K client op)"
proof (cases "opObserved op")
  case None
  with create show ?thesis by (auto simp: DynamicApply_Apply_def intro!: createChild_confined)
next
  case (Some ob)
  show ?thesis
  proof (cases "ApplyUpdate K ob (opDesired op)")
    case (Inl e)
    with Some show ?thesis by (simp add: DynamicApply_Apply_def pres)
  next
    case (Inr new)
    show ?thesis
    proof (cases "new = ob \<or> GetDeletionTimestamp K ob \<noteq> None")
      case True
      with Some Inr show ?thesis by (auto simp: DynamicApply_Apply_def intro!: pres)
    next
      case False
      then have ne: "new \<noteq> ob" "GetDeletionTimestamp K ob = None" by simp_all
      have "keepsW P (childUpdateRecreate K client ob (opDesired op))"
        by (rule childUpdateRecreate_confined) (rule recreate [OF Some ne(2) Inr ne(1)])
      moreover have "keepsW P (updateInPlace K client (opDesired op) new)"
        by (rule updateInPlace_confined) (rule update [OF Some ne(2) Inr ne(1)])
      ultimately show ?thesis
        using Some Inr ne by (simp add: DynamicApply_Apply_def Let_def pres)
    qed
  qed
qed

lemma manageDeletes_confined:
  assumes "\<And>ri n k ob. objectAt (Some observed) g k = Some ob \<Longrightarrow> GetDeletionTimestamp K ob = None \<Longrightarrow>
      objectAt desired g k = None \<Longrightarrow> preserves P (ApiDelete K ri n (deletePrecondition K ob))"
    and "\<And>grp. ObjectMap_GetObjectsByGVK observed g = Some grp \<Longrightarrow> distinct (map fst grp)"
  shows "keepsW P (manageDeletes K cs observed desired g)"
proof (cases "ObjectMap_GetObjectsByGVK observed g")
  case (Some objects)
  let ?des = "case desired of None \<Rightarrow> None | Some d \<Rightarrow> ObjectMap_GetObjectsByGVK d g"
  have "keepsW P (deleteChild K client ?des p)" if p: "p \<in> set objects" for client p
  proof (rule deleteChild_confined)
    assume "GetDeletionTimestamp K (snd p) = None" "map_of (orNil ?des) (fst p) = None"
    moreover have "objectAt (Some observed) g (fst p) = Some (snd p)"
      using Some p assms(2) by (simp add: objectAt_def)
    ultimately show "preserves P (ApiDelete K (rcInterface (ResourceClient_Namespace client (GetNamespace K (snd p))))
        (GetName K (snd p)) (deletePrecondition K (snd p)))"
      by (intro assms(1)) (auto simp: objectAt_def split: option.splits)
  qed
  then show ?thesis
    using Some by (auto simp: manageDeletes_def deleteChildren_def intro!: pres split: sum.split)
qed (simp add: manageDeletes_def pres)

lemma manageUpdates_dynamic_confined:
  assumes "aoStrategy opts \<noteq> ''server-side-apply''"
    and "\<And>grp. ObjectMap_GetObjectsByGVK desired g = Some grp \<Longrightarrow> distinct (map fst grp)"
    and create: "\<And>ri k des d. objectAt (Some desired) g k = Some des \<Longrightarrow> objectAt observed g k = None \<Longrightarrow>
       SetLastApplied K des des = Inr d \<Longrightarrow> preserves P (ApiCreate K ri (claimOwnership K parent d))"
    and recreate: "\<And>ri n k des ob new. objectAt (Some desired) g k = Some des \<Longrightarrow> objectAt observed g k = Some ob \<Longrightarrow>
       GetDeletionTimestamp K ob = None \<Longrightarrow> ApplyUpdate K ob des = Inr new \<Longrightarrow> new \<noteq> ob \<Longrightarrow>
       preserves P (ApiDelete K ri n (deletePrecondition K ob))"
    and update: "\<And>ri k des ob new. objectAt (Some desired) g k = Some des \<Longrightarrow> objectAt observed g k = Some ob \<Longrightarrow>
       GetDeletionTimestamp K ob = None \<Longrightarrow> ApplyUpdate K ob des = Inr new \<Longrightarrow> new \<noteq> ob \<Longrightarrow> preserves P (ApiUpdate K ri new)"
  shows "keepsW P (manageUpdates K cs strategy parent observed desired opts g)"
proof (cases "ObjectMap_GetObjectsByGVK desired g")
  case (Some objects)
  let ?obs = "case observed of None \<Rightarrow> None | Some d \<Rightarrow> ObjectMap_GetObjectsByGVK d g"
  have obs: "objectAt observed g k = map_of (orNil ?obs) k" for k
    by (simp add: objectAt_def split: option.split)
  have "keepsW P (DynamicApply_Apply K client \<lparr>opUpdateStrategy = strategy, opParent = parent,
      opObserved = map_of (orNil ?obs) (fst p), opDesired = snd p\<rparr>)" if p: "p \<in> set objects" for client p
  proof -
    have at: "objectAt (Some desired) g (fst p) = Some (snd p)"
      using Some p assms(2) by (simp add: objectAt_def)
    show ?thesis
      by (rule DynamicApply_confined)
        (use create [OF at] recreate [OF at] update [OF at] obs in auto)
  qed
  then have "keepsW P (updateChildren K client strategy parent ?obs objects opts)" for client
    using assms(1) by (auto simp: updateChildren_def NewApplier_def intro!: pres)
  then show ?thesis
    using Some by (auto simp: manageUpdates_def intro!: pres split: sum.split)
qed (simp add: manageUpdates_def pres)

lemma ObjectMap_gvk_group:
  "(\<forall>m'. m = RelativeObjectMap m' \<or> m = UniformObjectMap m' \<longrightarrow> wfMap m') \<Longrightarrow>
     ObjectMap_GetObjectsByGVK m g = Some grp \<Longrightarrow> distinct (map fst grp)"
  by (cases m) (auto simp: object_map_defs dest: wfMap_group)

section \<open>Properties\<close>

definition wfObjectMap :: "ObjectMap \<Rightarrow> bool" where
  "wfObjectMap m = (case m of RelativeObjectMap x \<Rightarrow> wfMap x | UniformObjectMap x \<Rightarrow> wfMap x)"

lemma wfObjectMap_group:
  "wfObjectMap m \<Longrightarrow> ObjectMap_GetObjectsByGVK m g = Some grp \<Longrightarrow> distinct (map fst grp)"
  by (rule ObjectMap_gvk_group [of m]) (auto simp: wfObjectMap_def)

text \<open>C2: Reconciling children (with the client-side apply strategy) makes no request beyond what the
  difference of observed and desired children calls for.  A deletion always carries the UID of an
  observed child that is not pending deletion, and that child is either not desired any more or
  differs from what is desired; an update writes the three-way merge of a child that is observed,
  desired, not pending deletion and different; a creation is of a desired child that is not
  observed, with the parent among its owners.\<close>

theorem ManageChildren_confined:
  assumes "wfObjectMap observed" "wfObjectMap desired" "aoStrategy opts \<noteq> ''server-side-apply''"
    and "\<And>ri n g k ob. objectAt (Some observed) g k = Some ob \<Longrightarrow> GetDeletionTimestamp K ob = None \<Longrightarrow>
       objectAt (Some desired) g k = None \<or>
       (\<exists>des new. objectAt (Some desired) g k = Some des \<and> ApplyUpdate K ob des = Inr new \<and> new \<noteq> ob) \<Longrightarrow>
       preserves P (ApiDelete K ri n (deletePrecondition K ob))"
    and "\<And>ri g k des ob new. objectAt (Some desired) g k = Some des \<Longrightarrow> objectAt (Some observed) g k = Some ob \<Longrightarrow>
       GetDeletionTimestamp K ob = None \<Longrightarrow> ApplyUpdate K ob des = Inr new \<Longrightarrow> new \<noteq> ob \<Longrightarrow> preserves P (ApiUpdate K ri new)"
    and "\<And>ri g k des d. objectAt (Some desired) g k = Some des \<Longrightarrow> objectAt (Some observed) g k = None \<Longrightarrow>
       SetLastApplied K des des = Inr d \<Longrightarrow> preserves P (ApiCreate K ri (claimOwnership K parent d))"
  shows "preserves (\<lambda>(w, c). P w) (ManageChildren K cs strategy parent (Some observed) (Some desired) opts)"
proof -
  have "keepsW P (manageDeletes K cs observed (Some desired) g)" for g
    by (rule manageDeletes_confined) (use assms(4) wfObjectMap_group [OF assms(1)] in blast)+
  moreover have "keepsW P (manageUpdates K cs strategy parent (Some observed) desired opts g)" for g
    by (rule manageUpdates_dynamic_confined [OF assms(3)])
      (use assms(4,5,6) wfObjectMap_group [OF assms(2)] in blast)+
  ultimately show ?thesis
    by (auto simp: ManageChildren_def intro!: pres)
qed

theorem ManageChildren_confined_witness:
  "preserves (\<lambda>(w, c). (''updateStatus'', ''p'') \<notin> set (wLog w))
     (ManageChildren refK \<lparr>csResources = NewResourceMap\<rparr> (\<lambda>_ _. ChildUpdateInPlace) []
        (Some (UniformObjectMap (MakeUniformObjectMap refK (metaU refK []) [podObj ''a''])))
        (Some (RelativeObjectMap [])) \<lparr>aoFieldManager = '''', aoStrategy = ''''\<rparr>)"
proof (rule ManageChildren_confined)
  show "wfObjectMap (UniformObjectMap (MakeUniformObjectMap refK (metaU refK []) [podObj ''a'']))"
    using podMap_keyed by (simp add: wfObjectMap_def uniformlyKeyed_def)
  show "wfObjectMap (RelativeObjectMap [])" by (simp add: wfObjectMap_def)
qed (simp_all add: refK_simps refDelete_def refPut_def preserves_def Let_def)

text \<open>C28: No child that should go is forgotten: every observed child that is not pending deletion and not
  desired gets a delete request with its UID as precondition, whatever errors the requests for
  other children end in.\<close>

theorem deleteChildren_complete:
  assumes "(name, obj) \<in> set observed" "GetDeletionTimestamp K obj = None"
    and "map_of (orNil desired) name = None"
    and "\<And>w. Q (snd (run_state (ApiDelete K (rcInterface (ResourceClient_Namespace client (GetNamespace K obj)))
              (GetName K obj) (deletePrecondition K obj)) w))"
    and "\<And>ri n opts. preserves Q (ApiDelete K ri n opts)"
  shows "Q (fst (snd (run_state (deleteChildren K client observed desired) s)))"
proof -
  let ?Q = "\<lambda>(w, c). Q w"
  have "?Q (snd (run_state (deleteChild K client desired (name, obj)) t))" for t
    using assms(2-4) by (cases t)
      (auto simp: deleteChild_def LastUpdateCache_Delete_def split: option.splits)
  then have "?Q (snd (run_state (collectErrs (deleteChild K client desired) observed) s))"
    by (rule collectErrs_reaches [OF assms(1)]) (intro deleteChild_confined assms(5))
  then show ?thesis by (auto simp: deleteChildren_def case_prod_beta)
qed

theorem deleteChildren_complete_witness:
  "(''delete'', ''a'') \<in> set (wLog (fst (snd (run_state
     (deleteChildren refK podClient [(''ns/a'', podObj ''a'')] None) (podStore, [])))))"
  by (rule deleteChildren_complete [where name = "''ns/a''" and obj = "podObj ''a''"])
    (simp_all add: refK_simps refDelete_def podObj_def metaOf_def jget_def refName_def preserves_def Let_def)


text \<open>The field at a path, if it is there, and the laws of the helpers that write it: setting or
  removing a field, or setting the annotations, changes no field at another of the paths the
  program reverts.\<close>

definition foundField :: "'w k8s \<Rightarrow> jobj \<Rightarrow> string list \<Rightarrow> json option" where
  "foundField K m fs = (case NestedFieldNoCopy K m fs of Inr x \<Rightarrow> x | Inl _ \<Rightarrow> None)"

definition revertedPath :: "string list \<Rightarrow> bool" where
  "revertedPath fs \<longleftrightarrow> fs = [''status''] \<or> (\<exists>f. f \<noteq> ''annotations'' \<and> fs = [''metadata'', f])"

definition field_law :: "'w k8s \<Rightarrow> bool" where
  "field_law K \<longleftrightarrow>
     (\<forall>fs m v m'. revertedPath fs \<longrightarrow> SetNestedField K m v fs = Inr m' \<longrightarrow>
        foundField K m' fs = Some v \<and> (\<forall>gs. revertedPath gs \<longrightarrow> gs \<noteq> fs \<longrightarrow> foundField K m' gs = foundField K m gs)) \<and>
     (\<forall>fs m. revertedPath fs \<longrightarrow>
        foundField K (RemoveNestedField K m fs) fs = None \<and>
        (\<forall>gs. revertedPath gs \<longrightarrow> gs \<noteq> fs \<longrightarrow> foundField K (RemoveNestedField K m fs) gs = foundField K m gs)) \<and>
     (\<forall>gs m a. revertedPath gs \<longrightarrow> foundField K (SetAnnotations K m a) gs = foundField K m gs)"

lemma revertField_spec:
  assumes "field_law K" "revertedPath fs" "revertField K orig fs m = Inr m'"
  shows "foundField K m' fs = foundField K orig fs \<and>
     (\<forall>gs. revertedPath gs \<longrightarrow> gs \<noteq> fs \<longrightarrow> foundField K m' gs = foundField K m gs)"
proof (cases "NestedFieldNoCopy K orig fs")
  case (Inr x)
  with assms show ?thesis
    by (cases x) (auto simp: revertField_def foundField_def [of K orig] field_law_def split: sum.splits)
qed (use assms(3) in \<open>simp add: revertField_def\<close>)

lemma revertFields_spec:
  assumes "field_law K" "''annotations'' \<notin> set fs" "revertFields K orig fs m = Inr m'" "f \<noteq> ''annotations''"
  shows "foundField K m' [''metadata'', f] =
     (if f \<in> set fs then foundField K orig [''metadata'', f] else foundField K m [''metadata'', f])"
  using assms(2,3)
proof (induction fs arbitrary: m)
  case (Cons a fs)
  then obtain m1 where m1: "revertField K orig [''metadata'', a] m = Inr m1" "revertFields K orig fs m1 = Inr m'"
    by (auto split: sum.splits)
  have a: "revertedPath [''metadata'', a]" using Cons.prems(1) by (auto simp: revertedPath_def)
  have f: "revertedPath [''metadata'', f]" using assms(4) by (simp add: revertedPath_def)
  have IH: "foundField K m' [''metadata'', f] =
      (if f \<in> set fs then foundField K orig [''metadata'', f] else foundField K m1 [''metadata'', f])"
    using Cons.prems(1) m1(2) by (intro Cons.IH) simp_all
  show ?case
    using IH revertField_spec [OF assms(1) a m1(1)] f by (cases "f = a") simp_all
qed simp

text \<open>C29: Applying an update never changes what the system owns: the read-only metadata fields
  (UID, resource version, generation, timestamps, managed fields) and the status of the result are
  those of the observed object, present or absent, whatever the update contains.\<close>

theorem ApplyUpdate_reverts:
  assumes "field_law K" "ApplyUpdate K orig update = Inr new"
  shows "list_all (\<lambda>f. foundField K new [''metadata'', f] = foundField K orig [''metadata'', f]) objectMetaSystemFields \<and>
     foundField K new [''status''] = foundField K orig [''status'']"
proof -
  obtain m1 m2 m3 where m: "revertFields K orig objectMetaSystemFields m1 = Inr m2" "revertField K orig [''status''] m2 = Inr m3"
      and new: "new = m3 \<or> (\<exists>a. new = SetAnnotations K m3 a)"
    using assms(2) unfolding ApplyUpdate_def revertObjectMetaSystemFields_def Let_def SetLastApplied_def
    by (auto split: sum.splits)
  have st: "revertedPath [''status'']" by (simp add: revertedPath_def)
  have f2: "foundField K m2 [''metadata'', f] = foundField K orig [''metadata'', f]" if "f \<in> set objectMetaSystemFields" for f
    using revertFields_spec [OF assms(1) _ m(1), of f] that by (auto simp: objectMetaSystemFields_def)
  have f3: "foundField K m3 [''metadata'', f] = foundField K orig [''metadata'', f]" if "f \<in> set objectMetaSystemFields" for f
    using revertField_spec [OF assms(1) st m(2)] f2 [OF that] that by (auto simp: revertedPath_def objectMetaSystemFields_def)
  have ann: "foundField K new gs = foundField K m3 gs" if "revertedPath gs" for gs
    using new assms(1) that by (auto simp: field_law_def)
  have path: "revertedPath [''metadata'', f]" if "f \<in> set objectMetaSystemFields" for f
    using that by (auto simp: revertedPath_def objectMetaSystemFields_def)
  show ?thesis
    unfolding list_all_iff using ann [OF path] ann [OF st] f3 revertField_spec [OF assms(1) st m(2)] by simp
qed

lemma found_refK:
  "foundField refK m [''status''] = map_of m ''status''"
  "foundField refK m [''metadata'', f] = (case map_of m ''metadata'' of Some (JObj n) \<Rightarrow> map_of n f | _ \<Rightarrow> None)"
  by (simp_all add: foundField_def refK_simps split: option.split json.split)

lemma set_refK: "SetNestedField refK m v [''status''] = Inr (jput ''status'' v m)"
  by (simp add: refK_simps)

lemma set_meta_refK:
  "SetNestedField refK m v [''metadata'', f] = Inr m' \<Longrightarrow>
     \<exists>n. (map_of m ''metadata'' = Some (JObj n) \<or> map_of m ''metadata'' = None \<and> n = []) \<and>
       m' = jput ''metadata'' (JObj (jput f v n)) m"
  by (auto simp: refK_simps split: option.splits json.splits)

lemma found_remove_status_refK:
  "foundField refK (RemoveNestedField refK m [''status'']) [''status''] = None"
  "foundField refK (RemoveNestedField refK m [''status'']) [''metadata'', f] = foundField refK m [''metadata'', f]"
  by (simp_all add: found_refK refK_simps)

lemma found_remove_meta_refK:
  "foundField refK (RemoveNestedField refK m [''metadata'', f]) [''status''] = foundField refK m [''status'']"
  "foundField refK (RemoveNestedField refK m [''metadata'', f]) [''metadata'', h] =
     (if h = f then None else foundField refK m [''metadata'', h])"
  by (simp_all add: found_refK refK_simps split: option.split json.split)

lemma refK_field: "field_law refK"
  unfolding field_law_def
proof (intro conjI allI impI)
  show "foundField refK m' fs = Some v" if "revertedPath fs" "SetNestedField refK m v fs = Inr m'" for fs m v m'
    using that by (auto simp: revertedPath_def found_refK set_refK dest!: set_meta_refK)
  show "foundField refK m' gs = foundField refK m gs"
    if "revertedPath fs" "SetNestedField refK m v fs = Inr m'" "revertedPath gs" "gs \<noteq> fs" for fs m v m' gs
    using that by (auto simp: revertedPath_def found_refK set_refK dest!: set_meta_refK split: if_splits)
  show "foundField refK (RemoveNestedField refK m fs) fs = None" if "revertedPath fs" for fs m
    using that by (auto simp: revertedPath_def found_remove_meta_refK found_remove_status_refK)
  show "foundField refK (RemoveNestedField refK m fs) gs = foundField refK m gs" if "revertedPath fs" "revertedPath gs" "gs \<noteq> fs" for fs gs m
    using that by (auto simp: revertedPath_def found_remove_meta_refK found_remove_status_refK split: if_splits)
  show "foundField refK (SetAnnotations refK m a) gs = foundField refK m gs" if "revertedPath gs" for gs m a
    using that by (auto simp: revertedPath_def found_refK refK_simps putMeta_def metaOf_def jget_def split: option.split json.split)
qed

theorem ApplyUpdate_reverts_witness:
  "\<exists>new. ApplyUpdate refK (podObj ''a'') [(''metadata'', JObj [(''uid'', JString ''x'')])] = Inr new \<and>
     foundField refK new [''metadata'', ''uid''] = Some (JString ''uid-a'')"
proof -
  obtain new where new: "ApplyUpdate refK (podObj ''a'') [(''metadata'', JObj [(''uid'', JString ''x'')])] = Inr new"
    by (simp add: ApplyUpdate_def GetLastApplied_def nullifyLastAppliedAnnotation_def refK_simps podObj_def metaOf_def jget_def
        strMapOf_def Merge_def merge_merged merged_simps objectM_def removeStale_def revertObjectMetaSystemFields_def
        objectMetaSystemFields_def revertField_def SetLastApplied_def jdel_def)
  have "foundField refK (podObj ''a'') [''metadata'', ''uid''] = Some (JString ''uid-a'')"
    by (simp add: foundField_def refK_simps podObj_def)
  with ApplyUpdate_reverts [OF refK_field new] new show ?thesis
    by (simp add: objectMetaSystemFields_def)
qed


lemma isCacheInvalid_iff:
  "\<not> isCacheInvalid K cache k ob h \<longleftrightarrow>
     (\<exists>lu. map_of cache k = Some lu \<and> luUID lu = GetUID K ob \<and> luHash lu = h \<and> luGeneration lu = GetGeneration K ob \<and>
        (GetGeneration K ob \<noteq> 0 \<or> luResourceVersion lu = GetResourceVersion K ob))"
  by (auto simp: isCacheInvalid_def split: option.splits)


definition ssaWitness :: ApplyOperation where
  "ssaWitness = \<lparr>opUpdateStrategy = (\<lambda>_ _. ChildUpdateInPlace), opParent = podObj ''p'', opObserved = None, opDesired = podObj ''a''\<rparr>"


text \<open>Whichever apply strategy is configured, children that are pending deletion, and children
  of a kind whose update method is \<^verbatim>\<open>OnDelete\<close> (or unset), are never touched once they exist:
  no request is made for them.\<close>

theorem updateChildren_frozen:
  assumes "\<And>p. p \<in> set desired \<Longrightarrow> \<exists>ob. map_of observed (fst p) = Some ob \<and>
      (GetDeletionTimestamp K ob \<noteq> None \<or>
       strategy (arGroup (rcAPIResource client)) (arKind (rcAPIResource client)) \<in> {ChildUpdateOnDelete, ''''})"
  shows "fst (snd (run_state (updateChildren K client strategy parent (Some observed) desired opts) (w, c))) = w"
proof -
  have "silent (collectErrs (\<lambda>p. Applier_Apply K a \<lparr>opUpdateStrategy = strategy, opParent = parent,
      opObserved = map_of observed (fst p), opDesired = snd p\<rparr>) desired)" if "NewApplier client opts = Inr a" for a
    using that da.frozen_silent [where K = K and client = client and strategy = strategy and observed = observed and desired = desired, OF assms]
      ssa.frozen_silent [where K = K and client = client and strategy = strategy and observed = observed and desired = desired, OF assms]
    by (auto simp: NewApplier_def split: if_splits)
  then have "silent (updateChildren K client strategy parent (Some observed) desired opts)"
    by (auto simp: updateChildren_def intro!: silent_bind silent_return split: sum.split)
  then show ?thesis by (simp add: silent_def)
qed

theorem updateChildren_frozen_witness:
  "fst (snd (run_state (updateChildren refK podClient (\<lambda>_ _. ChildUpdateOnDelete) (podObj ''p'') (Some [(''a'', podObj ''a'')])
     [(''a'', [(''x'', JInt 1)])] \<lparr>aoFieldManager = '''', aoStrategy = ''server-side-apply''\<rparr>) (podStore, []))) = podStore"
  by (rule updateChildren_frozen) simp

end
