(* ===== verification/ControllerRef.thy ===== *)
theory ControllerRef
  imports Clientset
begin

text \<open>
  Ownership of children: \<^verbatim>\<open>pkg/third_party/kubernetes/controller_ref_manager.go\<close> and
  \<^verbatim>\<open>pkg/dynamic/controllerref\<close>.  A manager runs its adoption check at most once
  (\<^verbatim>\<open>sync.Once\<close>): its private state, beside the outside world, is \<open>None\<close> before the check
  and \<open>Some e\<close> after it, where \<open>e\<close> is what the check returned.
\<close>

section \<open>Owner references\<close>

fun replaceOwner :: "OwnerReference \<Rightarrow> OwnerReference list \<Rightarrow> OwnerReference list \<times> bool" where
  "replaceOwner add [] = ([], False)"
| "replaceOwner add (ref # refs) =
     (let r = replaceOwner add refs in
      if orUID ref = orUID add then (add # fst r, True) else (ref # fst r, snd r))"

definition addOwnerReference :: "OwnerReference list \<Rightarrow> OwnerReference \<Rightarrow> OwnerReference list" where
  "addOwnerReference refs add =
     (let (out, found) = replaceOwner add refs in if \<not> found then out @ [add] else out)"

definition removeOwnerReference :: "OwnerReference list \<Rightarrow> string \<Rightarrow> OwnerReference list" where
  "removeOwnerReference refs uid = filter (\<lambda>ref. orUID ref \<noteq> uid) refs"

section \<open>The base manager\<close>

type_synonym once = "err option option"

record 'w BaseControllerRefManager =
  Controller :: metaObject
  Selector :: selector
  CanAdoptFunc :: "('w, err option) state option"

definition CanAdopt :: "('w, 'x) BaseControllerRefManager_scheme \<Rightarrow> ('w \<times> once, err option) state" where
  "CanAdopt m = State (\<lambda>(w, once).
     case once of
       Some e \<Rightarrow> (e, (w, once))
     | None \<Rightarrow> (case CanAdoptFunc m of
                  None \<Rightarrow> (None, (w, Some None))
                | Some f \<Rightarrow> (case run_state f w of (e, w') \<Rightarrow> (e, (w', Some e)))))"

definition ClaimObject :: "'w k8s \<Rightarrow> ('w, 'x) BaseControllerRefManager_scheme \<Rightarrow> ('o \<Rightarrow> metaObject) \<Rightarrow> ('o \<Rightarrow> bool)
    \<Rightarrow> ('o \<Rightarrow> ('s, err option) state) \<Rightarrow> ('o \<Rightarrow> ('s, err option) state) \<Rightarrow> 'o \<Rightarrow> ('s, bool \<times> err option) state" where
  "ClaimObject K m view match adopt release obj =
     (case GetControllerOf K (moOwnerReferences (view obj)) of
        Some controllerRef \<Rightarrow>
          if orUID controllerRef \<noteq> moUID (Controller m) then State_Monad.return (False, None)
          else if match obj then State_Monad.return (True, None)
          else if moDeletionTimestamp (Controller m) \<noteq> None then State_Monad.return (False, None)
          else do { r \<leftarrow> release obj;
                    State_Monad.return (case r of
                        None \<Rightarrow> (False, None)
                      | Some e \<Rightarrow> if IsNotFound K e then (False, None) else (False, Some e)) }
      | None \<Rightarrow>
          if moDeletionTimestamp (Controller m) \<noteq> None \<or> \<not> match obj then State_Monad.return (False, None)
          else if moDeletionTimestamp (view obj) \<noteq> None then State_Monad.return (False, None)
          else do { r \<leftarrow> adopt obj;
                    State_Monad.return (case r of
                        None \<Rightarrow> (True, None)
                      | Some e \<Rightarrow> if IsNotFound K e then (False, None) else (False, Some e)) })"

definition RecheckDeletionTimestamp :: "('w, err + metaObject) state \<Rightarrow> ('w, err option) state" where
  "RecheckDeletionTimestamp getObject =
     do { r \<leftarrow> getObject;
          State_Monad.return (case r of
              Inl e \<Rightarrow> Some (Errorf ''can't recheck DeletionTimestamp'' (Some e))
            | Inr obj \<Rightarrow> (case moDeletionTimestamp obj of
                  Some t \<Rightarrow> Some (Errorf (moNamespace obj @ ''/'' @ moName obj @ '' has just been deleted at '' @ t) None)
                | None \<Rightarrow> None)) }"

text \<open>The loop both managers run over the objects they may claim.\<close>

fun claimLoop :: "('o \<Rightarrow> ('s, bool \<times> err option) state) \<Rightarrow> 'o list \<Rightarrow> ('s, 'o list \<times> err list) state" where
  "claimLoop claim [] = State_Monad.return ([], [])"
| "claimLoop claim (child # children) =
     do { (ok, e) \<leftarrow> claim child;
          (claimed, errlist) \<leftarrow> claimLoop claim children;
          State_Monad.return (case e of
              Some x \<Rightarrow> (claimed, x # errlist)
            | None \<Rightarrow> (if ok then child # claimed else claimed, errlist)) }"

section \<open>Children\<close>

record 'w UnstructuredManager = "'w BaseControllerRefManager" +
  umParentKind :: gvk
  umChildKind :: gvk
  umClient :: ResourceClient

definition atomicUpdate :: "'w k8s \<Rightarrow> ResourceClient \<Rightarrow> unstructured \<Rightarrow> updateFn \<Rightarrow> ('w, err option) state" where
  "atomicUpdate K rc obj updateFunc =
     do { r \<leftarrow> AtomicUpdate K (ResourceClient_Namespace rc (GetNamespace K obj)) obj updateFunc;
          State_Monad.return (case r of Inl e \<Rightarrow> Some e | Inr _ \<Rightarrow> None) }"

definition controllerRefFor :: "'w k8s \<Rightarrow> metaObject \<Rightarrow> gvk \<Rightarrow> OwnerReference" where
  "controllerRefFor K parent parentKind =
     \<lparr>orAPIVersion = GroupVersionString K (gvkGroup parentKind) (gvkVersion parentKind), orKind = gvkKind parentKind,
      orName = moName parent, orUID = moUID parent, orController = Some True, orBlockOwnerDeletion = Some True\<rparr>"

definition adoptChild :: "'w k8s \<Rightarrow> 'w UnstructuredManager \<Rightarrow> unstructured \<Rightarrow> ('w \<times> once, err option) state" where
  "adoptChild K m child =
     do { c \<leftarrow> CanAdopt m;
          case c of
            Some e \<Rightarrow> State_Monad.return (Some (Errorf (''can't adopt '' @ gvkKind (umChildKind m) @ '' '' @
                GetNamespace K child @ ''/'' @ GetName K child @ '' ('' @ GetUID K child @ '')'') (Some e)))
          | None \<Rightarrow>
              liftFst (atomicUpdate K (umClient m) child (\<lambda>obj.
                (SetOwnerReferences K obj (addOwnerReference (GetOwnerReferences K obj)
                   (controllerRefFor K (Controller m) (umParentKind m))), True))) }"

definition releaseChild :: "'w k8s \<Rightarrow> 'w UnstructuredManager \<Rightarrow> unstructured \<Rightarrow> ('w \<times> once, err option) state" where
  "releaseChild K m obj =
     do { r \<leftarrow> liftFst (atomicUpdate K (umClient m) obj (\<lambda>obj.
                (SetOwnerReferences K obj (removeOwnerReference (GetOwnerReferences K obj) (moUID (Controller m))), True)));
          State_Monad.return (case r of
              None \<Rightarrow> None
            | Some e \<Rightarrow> if IsNotFound K e \<or> IsGone K e then None else Some e) }"

definition ClaimChildren :: "'w k8s \<Rightarrow> 'w UnstructuredManager \<Rightarrow> unstructured list
    \<Rightarrow> ('w \<times> once, unstructured list \<times> err option) state" where
  "ClaimChildren K m children =
     do { (claimed, errlist) \<leftarrow> claimLoop
            (ClaimObject K m (metaU K) (\<lambda>obj. Matches (Selector m) (GetLabels K obj)) (adoptChild K m) (releaseChild K m))
            children;
          State_Monad.return (claimed, NewAggregate K errlist) }"

section \<open>Controller revisions\<close>

record 'w ControllerRevisionManager = "'w BaseControllerRefManager" +
  crmParentKind :: gvk
  crmNamespace :: string

definition adoptControllerRevision :: "'w k8s \<Rightarrow> 'w ControllerRevisionManager \<Rightarrow> ControllerRevision
    \<Rightarrow> ('w \<times> once, err option) state" where
  "adoptControllerRevision K m obj =
     do { c \<leftarrow> CanAdopt m;
          case c of
            Some e \<Rightarrow> State_Monad.return (Some (Errorf (''can't adopt ControllerRevision '' @
                crNamespace obj @ ''/'' @ crName obj @ '' ('' @ crUID obj @ '')'') (Some e)))
          | None \<Rightarrow>
              do { r \<leftarrow> liftFst (UpdateWithRetries K (crmNamespace m) obj (\<lambda>obj.
                     (obj\<lparr>crOwnerReferences := addOwnerReference (crOwnerReferences obj)
                        (controllerRefFor K (Controller m) (crmParentKind m))\<rparr>, True)));
                   State_Monad.return (case r of Inl e \<Rightarrow> Some e | Inr _ \<Rightarrow> None) } }"

definition releaseControllerRevision :: "'w k8s \<Rightarrow> 'w ControllerRevisionManager \<Rightarrow> ControllerRevision
    \<Rightarrow> ('w \<times> once, err option) state" where
  "releaseControllerRevision K m obj =
     do { r \<leftarrow> liftFst (UpdateWithRetries K (crmNamespace m) obj (\<lambda>obj.
            (obj\<lparr>crOwnerReferences := removeOwnerReference (crOwnerReferences obj) (moUID (Controller m))\<rparr>, True)));
          State_Monad.return (case r of
              Inr _ \<Rightarrow> None
            | Inl e \<Rightarrow> if IsNotFound K e \<or> IsGone K e then None else Some e) }"

definition ClaimControllerRevisions :: "'w k8s \<Rightarrow> 'w ControllerRevisionManager \<Rightarrow> ControllerRevision list
    \<Rightarrow> ('w \<times> once, ControllerRevision list \<times> err option) state" where
  "ClaimControllerRevisions K m children =
     do { (claimed, errlist) \<leftarrow> claimLoop
            (ClaimObject K m metaR (\<lambda>obj. Matches (Selector m) (crLabels obj))
               (adoptControllerRevision K m) (releaseControllerRevision K m))
            children;
          State_Monad.return (claimed, NewAggregate K errlist) }"

section \<open>Lemmas\<close>

lemma replaceOwner_eq:
  "replaceOwner add refs =
     (map (\<lambda>r. if orUID r = orUID add then add else r) refs, list_ex (\<lambda>r. orUID r = orUID add) refs)"
  by (induction refs) (auto simp: Let_def)

lemma addOwnerReference_eq:
  "addOwnerReference refs add =
     map (\<lambda>r. if orUID r = orUID add then add else r) refs @ (if list_ex (\<lambda>r. orUID r = orUID add) refs then [] else [add])"
  by (simp add: addOwnerReference_def replaceOwner_eq)

lemma removeOwnerReference_map:
  "removeOwnerReference (map (\<lambda>r. if orUID r = orUID add then add else r) refs) (orUID add) = removeOwnerReference refs (orUID add)"
  by (induction refs) (auto simp: removeOwnerReference_def)

text \<open>What a claimed object satisfies, and when an object is adopted or released.\<close>

definition adoptable :: "'w k8s \<Rightarrow> metaObject \<Rightarrow> metaObject \<Rightarrow> bool \<Rightarrow> bool" where
  "adoptable K parent obj matches \<longleftrightarrow>
     GetControllerOf K (moOwnerReferences obj) = None \<and> matches \<and>
     moDeletionTimestamp parent = None \<and> moDeletionTimestamp obj = None"

definition controlledBy :: "'w k8s \<Rightarrow> metaObject \<Rightarrow> metaObject \<Rightarrow> bool" where
  "controlledBy K parent obj \<longleftrightarrow>
     (\<exists>r. GetControllerOf K (moOwnerReferences obj) = Some r \<and> orUID r = moUID parent)"

definition releasable :: "'w k8s \<Rightarrow> metaObject \<Rightarrow> metaObject \<Rightarrow> bool \<Rightarrow> bool" where
  "releasable K parent obj matches \<longleftrightarrow>
     controlledBy K parent obj \<and> \<not> matches \<and> moDeletionTimestamp parent = None"

lemma ClaimObject_cases:
  "ClaimObject K m view match adopt release obj =
     (if adoptable K (Controller m) (view obj) (match obj) then
        do { r \<leftarrow> adopt obj;
             State_Monad.return (r = None, case r of None \<Rightarrow> None | Some e \<Rightarrow> if IsNotFound K e then None else Some e) }
      else if releasable K (Controller m) (view obj) (match obj) then
        do { r \<leftarrow> release obj;
             State_Monad.return (False, case r of None \<Rightarrow> None | Some e \<Rightarrow> if IsNotFound K e then None else Some e) }
      else State_Monad.return (controlledBy K (Controller m) (view obj) \<and> match obj, None))"
  by (auto simp: ClaimObject_def adoptable_def releasable_def controlledBy_def split: option.split
      intro!: arg_cong2 [where f = State_Monad.bind] ext)

lemma preserves_ClaimObject:
  assumes "adoptable K (Controller m) (view obj) (match obj) \<Longrightarrow> preserves P (adopt obj)"
    and "releasable K (Controller m) (view obj) (match obj) \<Longrightarrow> preserves P (release obj)"
  shows "preserves P (ClaimObject K m view match adopt release obj)"
  using assms unfolding ClaimObject_cases by (auto intro!: pres)

lemma preserves_claimLoop:
  "(\<And>x. x \<in> set xs \<Longrightarrow> preserves P (claim x)) \<Longrightarrow> preserves P (claimLoop claim xs)"
  by (induction xs) (auto intro!: pres split: prod.split)

lemma claimLoop_claimed:
  assumes "\<And>x s e s'. run_state (claim x) s = ((True, e), s') \<Longrightarrow> Q x"
    and "run_state (claimLoop claim xs) s = ((claimed, errs), s')" "x \<in> set claimed"
  shows "x \<in> set xs \<and> Q x"
  using assms(2,3)
proof (induction xs arbitrary: s s' claimed errs)
  case (Cons a xs)
  obtain ok e s1 where a: "run_state (claim a) s = ((ok, e), s1)" by (metis surj_pair)
  obtain cl es s2 where r: "run_state (claimLoop claim xs) s1 = ((cl, es), s2)" by (metis surj_pair)
  have "claimed = (if e = None \<and> ok then a # cl else cl)"
    using Cons.prems(1) a r by (auto split: option.splits)
  then consider "x = a" "ok" | "x \<in> set cl" using Cons.prems(2) by (auto split: if_splits)
  then show ?case
  proof cases
    case 1
    then show ?thesis using a assms(1) by auto
  next
    case 2
    then show ?thesis using Cons.IH [OF r] by simp
  qed
qed simp

lemma ClaimObject_claims:
  assumes "run_state (ClaimObject K m view match adopt release x) s = ((True, e), s')"
  shows "match x \<and> (controlledBy K (Controller m) (view x) \<or> adoptable K (Controller m) (view x) (match x))"
  using assms unfolding ClaimObject_cases
  by (auto simp: adoptable_def split: if_splits prod.splits)

lemma preserves_CanAdopt:
  "(\<And>f. CanAdoptFunc m = Some f \<Longrightarrow> preserves P f) \<Longrightarrow> preserves (\<lambda>(w, s). P w) (CanAdopt m)"
  by (auto simp: preserves_def CanAdopt_def case_prod_beta split: option.split)


lemma adoptChild_confined:
  assumes "retry_law K" "preserves P (CtxErr K)" "\<And>ri n. preserves P (ApiGet K ri n)"
    and "\<And>f. CanAdoptFunc m = Some f \<Longrightarrow> preserves P f"
    and "\<And>ri cur. GetUID K cur = GetUID K child \<Longrightarrow>
       preserves P (ApiUpdate K ri (SetOwnerReferences K cur
         (addOwnerReference (GetOwnerReferences K cur) (controllerRefFor K (Controller m) (umParentKind m)))))"
  shows "preserves (\<lambda>(w, s). P w) (adoptChild K m child)"
proof -
  have "preserves P (atomicUpdate K (umClient m) child (\<lambda>obj.
      (SetOwnerReferences K obj (addOwnerReference (GetOwnerReferences K obj)
         (controllerRefFor K (Controller m) (umParentKind m))), True)))"
    unfolding atomicUpdate_def by (auto intro!: pres au.always_confined assms(1-3,5))
  then show ?thesis
    unfolding adoptChild_def using preserves_CanAdopt [OF assms(4)]
    by (auto intro!: pres split: option.split)
qed

lemma releaseChild_confined:
  assumes "retry_law K" "preserves P (CtxErr K)" "\<And>ri n. preserves P (ApiGet K ri n)"
    and "\<And>ri cur. GetUID K cur = GetUID K child \<Longrightarrow>
       preserves P (ApiUpdate K ri (SetOwnerReferences K cur
         (removeOwnerReference (GetOwnerReferences K cur) (moUID (Controller m)))))"
  shows "preserves (\<lambda>(w, s). P w) (releaseChild K m child)"
  unfolding releaseChild_def atomicUpdate_def
  by (auto intro!: pres au.always_confined assms split: option.split sum.split)

section \<open>Properties\<close>

text \<open>Claiming children touches no object it should not: the only writes are to live objects that
  have the UID of a listed child, either to add the parent's controller reference to a matching
  orphan or to remove it from a child the parent controls and whose labels no longer match; and in
  both cases the parent is not being deleted.\<close>

theorem ClaimChildren_confined:
  assumes "retry_law K" "preserves P (CtxErr K)" "\<And>ri n. preserves P (ApiGet K ri n)"
    and "\<And>f. CanAdoptFunc m = Some f \<Longrightarrow> preserves P f"
    and adopt: "\<And>ri child cur. child \<in> set children \<Longrightarrow> GetUID K cur = GetUID K child \<Longrightarrow>
       adoptable K (Controller m) (metaU K child) (Matches (Selector m) (GetLabels K child)) \<Longrightarrow>
       preserves P (ApiUpdate K ri (SetOwnerReferences K cur
         (addOwnerReference (GetOwnerReferences K cur) (controllerRefFor K (Controller m) (umParentKind m)))))"
    and release: "\<And>ri child cur. child \<in> set children \<Longrightarrow> GetUID K cur = GetUID K child \<Longrightarrow>
       releasable K (Controller m) (metaU K child) (Matches (Selector m) (GetLabels K child)) \<Longrightarrow>
       preserves P (ApiUpdate K ri (SetOwnerReferences K cur
         (removeOwnerReference (GetOwnerReferences K cur) (moUID (Controller m)))))"
  shows "preserves (\<lambda>(w, s). P w) (ClaimChildren K m children)"
  unfolding ClaimChildren_def
  by (intro pres preserves_claimLoop preserves_ClaimObject adoptChild_confined releaseChild_confined assms)
    (auto intro!: pres split: prod.split)

definition podManager :: "world UnstructuredManager" where
  "podManager =
     \<lparr>Controller = \<lparr>moName = ''parent'', moNamespace = ''ns'', moUID = ''pu'', moLabels = None, moOwnerReferences = [],
        moDeletionTimestamp = None, moFinalizers = []\<rparr>,
      Selector = \<lparr>Matches = (\<lambda>_. True), SelEmpty = True\<rparr>, CanAdoptFunc = None,
      umParentKind = \<lparr>gvkGroup = ''g'', gvkVersion = ''v1'', gvkKind = ''Parent''\<rparr>,
      umChildKind = \<lparr>gvkGroup = '''', gvkVersion = ''v1'', gvkKind = ''Pod''\<rparr>, umClient = podClient\<rparr>"

theorem ClaimChildren_confined_witness:
  "preserves (\<lambda>(w, s). (''delete'', ''p'') \<notin> set (wLog w)) (ClaimChildren refK podManager [podObject ''u''])"
  by (rule ClaimChildren_confined [OF refK_retry])
    (simp_all add: refK_simps refGet_def refPut_def preserves_def Let_def podManager_def)

text \<open>C25: What is claimed: every returned child was listed, matches the parent's selector, and either
  was already controlled by the parent or was an orphan that could be adopted.\<close>

theorem ClaimChildren_claimed:
  assumes "run_state (ClaimChildren K m children) s = ((claimed, e), s')" "child \<in> set claimed"
  shows "child \<in> set children \<and> Matches (Selector m) (GetLabels K child) \<and>
     (controlledBy K (Controller m) (metaU K child) \<or>
      adoptable K (Controller m) (metaU K child) (Matches (Selector m) (GetLabels K child)))"
proof -
  let ?claim = "ClaimObject K m (metaU K) (\<lambda>obj. Matches (Selector m) (GetLabels K obj)) (adoptChild K m) (releaseChild K m)"
  obtain cl es s1 where r: "run_state (claimLoop ?claim children) s = ((cl, es), s1)" by (metis surj_pair)
  then have "cl = claimed" using assms(1) by (simp add: ClaimChildren_def)
  with assms(2) have c: "child \<in> set cl" by simp
  show ?thesis
    by (rule claimLoop_claimed [OF _ r c]) (rule ClaimObject_claims)
qed

lemma podClaim:
  "\<exists>s'. run_state (ClaimChildren refK podManager
     [podObject ''new'']) (podStore, None) = (([podObject ''new''], None), s')"
  by (simp add: ClaimChildren_def ClaimObject_def podManager_def metaU_def refK_simps refControllerOf_def ownersOf_def
      podObject_def metaOf_def jget_def adoptChild_def CanAdopt_def atomicUpdate_def AtomicUpdate_def refGet_def refPut_def
      podStore_def podClient_def ResourceClient_Namespace_def objKeyOf_def refName_def
      putMeta_def Let_def eval_nat_numeral controllerRefFor_def ofOwner_def boolField_def addOwnerReference_def)

theorem ClaimChildren_claimed_witness:
  "\<exists>s'. run_state (ClaimChildren refK podManager [podObject ''new'']) (podStore, None) = (([podObject ''new''], None), s') \<and>
     (controlledBy refK (Controller podManager) (metaU refK (podObject ''new'')) \<or>
      adoptable refK (Controller podManager) (metaU refK (podObject ''new''))
        (Matches (Selector podManager) (GetLabels refK (podObject ''new''))))"
proof -
  obtain s' where s': "run_state (ClaimChildren refK podManager [podObject ''new'']) (podStore, None) = (([podObject ''new''], None), s')"
    using podClaim by blast
  with ClaimChildren_claimed [OF s', of "podObject ''new''"] show ?thesis by auto
qed

text \<open>Ownership is exclusive: an object controlled by someone else is not claimed and no
  request is made for it, and neither is one for an object that is being deleted, or for any
  object while the parent is being deleted; in the last case what the parent controls and still
  matches stays claimed.\<close>

theorem ClaimObject_no_action:
  assumes "\<not> adoptable K (Controller m) (view obj) (match obj)"
    and "\<not> releasable K (Controller m) (view obj) (match obj)"
  shows "run_state (ClaimObject K m view match adopt release obj) s =
     ((controlledBy K (Controller m) (view obj) \<and> match obj, None), s)"
  using assms by (simp add: ClaimObject_cases)

theorem ClaimObject_no_action_witness:
  "run_state (ClaimObject refK (podManager\<lparr>Controller := (Controller podManager)\<lparr>moDeletionTimestamp := Some ''t''\<rparr>\<rparr>)
     (metaU refK) (\<lambda>_. True) (\<lambda>_. State_Monad.return (Some GoPanic)) (\<lambda>_. State_Monad.return (Some GoPanic)) (podObject ''u'')) podStore
   = ((False, None), podStore)"
proof -
  let ?m = "podManager\<lparr>Controller := (Controller podManager)\<lparr>moDeletionTimestamp := Some ''t''\<rparr>\<rparr>"
  have "\<not> adoptable refK (Controller ?m) (metaU refK (podObject ''u'')) True"
    "\<not> releasable refK (Controller ?m) (metaU refK (podObject ''u'')) True"
    by (simp_all add: adoptable_def releasable_def)
  from ClaimObject_no_action [of refK ?m "metaU refK" "podObject ''u''" "\<lambda>_. True", OF this] show ?thesis
    by (simp add: controlledBy_def metaU_def refK_simps refControllerOf_def ownersOf_def podObject_def metaOf_def jget_def)
qed

text \<open>Adding an owner reference keeps the references of all other owners, in order, and leaves
  exactly the new contents for its own UID; removing it afterwards gives what removing it from the
  original list gives.\<close>

theorem ownerReference_laws:
  "removeOwnerReference (addOwnerReference refs add) (orUID add) = removeOwnerReference refs (orUID add) \<and>
   add \<in> set (addOwnerReference refs add) \<and>
   filter (\<lambda>r. orUID r = orUID add \<and> r \<noteq> add) (addOwnerReference refs add) = [] \<and>
   filter (\<lambda>r. orUID r = orUID add) (removeOwnerReference refs (orUID add)) = []"
proof -
  have "filter (\<lambda>r. orUID r = orUID add \<and> r \<noteq> add) (map (\<lambda>r. if orUID r = orUID add then add else r) refs) = []"
    by (auto simp: filter_empty_conv)
  moreover have "add \<in> set (addOwnerReference refs add)"
    by (auto simp: addOwnerReference_eq list_ex_iff)
  ultimately show ?thesis
    using removeOwnerReference_map [of add refs]
    by (auto simp: addOwnerReference_eq removeOwnerReference_def filter_empty_conv)
qed

text \<open>The adoption check, a request to the API server, runs at most once per manager: after the
  first call every later one returns the same answer and does nothing.\<close>

theorem CanAdopt_once:
  assumes "run_state (CanAdopt m) s = (e, s')"
  shows "run_state (CanAdopt m) s' = (e, s')"
  using assms by (cases s) (auto simp: CanAdopt_def split: option.splits prod.splits)

theorem CanAdopt_once_witness:
  "run_state (CanAdopt podManager) (podStore, Some None) = (None, (podStore, Some None))"
  by (rule CanAdopt_once [of podManager "(podStore, None)"]) (simp add: CanAdopt_def podManager_def)

end
