(* ===== verification/Revisions.thy ===== *)
theory Revisions
  imports ManageChildren ControllerRef
begin

text \<open>
  Revisions of a parent, \<^verbatim>\<open>pkg/controller/composite/controller_revision.go\<close>: patches that record
  and restore the fields relevant for history, the claims of revisions on children, and the
  reconciliation of the stored \<^verbatim>\<open>ControllerRevision\<close> objects.  A \<^verbatim>\<open>*parentRevision\<close> is its position
  in the list of revisions, 0 for the latest.
\<close>

section \<open>Patches\<close>

fun makePatchFrom :: "'w k8s \<Rightarrow> jobj \<Rightarrow> string list \<Rightarrow> jobj \<Rightarrow> err + jobj" where
  "makePatchFrom K src [] patch = Inr patch"
| "makePatchFrom K src (fieldPath # fieldPaths) patch =
     (let pathParts = split (CHR ''.'') fieldPath in
      case NestedFieldNoCopy K src pathParts of
        Inl e \<Rightarrow> Inl e
      | Inr None \<Rightarrow> makePatchFrom K src fieldPaths patch
      | Inr (Some v) \<Rightarrow>
          (case SetNestedField K patch v pathParts of
             Inl e \<Rightarrow> Inl (Errorf (''can't make patch for field '' @ fieldPath) (Some e))
           | Inr patch \<Rightarrow> makePatchFrom K src fieldPaths patch))"

definition makePatch :: "'w k8s \<Rightarrow> jobj \<Rightarrow> string list \<Rightarrow> err + jobj" where
  "makePatch K src fieldPaths = makePatchFrom K src fieldPaths []"

fun applyPatch :: "'w k8s \<Rightarrow> jobj \<Rightarrow> jobj \<Rightarrow> string list \<Rightarrow> err + jobj" where
  "applyPatch K dest patch [] = Inr dest"
| "applyPatch K dest patch (fieldPath # fieldPaths) =
     (let pathParts = split (CHR ''.'') fieldPath in
      case NestedFieldNoCopy K patch pathParts of
        Inl e \<Rightarrow> Inl e
      | Inr None \<Rightarrow> applyPatch K dest patch fieldPaths
      | Inr (Some v) \<Rightarrow>
          (case SetNestedField K dest v pathParts of
             Inl e \<Rightarrow> Inl (Errorf (''can't apply patch for field '' @ fieldPath) (Some e))
           | Inr dest \<Rightarrow> applyPatch K dest patch fieldPaths))"

section \<open>New revisions\<close>

definition labelKeyAPIGroup :: string where "labelKeyAPIGroup = ''metacontroller.k8s.io/apiGroup''"

definition labelKeyResource :: string where "labelKeyResource = ''metacontroller.k8s.io/resource''"

definition controllerRevisionHash :: "'w k8s \<Rightarrow> string \<Rightarrow> string \<Rightarrow> string" where
  "controllerRevisionHash K parentUID patchData = Sha1Hex K (parentUID @ patchData)"

definition controllerRevisionName :: "'w k8s \<Rightarrow> APIResource \<Rightarrow> unstructured \<Rightarrow> string \<Rightarrow> string" where
  "controllerRevisionName K parentResource parent patchData =
     (let apiGroup = (if arGroup parentResource = '''' then ''core'' else arGroup parentResource);
          prefix = arName parentResource @ ''.'' @ apiGroup;
          prefix = (if length prefix > 253 - 41 then take (253 - 41) prefix else prefix)
      in prefix @ ''-'' @ controllerRevisionHash K (GetUID K parent) patchData)"

definition newControllerRevision :: "'w k8s \<Rightarrow> APIResource \<Rightarrow> bool \<Rightarrow> unstructured \<Rightarrow> jobj \<Rightarrow> err + ControllerRevision" where
  "newControllerRevision K parentResource generatedSelector parent patch =
     (case Marshal K (JObj patch) of
        Inl e \<Rightarrow> Inl (Errorf ''can't marshal ControllerRevision parentPatch'' (Some e))
      | Inr patchData \<Rightarrow>
          (let found = (if generatedSelector then Inr (Some [(''controller-uid'', GetUID K parent)])
                        else NestedStringMap K parent [''spec'', ''template'', ''metadata'', ''labels'']) in
           case found of
             Inl e \<Rightarrow> Inl (Errorf (''invalid labels on parent '' @ GetKind K parent @ '' '' @ GetNamespace K parent @ ''/'' @ GetName K parent) (Some e))
           | Inr labels \<Rightarrow>
               Inr \<lparr>crName = controllerRevisionName K parentResource parent patchData, crNamespace = GetNamespace K parent,
                    crUID = '''',
                    crLabels = Some (jput labelKeyResource (arName parentResource)
                                 (jput labelKeyAPIGroup (arGroup parentResource) (orNil labels))),
                    crOwnerReferences = [MakeControllerRef K parent], crDeletionTimestamp = None, crFinalizers = [],
                    crResourceVersion = '''', crParentPatch = patchData, crChildren = None\<rparr>))"

section \<open>Revisions and their children\<close>

record parentRevision =
  prParent :: unstructured
  prRevision :: "ControllerRevision option"
  prSyncResult :: "CompositeHookResponse option"
  prSyncError :: "err option"
  prDesiredChildMap :: objectMap

definition prChildren :: "parentRevision \<Rightarrow> ControllerRevisionChildren list" where
  "prChildren pr = (case prRevision pr of None \<Rightarrow> [] | Some r \<Rightarrow> orNil (crChildren r))"

definition setChildren :: "ControllerRevisionChildren list \<Rightarrow> parentRevision \<Rightarrow> parentRevision" where
  "setChildren cs pr = pr\<lparr>prRevision := map_option (\<lambda>r. r\<lparr>crChildren := Some cs\<rparr>) (prRevision pr)\<rparr>"

definition countChildren :: "parentRevision \<Rightarrow> nat" where
  "countChildren pr = (case prRevision pr of
     None \<Rightarrow> 0 | Some r \<Rightarrow> foldl (\<lambda>count children. count + length (crcNames children)) 0 (orNil (crChildren r)))"

fun addName :: "string \<Rightarrow> string \<Rightarrow> string \<Rightarrow> ControllerRevisionChildren list \<Rightarrow> ControllerRevisionChildren list" where
  "addName apiGroup kind name [] = [\<lparr>crcAPIGroup = apiGroup, crcKind = kind, crcNames = [name]\<rparr>]"
| "addName apiGroup kind name (ch # chs) =
     (if crcAPIGroup ch = apiGroup \<and> crcKind ch = kind
      then (if name \<in> set (crcNames ch) then ch else ch\<lparr>crcNames := crcNames ch @ [name]\<rparr>) # chs
      else ch # addName apiGroup kind name chs)"

definition addChild :: "string \<Rightarrow> string \<Rightarrow> string \<Rightarrow> parentRevision \<Rightarrow> parentRevision" where
  "addChild apiGroup kind name pr = setChildren (addName apiGroup kind name (prChildren pr)) pr"

fun removeName :: "string \<Rightarrow> string \<Rightarrow> string \<Rightarrow> ControllerRevisionChildren list \<Rightarrow> ControllerRevisionChildren list" where
  "removeName apiGroup kind name [] = []"
| "removeName apiGroup kind name (ch # chs) =
     (if crcAPIGroup ch = apiGroup \<and> crcKind ch = kind
      then ch\<lparr>crcNames := remove1 name (crcNames ch)\<rparr> # chs
      else ch # removeName apiGroup kind name chs)"

text \<open>A group that is not there leaves even a nil list of children as it is.\<close>

definition removeChild :: "string \<Rightarrow> string \<Rightarrow> string \<Rightarrow> parentRevision \<Rightarrow> parentRevision" where
  "removeChild apiGroup kind name pr =
     (if list_ex (\<lambda>ch. crcAPIGroup ch = apiGroup \<and> crcKind ch = kind) (prChildren pr)
      then setChildren (removeName apiGroup kind name (prChildren pr)) pr else pr)"

text \<open>\<^verbatim>\<open>parentRevisions[0]\<close> of an empty list would panic; the callers pass the latest revision first.\<close>

definition pruneParentRevisions :: "parentRevision list \<Rightarrow> parentRevision list" where
  "pruneParentRevisions prs = (case prs of [] \<Rightarrow> [] | pr # rest \<Rightarrow> pr # filter (\<lambda>pr. countChildren pr > 0) rest)"

section \<open>Claims\<close>

type_synonym childClaimMap = "(string \<times> (string \<times> nat) list) list"

definition claimMapKey :: "string \<Rightarrow> string \<Rightarrow> string" where
  "claimMapKey apiGroup kind = kind @ ''.'' @ apiGroup"

definition getKind :: "childClaimMap \<Rightarrow> string \<Rightarrow> string \<Rightarrow> (string \<times> nat) list option" where
  "getKind m apiGroup kind = map_of m (claimMapKey apiGroup kind)"

definition setParentRevision :: "childClaimMap \<Rightarrow> string \<Rightarrow> string \<Rightarrow> string \<Rightarrow> nat \<Rightarrow> childClaimMap" where
  "setParentRevision m apiGroup kind name pr =
     (let key = claimMapKey apiGroup kind; claimMap = orNil (map_of m key)
      in AList.update key (AList.update name pr claimMap) m)"

section \<open>Reconciling stored revisions\<close>

definition revisionsByName :: "ControllerRevision list \<Rightarrow> (string \<times> ControllerRevision) list" where
  "revisionsByName rs = foldl (\<lambda>m r. AList.update (crName r) r m) [] rs"

definition revisionErr :: "'w k8s \<Rightarrow> string \<Rightarrow> APIResource \<Rightarrow> unstructured \<Rightarrow> ControllerRevision \<Rightarrow> err \<Rightarrow> err" where
  "revisionErr K what parentResource parent revision e =
     Errorf (''can't '' @ what @ '' ControllerRevision '' @ crName revision @ '' for '' @ arKind parentResource @ '' '' @
       GetNamespace K parent @ ''/'' @ GetName K parent) (Some e)"

fun deleteRevisions :: "'w k8s \<Rightarrow> APIResource \<Rightarrow> unstructured \<Rightarrow> (string \<times> ControllerRevision) list \<Rightarrow> ControllerRevision list
    \<Rightarrow> ('w, err option) state" where
  "deleteRevisions K parentResource parent desiredMap [] = State_Monad.return None"
| "deleteRevisions K parentResource parent desiredMap (revision # revisions) =
     (if map_of desiredMap (crName revision) = None then
        do { r \<leftarrow> RevDelete K (GetNamespace K parent) (crName revision)
                  \<lparr>doUID = Some (crUID revision), doPropagation = None\<rparr>;
             case r of
               Some e \<Rightarrow> State_Monad.return (Some (revisionErr K ''delete'' parentResource parent revision e))
             | None \<Rightarrow> deleteRevisions K parentResource parent desiredMap revisions }
      else deleteRevisions K parentResource parent desiredMap revisions)"

fun writeRevisions :: "'w k8s \<Rightarrow> APIResource \<Rightarrow> unstructured \<Rightarrow> (string \<times> ControllerRevision) list \<Rightarrow> ControllerRevision list
    \<Rightarrow> ('w, err option) state" where
  "writeRevisions K parentResource parent observedMap [] = State_Monad.return None"
| "writeRevisions K parentResource parent observedMap (revision # revisions) =
     (case map_of observedMap (crName revision) of
        Some oldObj \<Rightarrow>
          if oldObj = revision then writeRevisions K parentResource parent observedMap revisions
          else
            do { r \<leftarrow> RevUpdate K (GetNamespace K parent) (revision\<lparr>crResourceVersion := crResourceVersion oldObj\<rparr>);
                 case r of
                   Inl e \<Rightarrow> State_Monad.return (Some (revisionErr K ''update'' parentResource parent revision e))
                 | Inr _ \<Rightarrow> writeRevisions K parentResource parent observedMap revisions }
      | None \<Rightarrow>
          do { r \<leftarrow> RevCreate K (GetNamespace K parent) revision;
               case r of
                 Inl e \<Rightarrow> State_Monad.return (Some (revisionErr K ''create'' parentResource parent revision e))
               | Inr _ \<Rightarrow> writeRevisions K parentResource parent observedMap revisions })"

definition manageRevisions :: "'w k8s \<Rightarrow> APIResource \<Rightarrow> unstructured \<Rightarrow> ControllerRevision list \<Rightarrow> ControllerRevision list
    \<Rightarrow> ('w, err option) state" where
  "manageRevisions K parentResource parent observedRevisions desiredRevisions =
     do { r \<leftarrow> deleteRevisions K parentResource parent (revisionsByName desiredRevisions) observedRevisions;
          case r of
            Some e \<Rightarrow> State_Monad.return (Some e)
          | None \<Rightarrow> writeRevisions K parentResource parent (revisionsByName observedRevisions) desiredRevisions }"


section \<open>Claims as a relation\<close>

definition claims :: "ControllerRevisionChildren list \<Rightarrow> string \<Rightarrow> string \<Rightarrow> string \<Rightarrow> bool" where
  "claims chs g k n \<longleftrightarrow> (\<exists>ch \<in> set chs. crcAPIGroup ch = g \<and> crcKind ch = k \<and> n \<in> set (crcNames ch))"

definition wfChildren :: "ControllerRevisionChildren list \<Rightarrow> bool" where
  "wfChildren chs \<longleftrightarrow> distinct (map (\<lambda>ch. (crcAPIGroup ch, crcKind ch)) chs) \<and> list_all (\<lambda>ch. distinct (crcNames ch)) chs"

lemma claims_simps [simp]:
  "\<not> claims [] g k n"
  "claims (ch # chs) g k n \<longleftrightarrow> crcAPIGroup ch = g \<and> crcKind ch = k \<and> n \<in> set (crcNames ch) \<or> claims chs g k n"
  by (auto simp: claims_def)

lemma groups_addName:
  "(\<lambda>ch. (crcAPIGroup ch, crcKind ch)) ` set (addName g k n chs) = insert (g, k) ((\<lambda>ch. (crcAPIGroup ch, crcKind ch)) ` set chs)"
  by (induction chs) auto

lemma groups_removeName:
  "map (\<lambda>ch. (crcAPIGroup ch, crcKind ch)) (removeName g k n chs) = map (\<lambda>ch. (crcAPIGroup ch, crcKind ch)) chs"
  by (induction chs) auto

lemma claims_addName: "claims (addName g k n chs) g' k' n' \<longleftrightarrow> claims chs g' k' n' \<or> (g', k', n') = (g, k, n)"
  by (induction chs) auto

lemma wf_addName: "wfChildren chs \<Longrightarrow> wfChildren (addName g k n chs)"
proof (induction chs)
  case (Cons ch chs)
  then have IH: "wfChildren (addName g k n chs)" by (simp add: wfChildren_def)
  show ?case
    using Cons.prems IH by (auto simp: wfChildren_def groups_addName)
qed (simp add: wfChildren_def)

lemma claims_group: "claims chs g k n \<Longrightarrow> (g, k) \<in> (\<lambda>ch. (crcAPIGroup ch, crcKind ch)) ` set chs"
  by (auto simp: claims_def)

lemma claims_removeName:
  "wfChildren chs \<Longrightarrow> claims (removeName g k n chs) g' k' n' \<longleftrightarrow> claims chs g' k' n' \<and> (g', k', n') \<noteq> (g, k, n)"
proof (induction chs)
  case (Cons ch chs)
  then have wf: "wfChildren chs" "(crcAPIGroup ch, crcKind ch) \<notin> (\<lambda>ch. (crcAPIGroup ch, crcKind ch)) ` set chs"
      "distinct (crcNames ch)"
    by (auto simp: wfChildren_def)
  show ?case
    using Cons.IH [OF wf(1)] wf(2,3) claims_group [of chs] by auto
qed simp

lemma wf_removeName: "wfChildren chs \<Longrightarrow> wfChildren (removeName g k n chs)"
proof -
  have "list_all (\<lambda>ch. distinct (crcNames ch)) chs \<Longrightarrow> list_all (\<lambda>ch. distinct (crcNames ch)) (removeName g k n chs)"
    by (induction chs) auto
  then show "wfChildren chs \<Longrightarrow> wfChildren (removeName g k n chs)"
    by (simp add: wfChildren_def groups_removeName)
qed

lemma prChildren_setChildren: "prRevision pr \<noteq> None \<Longrightarrow> prChildren (setChildren cs pr) = cs"
  by (auto simp: prChildren_def setChildren_def)

lemma prChildren_addChild: "prRevision pr \<noteq> None \<Longrightarrow> prChildren (addChild g k n pr) = addName g k n (prChildren pr)"
  by (simp add: addChild_def prChildren_setChildren)

lemma removeName_absent:
  "\<not> list_ex (\<lambda>ch. crcAPIGroup ch = g \<and> crcKind ch = k) chs \<Longrightarrow> removeName g k n chs = chs"
  by (induction chs) auto

lemma prChildren_removeChild: "prRevision pr \<noteq> None \<Longrightarrow> prChildren (removeChild g k n pr) = removeName g k n (prChildren pr)"
  by (simp add: removeChild_def prChildren_setChildren removeName_absent)

lemma countChildren_eq: "countChildren pr = sum_list (map (\<lambda>ch. length (crcNames ch)) (prChildren pr))"
proof -
  have "foldl (\<lambda>c ch. c + length (crcNames ch)) a chs = a + sum_list (map (\<lambda>ch. length (crcNames ch)) chs)"
    for a and chs :: "ControllerRevisionChildren list"
    by (induction chs arbitrary: a) simp_all
  then show ?thesis by (simp add: countChildren_def prChildren_def split: option.split)
qed

lemma countChildren_claims: "countChildren pr > 0 \<longleftrightarrow> (\<exists>g k n. claims (prChildren pr) g k n)"
proof -
  have "countChildren pr = 0 \<longleftrightarrow> (\<forall>ch \<in> set (prChildren pr). crcNames ch = [])"
    by (simp add: countChildren_eq)
  then have "countChildren pr > 0 \<longleftrightarrow> (\<exists>ch \<in> set (prChildren pr). crcNames ch \<noteq> [])" by (metis neq0_conv)
  also have "\<dots> \<longleftrightarrow> (\<exists>g k n. claims (prChildren pr) g k n)"
    unfolding claims_def by (metis empty_iff empty_set last_in_set)
  finally show ?thesis .
qed

section \<open>Properties\<close>

text \<open>C31: Adding a child to a revision claims exactly that child in addition, removing one gives up
  exactly that claim, both keep the list of claims free of duplicate groups and names, and pruning
  keeps the latest revision and exactly the older ones that still claim a child.\<close>

theorem child_claims:
  assumes "prRevision pr \<noteq> None" "wfChildren (prChildren pr)"
  shows "(claims (prChildren (addChild g k n pr)) g' k' n' \<longleftrightarrow> claims (prChildren pr) g' k' n' \<or> (g', k', n') = (g, k, n)) \<and>
     (claims (prChildren (removeChild g k n pr)) g' k' n' \<longleftrightarrow> claims (prChildren pr) g' k' n' \<and> (g', k', n') \<noteq> (g, k, n)) \<and>
     wfChildren (prChildren (addChild g k n pr)) \<and> wfChildren (prChildren (removeChild g k n pr)) \<and>
     pruneParentRevisions (pr # prs) = pr # filter (\<lambda>q. \<exists>g k n. claims (prChildren q) g k n) prs"
  using assms
  by (simp add: prChildren_addChild prChildren_removeChild claims_addName claims_removeName wf_addName wf_removeName
      pruneParentRevisions_def countChildren_claims del: neq0_conv)

definition revisionW :: "ControllerRevisionChildren list \<Rightarrow> ControllerRevision" where
  "revisionW chs =
     \<lparr>crName = ''r'', crNamespace = ''ns'', crUID = ''ru'', crLabels = None, crOwnerReferences = [], crDeletionTimestamp = None,
      crFinalizers = [], crResourceVersion = ''1'', crParentPatch = ''{}'', crChildren = Some chs\<rparr>"

definition parentRevisionW :: "ControllerRevisionChildren list \<Rightarrow> parentRevision" where
  "parentRevisionW chs =
     \<lparr>prParent = [], prRevision = Some (revisionW chs), prSyncResult = None, prSyncError = None, prDesiredChildMap = []\<rparr>"

theorem child_claims_witness:
  "\<not> claims (prChildren (removeChild ''apps'' ''Deployment'' ''b''
       (parentRevisionW [\<lparr>crcAPIGroup = ''apps'', crcKind = ''Deployment'', crcNames = [''a'', ''b'']\<rparr>]))) ''apps'' ''Deployment'' ''b''"
  using child_claims [of "parentRevisionW [\<lparr>crcAPIGroup = ''apps'', crcKind = ''Deployment'', crcNames = [''a'', ''b'']\<rparr>]"
      "''apps''" "''Deployment''" "''b''" "''apps''" "''Deployment''" "''b''" "[]"]
  by (simp add: parentRevisionW_def revisionW_def prChildren_def wfChildren_def)

text \<open>The name of a revision is a legal object name length, whatever the length of the resource
  and group names, given that the hash is the 40 hexadecimal digits of a SHA-1 sum.\<close>

theorem controllerRevisionName_length:
  assumes "\<And>x. length (Sha1Hex K x) = 40"
  shows "length (controllerRevisionName K parentResource parent patchData) \<le> 253"
  using assms by (auto simp: controllerRevisionName_def controllerRevisionHash_def Let_def min_def)

theorem controllerRevisionName_length_witness:
  "length (controllerRevisionName refK (rcAPIResource podClient) (podObj ''p'') ''{}'') \<le> 253"
  by (rule controllerRevisionName_length) (simp add: refK_simps)

text \<open>What the nested-field helpers promise for paths none of which is a prefix of another.\<close>

definition independentPaths :: "string list \<Rightarrow> string list \<Rightarrow> bool" where
  "independentPaths fs gs \<longleftrightarrow> take (length gs) fs \<noteq> gs \<and> take (length fs) gs \<noteq> fs"

definition path_law :: "'w k8s \<Rightarrow> bool" where
  "path_law K \<longleftrightarrow>
     (\<forall>fs m v m'. SetNestedField K m v fs = Inr m' \<longrightarrow>
        NestedFieldNoCopy K m' fs = Inr (Some v) \<and>
        (\<forall>gs. independentPaths fs gs \<longrightarrow> foundField K m' gs = foundField K m gs)) \<and>
     (\<forall>fs. fs \<noteq> [] \<longrightarrow> NestedFieldNoCopy K [] fs = Inr None)"

lemma independent_sym: "independentPaths fs gs \<Longrightarrow> independentPaths gs fs"
  by (auto simp: independentPaths_def)

abbreviation pathParts :: "string \<Rightarrow> string list" where
  "pathParts fp \<equiv> split (CHR ''.'') fp"

lemma makePatchFrom_other:
  assumes "path_law K" "makePatchFrom K src fps patch = Inr patch'"
    and "\<forall>fp \<in> set fps. independentPaths (pathParts fp) gs"
  shows "foundField K patch' gs = foundField K patch gs"
  using assms(2,3)
proof (induction fps arbitrary: patch)
  case (Cons fp fps)
  show ?case
  proof (cases "foundField K src (pathParts fp)")
    case None
    with Cons show ?thesis by (auto simp: foundField_def [of K src] Let_def split: sum.splits option.splits)
  next
    case (Some v)
    with Cons.prems(1) obtain p1 where p1: "SetNestedField K patch v (pathParts fp) = Inr p1" "makePatchFrom K src fps p1 = Inr patch'"
      by (auto simp: foundField_def [of K src] Let_def split: sum.splits option.splits)
    have "foundField K p1 gs = foundField K patch gs"
      using assms(1) p1(1) Cons.prems(2) unfolding path_law_def by (meson list.set_intros(1))
    with Cons.IH [OF p1(2)] Cons.prems(2) show ?thesis by simp
  qed
qed simp

lemma makePatchFrom_copies:
  assumes "path_law K" "makePatchFrom K src fps patch = Inr patch'"
    and "sorted_wrt (\<lambda>a b. independentPaths (pathParts a) (pathParts b)) fps" "fp \<in> set fps"
  shows "foundField K patch' (pathParts fp) =
     (case foundField K src (pathParts fp) of Some v \<Rightarrow> Some v | None \<Rightarrow> foundField K patch (pathParts fp))"
  using assms(2-4)
proof (induction fps arbitrary: patch)
  case (Cons a fps)
  obtain p1 where p1: "makePatchFrom K src fps p1 = Inr patch'"
    and step: "foundField K src (pathParts a) = None \<and> p1 = patch \<or>
      (\<exists>v. foundField K src (pathParts a) = Some v \<and> SetNestedField K patch v (pathParts a) = Inr p1)"
    using Cons.prems(1) by (auto simp: foundField_def Let_def split: sum.splits option.splits)
  show ?case
  proof (cases "fp = a")
    case True
    have "foundField K patch' (pathParts a) = foundField K p1 (pathParts a)"
      using Cons.prems(2) by (intro makePatchFrom_other [OF assms(1) p1]) (auto intro: independent_sym)
    moreover have "foundField K p1 (pathParts a) = Some v" if "SetNestedField K patch v (pathParts a) = Inr p1" for v
      using assms(1) that by (auto simp: path_law_def foundField_def)
    ultimately show ?thesis using step True by auto
  next
    case False
    with Cons.prems(2,3) have fp: "fp \<in> set fps" "independentPaths (pathParts a) (pathParts fp)" by auto
    have "foundField K p1 (pathParts fp) = foundField K patch (pathParts fp)"
      using step assms(1) fp(2) unfolding path_law_def by blast
    with Cons.IH [OF p1 _ fp(1)] Cons.prems(2) show ?thesis by (simp split: option.split)
  qed
qed simp

lemma applyPatch_copy: "applyPatch K dest patch fps = Inr r \<longleftrightarrow> makePatchFrom K patch fps dest = Inr r"
  by (induction fps arbitrary: dest) (simp_all add: Let_def split: sum.split option.split)

lemma split_nonempty: "split c s \<noteq> []"
  by (cases s) (simp_all add: split_def)

text \<open>C32: A revision restores what it recorded: applying to any parent the patch made from an earlier
  parent gives, at every field path of the history, the value the earlier parent had there, and
  leaves the field as it is where the earlier parent had none (for paths none of which is a
  prefix of another).\<close>

theorem patch_roundtrip:
  assumes "path_law K" "sorted_wrt (\<lambda>a b. independentPaths (split (CHR ''.'') a) (split (CHR ''.'') b)) fieldPaths"
    and "makePatch K src fieldPaths = Inr patch" "applyPatch K dest patch fieldPaths = Inr dest'"
    and "fp \<in> set fieldPaths"
  shows "foundField K dest' (split (CHR ''.'') fp) =
     (case foundField K src (split (CHR ''.'') fp) of
        Some v \<Rightarrow> Some v | None \<Rightarrow> foundField K dest (split (CHR ''.'') fp))"
proof -
  have "foundField K [] (pathParts fp) = None"
    using assms(1) split_nonempty [of _ fp] by (simp add: path_law_def foundField_def)
  then have "foundField K patch (pathParts fp) = foundField K src (pathParts fp)"
    using makePatchFrom_copies [OF assms(1) _ assms(2,5)] assms(3) by (simp add: makePatch_def split: option.split)
  then show ?thesis
    using makePatchFrom_copies [OF assms(1) _ assms(2,5)] assms(4) by (simp add: applyPatch_copy)
qed

lemma setNested_step:
  assumes "setNested m v (f # f2 # fs) = Inr m'"
  obtains n r where "map_of m f = Some (JObj n) \<or> map_of m f = None \<and> n = []"
    "setNested n v (f2 # fs) = Inr r" "m' = jput f (JObj r) m"
proof -
  have "map_sum id h x = Inr y \<Longrightarrow> \<exists>z. x = Inr z \<and> y = h z" for h and x :: "err + jobj" and y :: jobj
    by (cases x) auto
  with assms that show ?thesis by (fastforce split: option.splits json.splits)
qed

lemma setNested_nested: "setNested m v fs = Inr m' \<Longrightarrow> nested (JObj m') fs = Inr (Some v)"
proof (induction m v fs arbitrary: m' rule: setNested.induct)
  case (3 m v f f2 fs)
  from "3.prems" show ?case
    by (rule setNested_step) (use "3.IH" in auto)
qed simp_all

definition nestedVal :: "json \<Rightarrow> string list \<Rightarrow> json option" where
  "nestedVal j fs = (case nested j fs of Inr x \<Rightarrow> x | Inl _ \<Rightarrow> None)"

lemma nestedVal_simps [simp]:
  "nestedVal j [] = Some j"
  "nestedVal (JObj m) (f # fs) = (case map_of m f of None \<Rightarrow> None | Some j \<Rightarrow> nestedVal j fs)"
  by (simp_all add: nestedVal_def split: option.split)

lemma independentPaths_Cons [simp]:
  "independentPaths (f # fs) (g # gs) \<longleftrightarrow> f \<noteq> g \<or> independentPaths fs gs"
  "\<not> independentPaths [] gs" "\<not> independentPaths fs []"
  by (auto simp: independentPaths_def)

lemma nestedVal_empty: "gs \<noteq> [] \<Longrightarrow> nestedVal (JObj []) gs = None"
  by (cases gs) simp_all

lemma setNested_other:
  "setNested m v fs = Inr m' \<Longrightarrow> independentPaths fs gs \<Longrightarrow> nestedVal (JObj m') gs = nestedVal (JObj m) gs"
proof (induction m v fs arbitrary: m' gs rule: setNested.induct)
  case (2 m v f)
  then show ?case by (cases gs) auto
next
  case (3 m v f f2 fs)
  obtain g gs' where gs: "gs = g # gs'" using "3.prems"(2) by (cases gs) simp_all
  from "3.prems"(1) show ?case
  proof (rule setNested_step)
    fix n r
    assume n: "map_of m f = Some (JObj n) \<or> map_of m f = None \<and> n = []" and r: "setNested n v (f2 # fs) = Inr r"
      and m': "m' = jput f (JObj r) m"
    show ?thesis
    proof (cases "f = g")
      case False
      with m' gs show ?thesis by simp
    next
      case True
      then have ind: "independentPaths (f2 # fs) gs'" using "3.prems"(2) gs by simp
      then have "nestedVal (JObj r) gs' = nestedVal (JObj n) gs'" "gs' \<noteq> []"
        using n r ind "3.IH" by (elim disjE conjE; fastforce)+
      then show ?thesis using n m' gs True nestedVal_empty [of gs'] by auto
    qed
  qed
qed simp

lemma refK_path: "path_law refK"
  unfolding path_law_def
proof (intro conjI allI impI)
  show "NestedFieldNoCopy refK m' fs = Inr (Some v)" if "SetNestedField refK m v fs = Inr m'" for fs m v m'
    using that setNested_nested by (simp add: refK_simps)
  show "foundField refK m' gs = foundField refK m gs"
    if "SetNestedField refK m v fs = Inr m'" "independentPaths fs gs" for fs m v m' gs
    using setNested_other [of m v fs m' gs] that by (simp add: foundField_def refK_simps nestedVal_def)
  show "NestedFieldNoCopy refK [] fs = Inr None" if "fs \<noteq> []" for fs
    using that by (cases fs) (simp_all add: refK_simps)
qed

theorem patch_roundtrip_witness:
  "\<exists>dest'. applyPatch refK [(''spec'', JObj [(''a'', JInt 9)])] [(''spec'', JObj [(''a'', JInt 1)])] [''spec''] = Inr dest' \<and>
     foundField refK dest' [''spec''] = Some (JObj [(''a'', JInt 1)])"
proof -
  have mk: "makePatch refK [(''spec'', JObj [(''a'', JInt 1)])] [''spec''] = Inr [(''spec'', JObj [(''a'', JInt 1)])]"
    by (simp add: makePatch_def split_def refK_simps)
  obtain dest' where ap: "applyPatch refK [(''spec'', JObj [(''a'', JInt 9)])] [(''spec'', JObj [(''a'', JInt 1)])] [''spec''] = Inr dest'"
    by (simp add: split_def refK_simps)
  have "split (CHR ''.'') ''spec'' = [''spec'']" by (simp add: split_def)
  moreover have "foundField refK [(''spec'', JObj [(''a'', JInt 1)])] [''spec''] = Some (JObj [(''a'', JInt 1)])"
    by (simp add: foundField_def refK_simps)
  ultimately have "foundField refK dest' [''spec''] = Some (JObj [(''a'', JInt 1)])"
    using patch_roundtrip [OF refK_path _ mk ap, of "''spec''"] by simp
  with ap show ?thesis by blast
qed

end
