(* ===== verification/Object_Status.thy ===== *)
theory Object_Status
  imports Reference
begin

text \<open>
  Status conditions, \<^verbatim>\<open>pkg/dynamic/object/status.go\<close>.  The functions that mutate the map they
  are given return the new map.
\<close>

record StatusCondition =
  scType :: string
  scStatus :: string
  scReason :: string
  scMessage :: string

definition StatusCondition_Object :: "StatusCondition \<Rightarrow> jobj" where
  "StatusCondition_Object c =
     (let obj = [(''status'', JString (scStatus c)), (''type'', JString (scType c))];
          obj = (if scReason c \<noteq> '''' then jput ''reason'' (JString (scReason c)) obj else obj)
      in if scMessage c \<noteq> '''' then jput ''message'' (JString (scMessage c)) obj else obj)"

text \<open>\<^verbatim>\<open>v, ok := obj[k].(string)\<close> with the zero value kept when the assertion fails.\<close>

definition stringField :: "jobj \<Rightarrow> string \<Rightarrow> string" where
  "stringField obj k = (case map_of obj k of Some (JString s) \<Rightarrow> s | _ \<Rightarrow> '''')"

definition NewStatusCondition :: "jobj \<Rightarrow> StatusCondition" where
  "NewStatusCondition obj =
     \<lparr>scType = stringField obj ''type'', scStatus = stringField obj ''status'',
      scReason = stringField obj ''reason'', scMessage = stringField obj ''message''\<rparr>"

fun hasType :: "string \<Rightarrow> json \<Rightarrow> bool" where
  "hasType t (JObj obj) = (map_of obj ''type'' = Some (JString t))"
| "hasType t _ = False"

definition GetStatusCondition :: "'w k8s \<Rightarrow> jobj \<Rightarrow> string \<Rightarrow> err + StatusCondition option" where
  "GetStatusCondition K obj conditionType =
     (case NestedSlice K obj [''status'', ''conditions''] of
        Inl e \<Rightarrow> Inl e
      | Inr None \<Rightarrow> Inr None
      | Inr (Some conditions) \<Rightarrow>
          (case find (hasType conditionType) conditions of
             Some (JObj c) \<Rightarrow> Inr (Some (NewStatusCondition c))
           | _ \<Rightarrow> Inr None))"

text \<open>\<^verbatim>\<open>NestedSlice\<close> returns a deep copy, so the assignment \<^verbatim>\<open>conditions[i] = ...\<close> of the branch
  that finds the condition changes the copy and leaves \<^verbatim>\<open>status\<close> as it is.\<close>

definition SetCondition :: "'w k8s \<Rightarrow> jobj \<Rightarrow> StatusCondition \<Rightarrow> err + jobj" where
  "SetCondition K status condition =
     (case NestedSlice K status [''conditions''] of
        Inl e \<Rightarrow> Inl e
      | Inr found \<Rightarrow>
          (let conditions = (case found of None \<Rightarrow> [] | Some cs \<Rightarrow> cs) in
           if found \<noteq> None \<and> list_ex (hasType (scType condition)) conditions then Inr status
           else SetNestedField K status (JArr (conditions @ [JObj (StatusCondition_Object condition)]))
                  [''conditions'']))"

definition SetStatusCondition :: "'w k8s \<Rightarrow> jobj \<Rightarrow> StatusCondition \<Rightarrow> err + jobj" where
  "SetStatusCondition K obj condition =
     (case NestedMap K obj [''status''] of
        Inl e \<Rightarrow> Inl e
      | Inr found \<Rightarrow>
          (case SetCondition K (case found of None \<Rightarrow> [] | Some s \<Rightarrow> s) condition of
             Inl e \<Rightarrow> Inl e
           | Inr status \<Rightarrow> SetNestedField K obj (JObj status) [''status'']))"

definition GetObservedGeneration :: "'w k8s \<Rightarrow> jobj \<Rightarrow> err + int option" where
  "GetObservedGeneration K obj = NestedInt64 K obj [''status'', ''observedGeneration'']"

section \<open>Laws of the nested accessors\<close>

text \<open>What \<^verbatim>\<open>unstructured\<close>'s helpers do on the paths used here: a missing field is not found, an
  array or object found is returned, and a set field is stored.\<close>

definition nested_law :: "'w k8s \<Rightarrow> bool" where
  "nested_law K \<longleftrightarrow>
     (\<forall>m f v. SetNestedField K m v [f] = Inr (jput f v m)) \<and>
     (\<forall>m f. map_of m f = None \<longrightarrow> NestedSlice K m [f] = Inr None \<and> NestedMap K m [f] = Inr None) \<and>
     (\<forall>m f xs. map_of m f = Some (JArr xs) \<longrightarrow> NestedSlice K m [f] = Inr (Some xs)) \<and>
     (\<forall>m f n. map_of m f = Some (JObj n) \<longrightarrow> NestedMap K m [f] = Inr (Some n)) \<and>
     (\<forall>m f n g. map_of m f = Some (JObj n) \<longrightarrow> NestedSlice K m [f, g] = NestedSlice K n [g])"

lemma refK_nested: "nested_law refK"
  by (simp add: nested_law_def refK_simps nestedSlice_def nestedMap_def)

lemma nested_lawD:
  assumes "nested_law K"
  shows "SetNestedField K m v [f] = Inr (jput f v m)"
    and "map_of m f = None \<Longrightarrow> NestedSlice K m [f] = Inr None"
    and "map_of m f = None \<Longrightarrow> NestedMap K m [f] = Inr None"
    and "map_of m f = Some (JArr xs) \<Longrightarrow> NestedSlice K m [f] = Inr (Some xs)"
    and "map_of m f = Some (JObj n) \<Longrightarrow> NestedMap K m [f] = Inr (Some n)"
    and "map_of m f = Some (JObj n) \<Longrightarrow> NestedSlice K m [f, g] = NestedSlice K n [g]"
  using assms unfolding nested_law_def by blast+

section \<open>Properties\<close>

lemma condition_roundtrip: "NewStatusCondition (StatusCondition_Object c) = c"
  by (cases c) (simp add: NewStatusCondition_def StatusCondition_Object_def stringField_def Let_def)

lemma hasType_Object: "hasType t (JObj (StatusCondition_Object c)) \<longleftrightarrow> t = scType c"
  by (auto simp: StatusCondition_Object_def Let_def)

lemma find_append_new:
  "\<not> list_ex P xs \<Longrightarrow> P x \<Longrightarrow> find P (xs @ [x]) = Some x"
  by (induction xs) auto

text \<open>The conditions an object's status holds, for a status that is an object (or missing).\<close>

definition conditionsOf :: "jobj \<Rightarrow> json list option" where
  "conditionsOf obj =
     (case map_of obj ''status'' of
        None \<Rightarrow> Some []
      | Some (JObj s) \<Rightarrow> (case map_of s ''conditions'' of None \<Rightarrow> Some [] | Some (JArr cs) \<Rightarrow> Some cs | _ \<Rightarrow> None)
      | _ \<Rightarrow> None)"

lemma SetCondition_new:
  assumes "nested_law K" "\<not> list_ex (hasType (scType c)) cs"
    and "map_of s ''conditions'' = None \<and> cs = [] \<or> map_of s ''conditions'' = Some (JArr cs)"
  shows "SetCondition K s c = Inr (jput ''conditions'' (JArr (cs @ [JObj (StatusCondition_Object c)])) s)"
  using assms(3)
proof
  assume none: "map_of s ''conditions'' = None \<and> cs = []"
  then have "NestedSlice K s [''conditions''] = Inr None"
    using nested_lawD(2) [OF assms(1)] by blast
  then show ?thesis using none nested_lawD(1) [OF assms(1)] by (simp add: SetCondition_def)
next
  assume "map_of s ''conditions'' = Some (JArr cs)"
  then have "NestedSlice K s [''conditions''] = Inr (Some cs)"
    using nested_lawD(4) [OF assms(1)] by blast
  then show ?thesis using assms(2) nested_lawD(1) [OF assms(1)] by (simp add: SetCondition_def)
qed

lemma SetStatusCondition_new_lemma:
  assumes "nested_law K" "conditionsOf obj = Some cs" "\<not> list_ex (hasType (scType c)) cs"
  shows "\<exists>s. SetStatusCondition K obj c = Inr (jput ''status'' (JObj s) obj) \<and>
     map_of s ''conditions'' = Some (JArr (cs @ [JObj (StatusCondition_Object c)]))"
proof (cases "map_of obj ''status''")
  case None
  then have "NestedMap K obj [''status''] = Inr None"
    using nested_lawD(3) [OF assms(1)] by blast
  moreover have "cs = []" using assms(2) None by (simp add: conditionsOf_def)
  ultimately show ?thesis
    using SetCondition_new [OF assms(1,3), of "[]"] nested_lawD(1) [OF assms(1)]
    by (intro exI [of _ "[(''conditions'', JArr [JObj (StatusCondition_Object c)])]"])
      (simp add: SetStatusCondition_def)
next
  case (Some st)
  with assms(2) obtain s where s: "st = JObj s"
      "map_of s ''conditions'' = None \<and> cs = [] \<or> map_of s ''conditions'' = Some (JArr cs)"
    by (auto simp: conditionsOf_def split: json.splits option.splits)
  have "NestedMap K obj [''status''] = Inr (Some s)"
    using nested_lawD(5) [OF assms(1)] Some s(1) by blast
  then show ?thesis
    using SetCondition_new [OF assms(1,3) s(2)] nested_lawD(1) [OF assms(1)]
    by (intro exI [of _ "jput ''conditions'' (JArr (cs @ [JObj (StatusCondition_Object c)])) s"])
      (simp add: SetStatusCondition_def)
qed

text \<open>A condition of a type the status does not have yet is appended, keeping the others, and
  reading it back gives the condition that was set.\<close>

theorem SetStatusCondition_new:
  assumes "nested_law K" "conditionsOf obj = Some cs" "\<not> list_ex (hasType (scType c)) cs"
  shows "\<exists>obj'. SetStatusCondition K obj c = Inr obj' \<and>
     conditionsOf obj' = Some (cs @ [JObj (StatusCondition_Object c)]) \<and>
     GetStatusCondition K obj' (scType c) = Inr (Some c)"
proof -
  obtain s where s: "SetStatusCondition K obj c = Inr (jput ''status'' (JObj s) obj)"
      "map_of s ''conditions'' = Some (JArr (cs @ [JObj (StatusCondition_Object c)]))"
    using SetStatusCondition_new_lemma [OF assms] by blast
  then have "NestedSlice K (jput ''status'' (JObj s) obj) [''status'', ''conditions''] =
      Inr (Some (cs @ [JObj (StatusCondition_Object c)]))"
    using nested_lawD(4,6) [OF assms(1)] by simp
  moreover have "find (hasType (scType c)) (cs @ [JObj (StatusCondition_Object c)]) = Some (JObj (StatusCondition_Object c))"
    by (rule find_append_new [OF assms(3)]) (simp only: hasType_Object)
  ultimately show ?thesis
    using s by (simp add: conditionsOf_def GetStatusCondition_def condition_roundtrip)
qed

theorem SetStatusCondition_new_witness:
  "\<exists>obj'. SetStatusCondition refK [] \<lparr>scType = ''Ready'', scStatus = ''True'', scReason = '''', scMessage = ''m''\<rparr> = Inr obj' \<and>
     GetStatusCondition refK obj' ''Ready'' =
       Inr (Some \<lparr>scType = ''Ready'', scStatus = ''True'', scReason = '''', scMessage = ''m''\<rparr>)"
  using SetStatusCondition_new [OF refK_nested, of "[]" "[]"
      "\<lparr>scType = ''Ready'', scStatus = ''True'', scReason = '''', scMessage = ''m''\<rparr>"]
  by (simp add: conditionsOf_def) blast

text \<open>C39: Setting a condition whose type the status already has changes nothing: the branch that
  should update it writes to a copy.\<close>

theorem SetStatusCondition_existing_lost:
  assumes "nested_law K" "map_of obj ''status'' = Some (JObj s)" "map_of s ''conditions'' = Some (JArr cs)"
    and "list_ex (hasType (scType c)) cs"
  shows "SetStatusCondition K obj c = Inr (jput ''status'' (JObj s) obj) \<and>
     map_of (jput ''status'' (JObj s) obj) = map_of obj"
  using assms nested_lawD [OF assms(1)]
  by (auto simp: SetStatusCondition_def SetCondition_def fun_upd_idem)

theorem SetStatusCondition_existing_lost_witness:
  "SetStatusCondition refK
     [(''status'', JObj [(''conditions'', JArr [JObj [(''status'', JString ''False''), (''type'', JString ''Ready'')]])])]
     \<lparr>scType = ''Ready'', scStatus = ''True'', scReason = '''', scMessage = ''''\<rparr>
   = Inr [(''status'', JObj [(''conditions'', JArr [JObj [(''status'', JString ''False''), (''type'', JString ''Ready'')]])])]"
  using SetStatusCondition_existing_lost [OF refK_nested,
      of "[(''status'', JObj [(''conditions'', JArr [JObj [(''status'', JString ''False''), (''type'', JString ''Ready'')]])])]"
         "[(''conditions'', JArr [JObj [(''status'', JString ''False''), (''type'', JString ''Ready'')]])]"
         "[JObj [(''status'', JString ''False''), (''type'', JString ''Ready'')]]"
         "\<lparr>scType = ''Ready'', scStatus = ''True'', scReason = '''', scMessage = ''''\<rparr>"]
  by simp

end
