(* ===== verification/Common.thy ===== *)
theory Common
  imports K8s_Data
begin

text \<open>
  Small shared helpers of \<^verbatim>\<open>pkg/controller/common/common.go\<close>: splitting an API version, and the
  typed wrapper around \<^verbatim>\<open>sync.Map\<close>.  A map is an association list with distinct keys in the order
  in which \<^verbatim>\<open>Range\<close> visits it; operations that change it return it.
\<close>

definition ParseAPIVersion :: "string \<Rightarrow> string \<times> string" where
  "ParseAPIVersion apiVersion =
     (let parts = splitN (CHR ''/'') 2 apiVersion in
      if length parts = 1 then ('''', parts ! 0) else (parts ! 0, parts ! 1))"

text \<open>\<^verbatim>\<open>fmt.Errorf("...: %w", err)\<close> around the error of a call; a panic of the call is passed on as it is.\<close>

definition wrapErr :: "string \<Rightarrow> err \<Rightarrow> err" where
  "wrapErr msg e = (if e = GoPanic then GoPanic else Errorf msg (Some e))"

section \<open>SyncMap\<close>

type_synonym ('k, 'v) SyncMap = "('k \<times> 'v) list"

definition SyncMap_Load :: "('k, 'v) SyncMap \<Rightarrow> 'k \<Rightarrow> 'v option" where
  "SyncMap_Load m key = map_of m key"

text \<open>The values are pointers, so the zero value of \<^verbatim>\<open>Get\<close> is nil, and a nil pointer is never stored.\<close>

definition SyncMap_Get :: "('k, 'v) SyncMap \<Rightarrow> 'k \<Rightarrow> 'v option" where
  "SyncMap_Get m key = SyncMap_Load m key"

definition SyncMap_Store :: "('k, 'v) SyncMap \<Rightarrow> 'k \<Rightarrow> 'v \<Rightarrow> ('k, 'v) SyncMap" where
  "SyncMap_Store m key val = AList.update key val m"

definition SyncMap_Set :: "('k, 'v) SyncMap \<Rightarrow> 'k \<Rightarrow> 'v \<Rightarrow> ('k, 'v) SyncMap" where
  "SyncMap_Set m key val = SyncMap_Store m key val"

definition SyncMap_LoadOrStore :: "('k, 'v) SyncMap \<Rightarrow> 'k \<Rightarrow> 'v \<Rightarrow> 'v \<times> bool \<times> ('k, 'v) SyncMap" where
  "SyncMap_LoadOrStore m key val =
     (case map_of m key of Some v \<Rightarrow> (v, True, m) | None \<Rightarrow> (val, False, SyncMap_Store m key val))"

definition SyncMap_GetOrCreate :: "('k, 'v) SyncMap \<Rightarrow> 'k \<Rightarrow> 'v \<Rightarrow> 'v \<times> bool \<times> ('k, 'v) SyncMap" where
  "SyncMap_GetOrCreate m key val = SyncMap_LoadOrStore m key val"

definition SyncMap_LoadAndDelete :: "('k, 'v) SyncMap \<Rightarrow> 'k \<Rightarrow> 'v option \<times> ('k, 'v) SyncMap" where
  "SyncMap_LoadAndDelete m key = (map_of m key, AList.delete key m)"

definition SyncMap_Delete :: "('k, 'v) SyncMap \<Rightarrow> 'k \<Rightarrow> ('k, 'v) SyncMap" where
  "SyncMap_Delete m key = AList.delete key m"

fun SyncMap_Range :: "('k \<Rightarrow> 'v \<Rightarrow> ('w, bool) state) \<Rightarrow> ('k, 'v) SyncMap \<Rightarrow> ('w, unit) state" where
  "SyncMap_Range f [] = State_Monad.return ()"
| "SyncMap_Range f ((key, val) # m) =
     do { continue \<leftarrow> f key val;
          if continue then SyncMap_Range f m else State_Monad.return () }"

definition SyncMap_ForEach :: "('k \<Rightarrow> 'v \<Rightarrow> ('w, unit) state) \<Rightarrow> ('k, 'v) SyncMap \<Rightarrow> ('w, unit) state" where
  "SyncMap_ForEach f m = SyncMap_Range (\<lambda>key val. do { f key val; State_Monad.return True }) m"

definition SyncMap_Len :: "('k, 'v) SyncMap \<Rightarrow> nat" where
  "SyncMap_Len m = fst (run_state (do { SyncMap_Range (\<lambda>_ _. State (\<lambda>n. (True, Suc n))) m; State_Monad.get }) 0)"

section \<open>Lemmas\<close>

lemma SyncMap_simps [simp, map_simps]:
  "SyncMap_Get (SyncMap_Set m key val) k = (if k = key then Some val else SyncMap_Get m k)"
  "distinct (map fst m) \<Longrightarrow> SyncMap_Get (SyncMap_Delete m key) k = (if k = key then None else SyncMap_Get m k)"
  by (simp_all add: SyncMap_Get_def SyncMap_Load_def SyncMap_Set_def SyncMap_Store_def SyncMap_Delete_def update_conv' delete_conv')

lemma SyncMap_ForEach_simps [simp]:
  "SyncMap_ForEach f [] = State_Monad.return ()"
  "SyncMap_ForEach f ((key, val) # m) = do { f key val; SyncMap_ForEach f m }"
  by (simp_all add: SyncMap_ForEach_def)

lemma SyncMap_Len_eq: "SyncMap_Len m = length m"
proof -
  have "run_state (SyncMap_Range (\<lambda>_ _. State (\<lambda>n. (True, Suc n))) m) n = ((), n + length m)" for n
    by (induction m arbitrary: n) auto
  then show ?thesis by (simp add: SyncMap_Len_def)
qed

lemma preserves_ForEach [pres]:
  assumes "\<And>key val. (key, val) \<in> set m \<Longrightarrow> preserves P (f key val)"
  shows "preserves P (SyncMap_ForEach f m)"
  using assms by (induction m) (auto intro!: pres)

lemma ParseAPIVersion_group:
  "CHR ''/'' \<notin> set g \<Longrightarrow> ParseAPIVersion (g @ ''/'' @ v) = (g, v)"
  "CHR ''/'' \<notin> set v \<Longrightarrow> ParseAPIVersion v = ('''', v)"
  by (simp_all add: ParseAPIVersion_def numeral_2_eq_2)

end
