(* ===== verification/Rolling.thy ===== *)
theory Rolling
  imports Revisions Object_Status Common
begin

text \<open>
  Rolling updates, \<^verbatim>\<open>pkg/controller/composite/rolling_update.go\<close>: which revision of the parent is
  responsible for which child, and the one-by-one move of children to the latest revision.  The
  list of revisions is the state; the latest is its head, and a claim names a revision by its
  position.  The aliasing of the claim map in the loop over the desired children is kept: a nil
  map read before the loop stays nil.
\<close>

section \<open>Update strategies\<close>

type_synonym updateStrategyMap = "(string \<times> CompositeControllerChildUpdateStrategy) list"

definition strategyGet :: "updateStrategyMap \<Rightarrow> string \<Rightarrow> string \<Rightarrow> CompositeControllerChildUpdateStrategy option" where
  "strategyGet m apiGroup kind = map_of m (claimMapKey apiGroup kind)"

definition GetMethod :: "updateStrategyMap \<Rightarrow> string \<Rightarrow> string \<Rightarrow> ChildUpdateMethod" where
  "GetMethod m apiGroup kind =
     (case strategyGet m apiGroup kind of
        None \<Rightarrow> ChildUpdateOnDelete
      | Some strategy \<Rightarrow> if ccusMethod strategy = '''' then ChildUpdateOnDelete else ccusMethod strategy)"

definition isRollingStrategy :: "CompositeControllerChildUpdateStrategy option \<Rightarrow> bool" where
  "isRollingStrategy strategy =
     (case strategy of
        None \<Rightarrow> False
      | Some s \<Rightarrow> ccusMethod s = ChildUpdateRollingInPlace \<or> ccusMethod s = ChildUpdateRollingRecreate)"

definition isRolling :: "updateStrategyMap \<Rightarrow> string \<Rightarrow> string \<Rightarrow> bool" where
  "isRolling m apiGroup kind = isRollingStrategy (strategyGet m apiGroup kind)"

definition anyRolling :: "updateStrategyMap \<Rightarrow> bool" where
  "anyRolling m = list_ex (\<lambda>p. isRollingStrategy (Some (snd p))) m"

fun addStrategies :: "ResourceMap \<Rightarrow> CompositeControllerChildResourceRule list \<Rightarrow> updateStrategyMap \<Rightarrow> err + updateStrategyMap" where
  "addStrategies resources [] m = Inr m"
| "addStrategies resources (child # children) m =
     (case ccUpdateStrategy child of
        None \<Rightarrow> addStrategies resources children m
      | Some strategy \<Rightarrow>
          if ccusMethod strategy = ChildUpdateOnDelete then addStrategies resources children m
          else (case ResourceMap_Get resources (rrAPIVersion child) (rrResource child) of
                  None \<Rightarrow> Inl (Errorf (''can't find child resource '' @ fmtQ (rrResource child) @ '' in '' @ rrAPIVersion child) None)
                | Some resource \<Rightarrow>
                    addStrategies resources children
                      (AList.update (claimMapKey (fst (ParseAPIVersion (rrAPIVersion child))) (arKind resource)) strategy m)))"

definition makeUpdateStrategyMap :: "ResourceMap \<Rightarrow> CompositeController \<Rightarrow> err + updateStrategyMap" where
  "makeUpdateStrategyMap resources cc = addStrategies resources (ccsChildResources (ccSpec cc)) []"

section \<open>Status checks\<close>

fun checkConditions :: "'w k8s \<Rightarrow> StatusConditionCheck list \<Rightarrow> unstructured \<Rightarrow> err option" where
  "checkConditions K [] child = None"
| "checkConditions K (condCheck # checks) child =
     (case GetStatusCondition K child (sccType condCheck) of
        Inr (Some cond) \<Rightarrow>
          if sccStatus condCheck \<noteq> None \<and> scStatus cond \<noteq> the (sccStatus condCheck) then
            Some (Errorf (fmtQ (sccType condCheck) @ '' condition status is '' @ fmtQ (scStatus cond) @
              '' (want '' @ fmtQ (the (sccStatus condCheck)) @ '')'') None)
          else if sccReason condCheck \<noteq> None \<and> scReason cond \<noteq> the (sccReason condCheck) then
            Some (Errorf (fmtQ (sccType condCheck) @ '' condition reason is '' @ fmtQ (scReason cond) @
              '' (want '' @ fmtQ (the (sccReason condCheck)) @ '')'') None)
          else checkConditions K checks child
      | _ \<Rightarrow> Some (Errorf (''required condition type missing: '' @ fmtQ (sccType condCheck)) None))"

definition childStatusCheck :: "'w k8s \<Rightarrow> ChildUpdateStatusChecks \<Rightarrow> unstructured \<Rightarrow> err option" where
  "childStatusCheck K checks child = checkConditions K (Conditions checks) child"

section \<open>Whether to continue\<close>

text \<open>\<^verbatim>\<open>ApplyUpdate\<close> with a desired object that may be nil: it reads the last-applied annotation of
  the observed child first, and then panics on the nil update.\<close>

definition ApplyUpdateNil :: "'w k8s \<Rightarrow> unstructured \<Rightarrow> unstructured option \<Rightarrow> err + unstructured" where
  "ApplyUpdateNil K orig update =
     (case update of
        Some u \<Rightarrow> ApplyUpdate K orig u
      | None \<Rightarrow> (case GetLastApplied K orig of Inl e \<Rightarrow> Inl e | Inr _ \<Rightarrow> Inl GoPanic))"

text \<open>What the rollout requires of one child of the latest revision; a panic is passed on as it is.\<close>

definition childReady :: "'w k8s \<Rightarrow> CompositeControllerChildUpdateStrategy \<Rightarrow> string \<Rightarrow> string
    \<Rightarrow> unstructured option \<Rightarrow> unstructured option \<Rightarrow> err option" where
  "childReady K strategy kind name observed update =
     (case observed of
        None \<Rightarrow> Some (Errorf (''missing child '' @ kind @ '' '' @ name) None)
      | Some child \<Rightarrow>
          (case ApplyUpdateNil K child update of
             Inl GoPanic \<Rightarrow> Some GoPanic
           | Inl e \<Rightarrow> Some (Errorf (''can't check if child '' @ kind @ '' '' @ name @ '' is updated'') (Some e))
           | Inr updated \<Rightarrow>
               if child \<noteq> updated then Some (Errorf (''child '' @ kind @ '' '' @ name @ '' is not updated yet'') None)
               else if ccusMethod strategy = ChildUpdateRollingInPlace \<and>
                 (case GetObservedGeneration K child of Inr (Some g) \<Rightarrow> g > 0 \<and> g < GetGeneration K child | _ \<Rightarrow> False)
               then Some (Errorf (''child '' @ kind @ '' '' @ name @ '' with RollingInPlace update strategy hasn't observed latest spec'') None)
               else (case childStatusCheck K (ccusStatusChecks strategy) child of
                       Some e \<Rightarrow> Some (Errorf (''child '' @ kind @ '' '' @ name @ '' failed status check'') (Some e))
                     | None \<Rightarrow> None)))"

fun firstErr :: "('a \<Rightarrow> err option) \<Rightarrow> 'a list \<Rightarrow> err option" where
  "firstErr f [] = None"
| "firstErr f (x # xs) = (case f x of Some e \<Rightarrow> Some e | None \<Rightarrow> firstErr f xs)"

definition kindReady :: "'w k8s \<Rightarrow> updateStrategyMap \<Rightarrow> objectMap \<Rightarrow> ObjectMap \<Rightarrow> ControllerRevisionChildren \<Rightarrow> err option" where
  "kindReady K m desired observedChildren ck =
     (case strategyGet m (crcAPIGroup ck) (crcKind ck) of
        None \<Rightarrow> None
      | Some strategy \<Rightarrow>
          if isRollingStrategy (Some strategy)
          then firstErr (\<lambda>name. childReady K strategy (crcKind ck) name
                 (ObjectMap_FindGroupKindName observedChildren (crcAPIGroup ck, crcKind ck) name)
                 (RelativeObjectMap_FindGroupKindName desired (crcAPIGroup ck, crcKind ck) name)) (crcNames ck)
          else None)"

definition shouldContinueRolling :: "'w k8s \<Rightarrow> updateStrategyMap \<Rightarrow> parentRevision \<Rightarrow> ObjectMap \<Rightarrow> err option" where
  "shouldContinueRolling K m latest observedChildren =
     firstErr (kindReady K m (prDesiredChildMap latest) observedChildren) (prChildren latest)"

section \<open>Reconciling the claims\<close>

fun claimNames :: "objectMap \<Rightarrow> string \<Rightarrow> string \<Rightarrow> nat \<Rightarrow> string list \<Rightarrow> childClaimMap \<Rightarrow> childClaimMap \<times> string list" where
  "claimNames desired apiGroup kind pr [] claimed = (claimed, [])"
| "claimNames desired apiGroup kind pr (name # ns) claimed =
     (if RelativeObjectMap_FindGroupKindName desired (apiGroup, kind) name = None
      then claimNames desired apiGroup kind pr ns claimed
      else if map_of (orNil (getKind claimed apiGroup kind)) name \<noteq> None
      then claimNames desired apiGroup kind pr ns claimed
      else (case claimNames desired apiGroup kind pr ns (setParentRevision claimed apiGroup kind name pr) of
              (claimed', ns') \<Rightarrow> (claimed', name # ns')))"

fun claimKinds :: "updateStrategyMap \<Rightarrow> objectMap \<Rightarrow> nat \<Rightarrow> ControllerRevisionChildren list \<Rightarrow> childClaimMap
    \<Rightarrow> childClaimMap \<times> ControllerRevisionChildren list" where
  "claimKinds m desired pr [] claimed = (claimed, [])"
| "claimKinds m desired pr (ck # cks) claimed =
     (if \<not> isRolling m (crcAPIGroup ck) (crcKind ck) then claimKinds m desired pr cks claimed
      else (case claimNames desired (crcAPIGroup ck) (crcKind ck) pr (crcNames ck) claimed of
              (claimed1, ns) \<Rightarrow>
                (case claimKinds m desired pr cks claimed1 of
                   (claimed2, children) \<Rightarrow> (claimed2, if length ns = 0 then children else ck # children))))"

fun claimRevs :: "updateStrategyMap \<Rightarrow> objectMap \<Rightarrow> nat \<Rightarrow> parentRevision list \<Rightarrow> childClaimMap
    \<Rightarrow> childClaimMap \<times> parentRevision list" where
  "claimRevs m desired i [] claimed = (claimed, [])"
| "claimRevs m desired i (pr # prs) claimed =
     (case claimKinds m desired i (prChildren pr) claimed of
        (claimed1, children) \<Rightarrow>
          (case claimRevs m desired (Suc i) prs claimed1 of
             (claimed2, prs') \<Rightarrow> (claimed2, setChildren children pr # prs')))"

definition syncRevisionClaims :: "updateStrategyMap \<Rightarrow> parentRevision list \<Rightarrow> childClaimMap \<times> parentRevision list" where
  "syncRevisionClaims m parentRevisions = claimRevs m (prDesiredChildMap (hd parentRevisions)) 0 parentRevisions []"

section \<open>The rollout\<close>

definition modifyAt :: "nat \<Rightarrow> ('a \<Rightarrow> 'a) \<Rightarrow> 'a list \<Rightarrow> 'a list" where
  "modifyAt i f xs = (if i < length xs then xs[i := f (xs ! i)] else xs)"

text \<open>The body of the loop over the desired children of one kind.  \<open>isNil\<close> says whether the claim
  map of that kind was nil when the loop began.\<close>

definition giveChild :: "'w k8s \<Rightarrow> ObjectMap \<Rightarrow> gvk \<Rightarrow> bool \<Rightarrow> parentRevision list \<times> childClaimMap \<Rightarrow> string \<times> unstructured
    \<Rightarrow> parentRevision list \<times> childClaimMap" where
  "giveChild K observedChildren g isNil s child =
     (case s of (prs, claimed) \<Rightarrow>
        (let apiGroup = gvkGroup g; kind = gvkKind g; name = fst child;
             found = (if isNil then None else map_of (orNil (getKind claimed apiGroup kind)) name)
         in case found of
              None \<Rightarrow> (modifyAt 0 (addChild apiGroup kind name) prs, setParentRevision claimed apiGroup kind name 0)
            | Some pr \<Rightarrow>
                if pr = 0 then (prs, claimed)
                else (case ObjectMap_FindGroupKindName observedChildren (GroupKind g) name of
                        None \<Rightarrow> (prs, claimed)
                      | Some ob \<Rightarrow>
                          (case ApplyUpdate K ob (snd child) of
                             Inl _ \<Rightarrow> (prs, claimed)
                           | Inr updated \<Rightarrow>
                               if ob = updated
                               then (modifyAt pr (removeChild apiGroup kind name) (modifyAt 0 (addChild apiGroup kind name) prs),
                                     setParentRevision claimed apiGroup kind name 0)
                               else (prs, claimed)))))"

definition giveKind :: "'w k8s \<Rightarrow> updateStrategyMap \<Rightarrow> ObjectMap \<Rightarrow> parentRevision list \<times> childClaimMap \<Rightarrow> gvk \<times> objectGroup
    \<Rightarrow> parentRevision list \<times> childClaimMap" where
  "giveKind K m observedChildren s grp =
     (if \<not> isRolling m (gvkGroup (fst grp)) (gvkKind (fst grp)) then s
      else foldl (giveChild K observedChildren (fst grp) (getKind (snd s) (gvkGroup (fst grp)) (gvkKind (fst grp)) = None)) s (snd grp))"

definition giveChildren :: "'w k8s \<Rightarrow> updateStrategyMap \<Rightarrow> ObjectMap \<Rightarrow> parentRevision list \<times> childClaimMap
    \<Rightarrow> parentRevision list \<times> childClaimMap" where
  "giveChildren K m observedChildren s = foldl (giveKind K m observedChildren) s (prDesiredChildMap (hd (fst s)))"

definition updatedCondition :: "string \<Rightarrow> string \<Rightarrow> string \<Rightarrow> StatusCondition" where
  "updatedCondition status reason message =
     \<lparr>scType = ''Updated'', scStatus = status, scReason = reason, scMessage = message\<rparr>"

text \<open>Setting a condition in the status of the latest hook response.  Writing to a nil map panics;
  a nil response would have panicked before.\<close>

definition setLatestCondition :: "'w k8s \<Rightarrow> parentRevision list \<Rightarrow> StatusCondition \<Rightarrow> err + parentRevision list" where
  "setLatestCondition K prs cond =
     (case prs of
        [] \<Rightarrow> Inl GoPanic
      | latest # rest \<Rightarrow>
          (case prSyncResult latest of
             None \<Rightarrow> Inl GoPanic
           | Some r \<Rightarrow>
               (case chrStatus r of
                  None \<Rightarrow> Inl GoPanic
                | Some status \<Rightarrow>
                    (case SetCondition K status cond of
                       Inl e \<Rightarrow> Inl e
                     | Inr status' \<Rightarrow> Inr (latest\<lparr>prSyncResult := Some (r\<lparr>chrStatus := Some status'\<rparr>)\<rparr> # rest)))))"

fun moveNext :: "'w k8s \<Rightarrow> updateStrategyMap \<Rightarrow> ObjectMap \<Rightarrow> childClaimMap \<Rightarrow> unstructured list \<Rightarrow> parentRevision list
    \<Rightarrow> err + parentRevision list" where
  "moveNext K m observedChildren claimed [] prs =
     setLatestCondition K prs (updatedCondition ''True'' ''OnLatestRevision''
       (''latest ControllerRevision: '' @ crName (the (prRevision (hd prs)))))"
| "moveNext K m observedChildren claimed (child # children) prs =
     (let apiGroup = fst (ParseAPIVersion (GetAPIVersion K child)); kind = GetKind K child; name = GetName K child in
      if \<not> isRolling m apiGroup kind then moveNext K m observedChildren claimed children prs
      else if map_of (orNil (getKind claimed apiGroup kind)) name = Some 0
      then moveNext K m observedChildren claimed children prs
      else (case shouldContinueRolling K m (hd prs) observedChildren of
              Some GoPanic \<Rightarrow> Inl GoPanic
            | Some e \<Rightarrow> setLatestCondition K prs (updatedCondition ''False'' ''RolloutWaiting'' (ErrorString K e))
            | None \<Rightarrow>
                setLatestCondition K (addChild apiGroup kind name (hd prs) # map (removeChild apiGroup kind name) (tl prs))
                  (updatedCondition ''False'' ''RolloutProgressing'' (''updating '' @ kind @ '' '' @ name))))"

text \<open>Every revision in the list has a \<^verbatim>\<open>ControllerRevision\<close> and the latest a hook response when the
  code gets here; it would panic otherwise.\<close>

definition syncRollingUpdate :: "'w k8s \<Rightarrow> updateStrategyMap \<Rightarrow> parentRevision list \<Rightarrow> ObjectMap \<Rightarrow> err + parentRevision list" where
  "syncRollingUpdate K m parentRevisions observedChildren =
     (if parentRevisions = [] \<or> list_ex (\<lambda>pr. prRevision pr = None) parentRevisions then Inl GoPanic
      else (case syncRevisionClaims m parentRevisions of
              (claimed, prs) \<Rightarrow>
                (case giveChildren K m observedChildren (prs, claimed) of
                   (prs, claimed) \<Rightarrow>
                     (case prSyncResult (hd prs) of
                        None \<Rightarrow> Inl GoPanic
                      | Some r \<Rightarrow> moveNext K m observedChildren claimed (chrChildren r) prs))))"


section \<open>Claims as a function of the revisions\<close>

definition lookupClaim :: "childClaimMap \<Rightarrow> string \<Rightarrow> string \<Rightarrow> string \<Rightarrow> nat option" where
  "lookupClaim claimed g k n = map_of (orNil (getKind claimed g k)) n"

definition isDesired :: "objectMap \<Rightarrow> string \<Rightarrow> string \<Rightarrow> string \<Rightarrow> bool" where
  "isDesired desired g k n \<longleftrightarrow> RelativeObjectMap_FindGroupKindName desired (g, k) n \<noteq> None"

lemma lookupClaim_Nil [simp]: "lookupClaim [] g k n = None"
  by (simp add: lookupClaim_def getKind_def)

lemma lookupClaim_set [simp]:
  "lookupClaim (setParentRevision claimed g k n i) g' k' n' =
     (if claimMapKey g' k' = claimMapKey g k \<and> n' = n then Some i else lookupClaim claimed g' k' n')"
  by (simp add: lookupClaim_def getKind_def setParentRevision_def Let_def update_conv')

text \<open>The key of a kind determines it when kinds have no dot, as Kubernetes requires of them.\<close>

lemma claimMapKey_inj:
  assumes "CHR ''.'' \<notin> set k" "CHR ''.'' \<notin> set k'"
  shows "claimMapKey g k = claimMapKey g' k' \<longleftrightarrow> g = g' \<and> k = k'"
  using takeWhile_sep [OF assms(1), of g] takeWhile_sep [OF assms(2), of g'] dropWhile_sep [OF assms(1), of g]
    dropWhile_sep [OF assms(2), of g'] by (auto simp: claimMapKey_def)

lemma claimNames_lookup:
  "lookupClaim (fst (claimNames desired g k i ns claimed)) g' k' n' =
     (if claimMapKey g' k' = claimMapKey g k \<and> lookupClaim claimed g' k' n' = None \<and> n' \<in> set ns \<and> isDesired desired g k n'
      then Some i else lookupClaim claimed g' k' n')"
proof (induction ns arbitrary: claimed)
  case (Cons n ns)
  have key: "lookupClaim claimed g' k' n = lookupClaim claimed g k n" if "claimMapKey g' k' = claimMapKey g k" for n
    using that by (simp add: lookupClaim_def getKind_def)
  show ?case
    using Cons.IH key
    by (auto simp: isDesired_def lookupClaim_def [symmetric] case_prod_beta)
qed simp

definition wants :: "updateStrategyMap \<Rightarrow> objectMap \<Rightarrow> string \<Rightarrow> string \<Rightarrow> string \<Rightarrow> ControllerRevisionChildren list \<Rightarrow> bool" where
  "wants m desired g k n cks \<longleftrightarrow> isRolling m g k \<and> isDesired desired g k n \<and> claims cks g k n"

lemma wants_simps [simp]:
  "\<not> wants m desired g k n []"
  "wants m desired g k n (ck # cks) \<longleftrightarrow>
     (crcAPIGroup ck = g \<and> crcKind ck = k \<and> isRolling m g k \<and> isDesired desired g k n \<and> n \<in> set (crcNames ck)) \<or> wants m desired g k n cks"
  by (auto simp: wants_def)

definition plainKinds :: "ControllerRevisionChildren list \<Rightarrow> bool" where
  "plainKinds cks \<longleftrightarrow> list_all (\<lambda>ck. CHR ''.'' \<notin> set (crcKind ck)) cks"

lemma claimKinds_lookup:
  assumes "plainKinds cks" "CHR ''.'' \<notin> set k"
  shows "lookupClaim (fst (claimKinds m desired i cks claimed)) g k n =
     (if lookupClaim claimed g k n = None \<and> wants m desired g k n cks then Some i else lookupClaim claimed g k n)"
  using assms(1)
proof (induction cks arbitrary: claimed)
  case (Cons ck cks)
  then have plain: "plainKinds cks" "CHR ''.'' \<notin> set (crcKind ck)" by (simp_all add: plainKinds_def)
  have key: "claimMapKey g k = claimMapKey (crcAPIGroup ck) (crcKind ck) \<longleftrightarrow> g = crcAPIGroup ck \<and> k = crcKind ck"
    using claimMapKey_inj [OF assms(2) plain(2)] by simp
  show ?case
  proof (cases "isRolling m (crcAPIGroup ck) (crcKind ck)")
    case True
    obtain c1 ns where c1: "claimNames desired (crcAPIGroup ck) (crcKind ck) i (crcNames ck) claimed = (c1, ns)"
      by (metis surj_pair)
    have "lookupClaim c1 g k n =
        (if (g = crcAPIGroup ck \<and> k = crcKind ck) \<and> lookupClaim claimed g k n = None \<and> n \<in> set (crcNames ck) \<and>
            isDesired desired (crcAPIGroup ck) (crcKind ck) n then Some i else lookupClaim claimed g k n)"
      using claimNames_lookup [of desired "crcAPIGroup ck" "crcKind ck" i "crcNames ck" claimed g k n] c1 key by simp
    moreover have "fst (claimKinds m desired i (ck # cks) claimed) = fst (claimKinds m desired i cks c1)"
      using True c1 by (simp add: case_prod_beta)
    ultimately show ?thesis using Cons.IH [OF plain(1), of c1] True by (auto split: if_splits)
  next
    case False
    then show ?thesis using Cons.IH [OF plain(1), of claimed] by auto
  qed
qed simp

definition firstWants :: "updateStrategyMap \<Rightarrow> objectMap \<Rightarrow> string \<Rightarrow> string \<Rightarrow> string \<Rightarrow> parentRevision list \<Rightarrow> nat \<Rightarrow> bool" where
  "firstWants m desired g k n prs i \<longleftrightarrow>
     i < length prs \<and> wants m desired g k n (prChildren (prs ! i)) \<and> (\<forall>j < i. \<not> wants m desired g k n (prChildren (prs ! j)))"

lemma firstWants_Cons:
  "firstWants m desired g k n (pr # prs) i \<longleftrightarrow>
     (if wants m desired g k n (prChildren pr) then i = 0 else i > 0 \<and> firstWants m desired g k n prs (i - 1))"
  unfolding firstWants_def by (cases i) (auto simp: nth_Cons All_less_Suc2 split: nat.split)

lemma claimRevs_lookup:
  assumes "list_all (\<lambda>pr. plainKinds (prChildren pr)) prs" "CHR ''.'' \<notin> set k"
  shows "lookupClaim (fst (claimRevs m desired off prs claimed)) g k n = Some j \<longleftrightarrow>
     lookupClaim claimed g k n = Some j \<or>
     lookupClaim claimed g k n = None \<and> off \<le> j \<and> firstWants m desired g k n prs (j - off)"
  using assms(1)
proof (induction prs arbitrary: off claimed)
  case (Cons pr prs)
  then have plain: "plainKinds (prChildren pr)" "list_all (\<lambda>pr. plainKinds (prChildren pr)) prs" by simp_all
  obtain c1 cs where c1: "claimKinds m desired off (prChildren pr) claimed = (c1, cs)" by (metis surj_pair)
  have l1: "lookupClaim c1 g k n =
      (if lookupClaim claimed g k n = None \<and> wants m desired g k n (prChildren pr) then Some off else lookupClaim claimed g k n)"
    using claimKinds_lookup [OF plain(1) assms(2), of m desired off claimed g n] c1 by simp
  have "fst (claimRevs m desired off (pr # prs) claimed) = fst (claimRevs m desired (Suc off) prs c1)"
    using c1 by (simp add: case_prod_beta)
  then show ?case
    using Cons.IH [OF plain(2), of "Suc off" c1] l1
    by (cases "lookupClaim claimed g k n") (auto simp: firstWants_Cons Suc_le_eq split: if_splits)
qed (simp add: firstWants_def)

section \<open>Properties\<close>

text \<open>After the claims are reconciled every child has at most one responsible revision: it is the
  first revision in the list, so the latest before any other, that claims the child, provided the child is of a
  kind that is updated by rolling and the latest revision still desires it; no revision is
  responsible for any other child.\<close>

theorem syncRevisionClaims_first:
  assumes "list_all (\<lambda>pr. plainKinds (prChildren pr)) prs" "CHR ''.'' \<notin> set k"
  shows "lookupClaim (fst (syncRevisionClaims m prs)) g k n = Some i \<longleftrightarrow>
     firstWants m (prDesiredChildMap (hd prs)) g k n prs i"
  using claimRevs_lookup [OF assms] by (simp add: syncRevisionClaims_def)

definition deployW :: "string \<Rightarrow> ControllerRevisionChildren" where
  "deployW n = \<lparr>crcAPIGroup = ''apps'', crcKind = ''Deployment'', crcNames = [''web'', n]\<rparr>"

definition rollS :: CompositeControllerChildUpdateStrategy where
  "rollS = \<lparr>ccusMethod = ChildUpdateRollingInPlace, ccusStatusChecks = \<lparr>Conditions = []\<rparr>\<rparr>"

definition rollW :: updateStrategyMap where
  "rollW = [(''Deployment.apps'', rollS)]"

lemma rollW_simps: "strategyGet rollW ''apps'' ''Deployment'' = Some rollS" "isRollingStrategy (Some rollS)"
  by (simp_all add: strategyGet_def rollW_def claimMapKey_def isRollingStrategy_def rollS_def)

definition desiredW :: objectMap where
  "desiredW = [(\<lparr>gvkGroup = ''apps'', gvkVersion = ''v1'', gvkKind = ''Deployment''\<rparr>, [(''web'', podObj ''web'')])]"

definition latestW :: parentRevision where
  "latestW = (parentRevisionW [])\<lparr>prDesiredChildMap := desiredW\<rparr>"

theorem syncRevisionClaims_first_witness:
  "lookupClaim (fst (syncRevisionClaims rollW [latestW, parentRevisionW [deployW ''old'']])) ''apps'' ''Deployment'' ''web'' = Some 1"
  using syncRevisionClaims_first [of "[latestW, parentRevisionW [deployW ''old'']]" "''Deployment''" rollW "''apps''" "''web''" 1]
  by (simp add: firstWants_def wants_def latestW_def parentRevisionW_def revisionW_def prChildren_def plainKinds_def deployW_def
      isRolling_def rollW_simps isDesired_def desiredW_def GroupKind_def)

lemma claimNames_names:
  "set (snd (claimNames desired g k i ns claimed)) = {n \<in> set ns. isDesired desired g k n \<and> lookupClaim claimed g k n = None}"
proof (induction ns arbitrary: claimed)
  case (Cons n ns)
  show ?case
    using Cons.IH by (auto simp: isDesired_def lookupClaim_def [symmetric] case_prod_beta)
qed simp

lemma claimKinds_keeps:
  assumes "plainKinds cks" "wfChildren cks" "ck \<in> set cks" "isRolling m (crcAPIGroup ck) (crcKind ck)" "d \<in> set (crcNames ck)"
    and "isDesired desired (crcAPIGroup ck) (crcKind ck) d" "lookupClaim claimed (crcAPIGroup ck) (crcKind ck) d = None"
  shows "ck \<in> set (snd (claimKinds m desired i cks claimed))"
  using assms(1-3,7)
proof (induction cks arbitrary: claimed)
  case (Cons c cks)
  have plain: "plainKinds cks" "CHR ''.'' \<notin> set (crcKind c)" "CHR ''.'' \<notin> set (crcKind ck)"
    using Cons.prems(1,3) by (auto simp: plainKinds_def list_all_iff)
  have wf: "wfChildren cks" "ck \<in> set cks \<Longrightarrow> (crcAPIGroup c, crcKind c) \<noteq> (crcAPIGroup ck, crcKind ck)"
    using Cons.prems(2) by (auto simp: wfChildren_def)
  obtain c1 ns where c1: "claimNames desired (crcAPIGroup c) (crcKind c) i (crcNames c) claimed = (c1, ns)" by (metis surj_pair)
  show ?case
  proof (cases "c = ck")
    case True
    have "d \<in> set ns"
      using claimNames_names [of desired "crcAPIGroup c" "crcKind c" i "crcNames c" claimed] c1 True assms(5,6) Cons.prems(4) by simp
    then show ?thesis using True assms(4) c1 by (auto simp: case_prod_beta)
  next
    case False
    then have ck: "ck \<in> set cks" using Cons.prems(3) by simp
    then have "claimMapKey (crcAPIGroup ck) (crcKind ck) \<noteq> claimMapKey (crcAPIGroup c) (crcKind c)"
      using claimMapKey_inj [OF plain(3,2)] wf(2) by auto
    then have "lookupClaim c1 (crcAPIGroup ck) (crcKind ck) d = None"
      using claimNames_lookup [of desired "crcAPIGroup c" "crcKind c" i "crcNames c" claimed] c1 Cons.prems(4) by (metis fst_conv)
    then show ?thesis
      using Cons.IH [OF plain(1) wf(1) ck] Cons.prems(4) c1 by (auto simp: case_prod_beta)
  qed
qed simp

lemma firstWants_ex: "pr \<in> set prs \<Longrightarrow> wants m desired g k n (prChildren pr) \<Longrightarrow> \<exists>i. firstWants m desired g k n prs i"
proof (induction prs)
  case (Cons p prs)
  show ?case
  proof (cases "wants m desired g k n (prChildren p)")
    case False
    then obtain i where "firstWants m desired g k n prs i" using Cons by auto
    with False show ?thesis by (intro exI [of _ "Suc i"]) (simp add: firstWants_Cons)
  qed (auto simp: firstWants_Cons)
qed simp

lemma syncRevisionClaims_none:
  assumes "list_all (\<lambda>pr. plainKinds (prChildren pr)) prs" "CHR ''.'' \<notin> set k"
  shows "lookupClaim (fst (syncRevisionClaims m prs)) g k n = None \<Longrightarrow>
     \<forall>pr \<in> set prs. \<not> wants m (prDesiredChildMap (hd prs)) g k n (prChildren pr)"
  using claimRevs_lookup [OF assms, of m "prDesiredChildMap (hd prs)" 0 "[]"] firstWants_ex [of _ prs m "prDesiredChildMap (hd prs)" g k n]
  by (force simp: syncRevisionClaims_def)

lemma claimKinds_subset: "set (snd (claimKinds m desired i cks claimed)) \<subseteq> set cks"
proof (induction cks arbitrary: claimed)
  case (Cons ck cks)
  obtain c1 ns where "claimNames desired (crcAPIGroup ck) (crcKind ck) i (crcNames ck) claimed = (c1, ns)" by (metis surj_pair)
  then show ?case using Cons.IH [of claimed] Cons.IH [of c1] by (auto simp: case_prod_beta)
qed simp

text \<open>Reconciling the claims does not remove single names: as long as a kind has one child the latest
  revision desires, the whole entry survives unchanged, with the names of children it no longer desires.
  The source says such claims are dropped; the list of remaining names is computed and not used.\<close>

theorem syncRevisionClaims_stale_names:
  assumes "prRevision latest \<noteq> None" "plainKinds (prChildren latest)" "wfChildren (prChildren latest)" "ck \<in> set (prChildren latest)"
    and "isRolling m (crcAPIGroup ck) (crcKind ck)" "d \<in> set (crcNames ck)"
    and "isDesired (prDesiredChildMap latest) (crcAPIGroup ck) (crcKind ck) d"
  shows "ck \<in> set (prChildren (hd (snd (syncRevisionClaims m (latest # prs)))))"
  using claimKinds_keeps [OF assms(2,3,4,5,6,7), of "[]" 0] assms(1)
  by (simp add: syncRevisionClaims_def case_prod_beta prChildren_setChildren)

theorem syncRevisionClaims_stale_names_witness:
  "let latest = latestW\<lparr>prRevision := Some (revisionW [deployW ''old''])\<rparr> in
     \<not> isDesired (prDesiredChildMap latest) ''apps'' ''Deployment'' ''old'' \<and>
     claims (prChildren (hd (snd (syncRevisionClaims rollW [latest])))) ''apps'' ''Deployment'' ''old''"
proof -
  let ?l = "latestW\<lparr>prRevision := Some (revisionW [deployW ''old''])\<rparr>"
  have "deployW ''old'' \<in> set (prChildren (hd (snd (syncRevisionClaims rollW [?l]))))"
    by (rule syncRevisionClaims_stale_names [of _ _ _ "''web''"])
      (simp_all add: prChildren_def revisionW_def plainKinds_def wfChildren_def deployW_def isRolling_def rollW_simps isDesired_def latestW_def desiredW_def GroupKind_def)
  moreover have "\<not> isDesired (prDesiredChildMap ?l) ''apps'' ''Deployment'' ''old''"
    by (simp add: isDesired_def latestW_def desiredW_def GroupKind_def)
  moreover have "claims cks ''apps'' ''Deployment'' ''old''" if "deployW ''old'' \<in> set cks" for cks
    unfolding claims_def by (rule bexI [OF _ that]) (simp add: deployW_def)
  ultimately show ?thesis by (simp only: Let_def simp_thms)
qed

lemma firstErr_None: "firstErr f xs = None \<longleftrightarrow> (\<forall>x \<in> set xs. f x = None)"
  by (induction xs) (auto split: option.split)

text \<open>A child passes a status check when it has the condition, with the status and reason asked for.\<close>

definition passes :: "'w k8s \<Rightarrow> unstructured \<Rightarrow> StatusConditionCheck \<Rightarrow> bool" where
  "passes K child c \<longleftrightarrow>
     (\<exists>cond. GetStatusCondition K child (sccType c) = Inr (Some cond) \<and>
        (sccStatus c = None \<or> sccStatus c = Some (scStatus cond)) \<and> (sccReason c = None \<or> sccReason c = Some (scReason cond)))"

lemma checkConditions_Cons:
  "checkConditions K (c # checks) child = None \<longleftrightarrow> passes K child c \<and> checkConditions K checks child = None"
proof (cases "GetStatusCondition K child (sccType c)")
  case (Inr x)
  then show ?thesis
    by (cases x; cases "sccStatus c"; cases "sccReason c") (auto simp: passes_def)
qed (simp add: passes_def)

lemma checkConditions_None: "checkConditions K checks child = None \<longleftrightarrow> (\<forall>c \<in> set checks. passes K child c)"
  by (induction checks) (simp_all add: checkConditions_Cons del: checkConditions.simps(2))

text \<open>The child's own controller has seen its latest specification, where it reports that.\<close>

definition generationSeen :: "'w k8s \<Rightarrow> unstructured \<Rightarrow> bool" where
  "generationSeen K child \<longleftrightarrow>
     (\<forall>g. GetObservedGeneration K child = Inr (Some g) \<longrightarrow> g \<le> 0 \<or> GetGeneration K child \<le> g)"

lemma generationSeen_iff:
  "(case GetObservedGeneration K child of Inr (Some g) \<Rightarrow> g > 0 \<and> g < GetGeneration K child | _ \<Rightarrow> False) \<longleftrightarrow> \<not> generationSeen K child"
  by (auto simp: generationSeen_def not_less not_le split: sum.split option.split)

text \<open>A child is happy when its desired state in the latest revision leaves it as it is, its controller has
  seen its latest specification, and it passes the status checks.\<close>

definition happy :: "'w k8s \<Rightarrow> CompositeControllerChildUpdateStrategy \<Rightarrow> unstructured option \<Rightarrow> unstructured option \<Rightarrow> bool" where
  "happy K strategy observed update \<longleftrightarrow>
     (\<exists>child u. observed = Some child \<and> update = Some u \<and> ApplyUpdate K child u = Inr child \<and>
        (ccusMethod strategy = ChildUpdateRollingInPlace \<longrightarrow> generationSeen K child) \<and>
        (\<forall>c \<in> set (Conditions (ccusStatusChecks strategy)). passes K child c))"

lemma ApplyUpdateNil_Inr: "ApplyUpdateNil K child update = Inr x \<longleftrightarrow> (\<exists>u. update = Some u \<and> ApplyUpdate K child u = Inr x)"
  by (auto simp: ApplyUpdateNil_def split: option.split sum.split)

lemma childReady_None: "childReady K strategy kind name observed update = None \<longleftrightarrow> happy K strategy observed update"
proof (cases observed)
  case (Some child)
  show ?thesis
  proof (cases "ApplyUpdateNil K child update")
    case (Inl e)
    then have "childReady K strategy kind name observed update \<noteq> None"
      using Some by (cases e) (simp_all add: childReady_def)
    moreover have "\<not> happy K strategy observed update"
      using Inl Some by (auto simp: happy_def ApplyUpdateNil_def)
    ultimately show ?thesis by simp
  next
    case (Inr updated)
    then obtain u where u: "update = Some u" "ApplyUpdate K child u = Inr updated" by (auto simp: ApplyUpdateNil_Inr)
    then show ?thesis
      unfolding childReady_def happy_def Some u(1) Inr option.case sum.case generationSeen_iff childStatusCheck_def
      using Inr u by (auto simp flip: checkConditions_None split: option.split)
  qed
qed (simp add: childReady_def happy_def)

lemma kindReady_None:
  "kindReady K m desired observed ck = None \<longleftrightarrow>
     (\<forall>strategy. strategyGet m (crcAPIGroup ck) (crcKind ck) = Some strategy \<and> isRollingStrategy (Some strategy) \<longrightarrow>
        (\<forall>n \<in> set (crcNames ck). happy K strategy (ObjectMap_FindGroupKindName observed (crcAPIGroup ck, crcKind ck) n)
           (RelativeObjectMap_FindGroupKindName desired (crcAPIGroup ck, crcKind ck) n)))"
  by (simp add: kindReady_def firstErr_None childReady_None split: option.split)

text \<open>A rollout continues exactly if every child the latest revision claims, of a kind updated by
  rolling, is happy.\<close>

theorem shouldContinueRolling_iff:
  "shouldContinueRolling K m latest observed = None \<longleftrightarrow>
     (\<forall>g k n strategy. claims (prChildren latest) g k n \<and> strategyGet m g k = Some strategy \<and> isRollingStrategy (Some strategy) \<longrightarrow>
        happy K strategy (ObjectMap_FindGroupKindName observed (g, k) n)
          (RelativeObjectMap_FindGroupKindName (prDesiredChildMap latest) (g, k) n))"
  unfolding shouldContinueRolling_def firstErr_None kindReady_None claims_def by blast

theorem shouldContinueRolling_iff_witness:
  "shouldContinueRolling refK rollW latestW (UniformObjectMap []) = None \<and>
   shouldContinueRolling refK rollW (latestW\<lparr>prRevision := Some (revisionW [deployW ''old''])\<rparr>) (UniformObjectMap []) \<noteq> None"
proof -
  have "shouldContinueRolling refK rollW latestW (UniformObjectMap []) = None"
    unfolding shouldContinueRolling_iff by (simp add: latestW_def parentRevisionW_def revisionW_def prChildren_def)
  moreover have "claims (prChildren (latestW\<lparr>prRevision := Some (revisionW [deployW ''old''])\<rparr>)) ''apps'' ''Deployment'' ''web''"
    by (simp add: prChildren_def revisionW_def deployW_def)
  ultimately show ?thesis
    using shouldContinueRolling_iff [of refK rollW "latestW\<lparr>prRevision := Some (revisionW [deployW ''old''])\<rparr>" "UniformObjectMap []"]
      rollW_simps happy_def [of refK rollS None] by (metis ObjectMap_FindGroupKindName.simps(2) UniformObjectMap_FindGroupKindName.simps(1) option.distinct(1))
qed

lemma Uniform_find_None:
  assumes "list_all (\<lambda>p. list_all (\<lambda>q. CHR ''/'' \<in> set (fst q)) (snd p)) um" "CHR ''/'' \<notin> set name"
  shows "UniformObjectMap_FindGroupKindName um gk name = None"
  using assms(1)
proof (induction um)
  case (Cons p um)
  have "map_of (snd p) name = None"
    using Cons.prems assms(2) by (auto simp: map_of_eq_None_iff list_all_iff)
  with Cons show ?case by (cases p) simp
qed simp

text \<open>C37: A rollout of a namespaced parent cannot progress: the observed children come in a uniform map, whose keys
  for namespaced children are \<^verbatim>\<open>namespace/name\<close>, and are looked up by the plain names of the claims.  As soon as the
  latest revision claims one child of a kind updated by rolling, that child counts as missing.\<close>

theorem rolling_stalls:
  assumes "list_all (\<lambda>p. list_all (\<lambda>q. CHR ''/'' \<in> set (fst q)) (snd p)) um"
    and "claims (prChildren latest) g k n" "CHR ''/'' \<notin> set n" "strategyGet m g k = Some strategy" "isRollingStrategy (Some strategy)"
  shows "shouldContinueRolling K m latest (UniformObjectMap um) \<noteq> None"
proof -
  have "\<not> happy K strategy (ObjectMap_FindGroupKindName (UniformObjectMap um) (g, k) n)
      (RelativeObjectMap_FindGroupKindName (prDesiredChildMap latest) (g, k) n)"
    using Uniform_find_None [OF assms(1,3)] by (simp add: happy_def)
  then have "\<exists>ck \<in> set (prChildren latest). kindReady K m (prDesiredChildMap latest) (UniformObjectMap um) ck \<noteq> None"
    using assms(2,4,5) unfolding kindReady_None claims_def by fast
  then show ?thesis by (simp add: shouldContinueRolling_def firstErr_None)
qed

theorem rolling_stalls_witness:
  "shouldContinueRolling refK rollW (latestW\<lparr>prRevision := Some (revisionW [deployW ''old''])\<rparr>)
     (UniformObjectMap (MakeUniformObjectMap refK (metaU refK (podObj ''p'')) [podObj ''web''])) \<noteq> None"
  by (rule rolling_stalls [where g = "''apps''" and k = "''Deployment''" and n = "''web''" and strategy = rollS])
    (simp_all add: MakeUniformObjectMap_def UniformObjectMap_InsertAll_def UniformObjectMap_Insert_def UniformObjectMap_InitGroup_def
      qualifiedName_def podObj_def refK_simps metaOf_def jget_def refName_def refGroupVersion_def Let_def
      prChildren_def revisionW_def deployW_def rollW_simps)

section \<open>One child at a time\<close>

text \<open>A desired child is settled when it was observed and its desired state leaves it as it is.\<close>

definition settled :: "'w k8s \<Rightarrow> ObjectMap \<Rightarrow> objectMap \<Rightarrow> string \<Rightarrow> string \<Rightarrow> string \<Rightarrow> bool" where
  "settled K observed desired g k n \<longleftrightarrow>
     (\<exists>ob u v grp. ObjectMap_FindGroupKindName observed (g, k) n = Some ob \<and> (v, grp) \<in> set desired \<and> GroupKind v = (g, k) \<and>
        (n, u) \<in> set grp \<and> ApplyUpdate K ob u = Inr ob)"

text \<open>What the loop over the desired children keeps: the latest revision only gains children
  that no revision was responsible for or that are settled.\<close>

definition giveInv :: "'w k8s \<Rightarrow> ObjectMap \<Rightarrow> objectMap \<Rightarrow> parentRevision \<Rightarrow> childClaimMap \<Rightarrow> parentRevision list \<times> childClaimMap \<Rightarrow> bool" where
  "giveInv K observed desired latest claimed0 s \<longleftrightarrow>
     fst s \<noteq> [] \<and> prRevision (hd (fst s)) \<noteq> None \<and>
     (\<forall>g k n. claims (prChildren (hd (fst s))) g k n \<longrightarrow>
        claims (prChildren latest) g k n \<or> lookupClaim claimed0 g k n = None \<or> settled K observed desired g k n) \<and>
     (\<forall>g k n. lookupClaim (snd s) g k n = None \<longrightarrow> lookupClaim claimed0 g k n = None)"

lemma modifyAt_simps [simp]:
  "modifyAt i f xs = [] \<longleftrightarrow> xs = []"
  "xs \<noteq> [] \<Longrightarrow> hd (modifyAt 0 f xs) = f (hd xs)"
  "i \<noteq> 0 \<Longrightarrow> hd (modifyAt i f xs) = hd xs"
  by (cases xs; cases i; simp add: modifyAt_def)+

lemma prRevision_changes [simp]:
  "prRevision (setChildren cs pr) = None \<longleftrightarrow> prRevision pr = None"
  "prRevision (addChild g k n pr) = None \<longleftrightarrow> prRevision pr = None"
  "prRevision (removeChild g k n pr) = None \<longleftrightarrow> prRevision pr = None"
  "prDesiredChildMap (setChildren cs pr) = prDesiredChildMap pr"
  by (simp_all add: setChildren_def addChild_def removeChild_def)

lemma giveInv_add:
  assumes "giveInv K observed desired latest claimed0 (prs, claimed)"
    and "lookupClaim claimed0 g k n = None \<or> settled K observed desired g k n"
  shows "giveInv K observed desired latest claimed0 (modifyAt 0 (addChild g k n) prs, setParentRevision claimed g k n i)"
  using assms by (auto simp: giveInv_def prChildren_addChild claims_addName split: if_splits)

lemma giveInv_drop:
  "i \<noteq> 0 \<Longrightarrow> giveInv K observed desired latest claimed0 (prs, claimed) \<Longrightarrow>
     giveInv K observed desired latest claimed0 (modifyAt i f prs, claimed)"
  by (simp add: giveInv_def)

lemma giveChild_inv:
  assumes inv: "giveInv K observed desired latest claimed0 s" and v: "(v, grp) \<in> set desired" "child \<in> set grp"
    and nil: "isNil \<Longrightarrow> lookupClaim claimed0 (gvkGroup v) (gvkKind v) (fst child) = None"
  shows "giveInv K observed desired latest claimed0 (giveChild K observed v isNil s child)"
proof -
  obtain prs claimed where s: "s = (prs, claimed)" by (cases s)
  let ?look = "lookupClaim claimed (gvkGroup v) (gvkKind v) (fst child)"
  have add: "giveInv K observed desired latest claimed0
      (modifyAt 0 (addChild (gvkGroup v) (gvkKind v) (fst child)) prs, setParentRevision claimed (gvkGroup v) (gvkKind v) (fst child) 0)"
    if "lookupClaim claimed0 (gvkGroup v) (gvkKind v) (fst child) = None \<or> settled K observed desired (gvkGroup v) (gvkKind v) (fst child)"
    using giveInv_add inv s that by blast
  have unclaimed: "lookupClaim claimed0 (gvkGroup v) (gvkKind v) (fst child) = None" if "?look = None"
    using inv s that by (simp add: giveInv_def)
  show ?thesis
  proof (cases "isNil \<or> ?look = None")
    case True
    then show ?thesis
      using add nil unclaimed s by (auto simp: giveChild_def lookupClaim_def Let_def)
  next
    case False
    then obtain i where i: "\<not> isNil" "?look = Some i" by auto
    have keep: ?thesis if "giveChild K observed v isNil s child = s" using that inv by simp
    show ?thesis
    proof (cases "i \<noteq> 0 \<and> (\<exists>ob. ObjectMap_FindGroupKindName observed (GroupKind v) (fst child) = Some ob \<and> ApplyUpdate K ob (snd child) = Inr ob)")
      case True
      then have "settled K observed desired (gvkGroup v) (gvkKind v) (fst child)"
        using v by (force simp: settled_def GroupKind_def)
      then show ?thesis
        using True i s giveInv_drop [OF _ add] by (auto simp: giveChild_def lookupClaim_def Let_def)
    next
      case False
      then show ?thesis
        using i s by (intro keep) (auto simp: giveChild_def lookupClaim_def Let_def split: option.split sum.split)
    qed
  qed
qed

lemma foldl_inv:
  assumes "I s" "\<And>s x. x \<in> set xs \<Longrightarrow> I s \<Longrightarrow> I (f s x)"
  shows "I (foldl f s xs)"
  using assms by (induction xs arbitrary: s) simp_all

lemma foldl_giveChild_inv:
  assumes "giveInv K observed desired latest claimed0 s" "(v, grp) \<in> set desired" "set cs \<subseteq> set grp"
    and "\<And>n. isNil \<Longrightarrow> lookupClaim claimed0 (gvkGroup v) (gvkKind v) n = None"
  shows "giveInv K observed desired latest claimed0 (foldl (giveChild K observed v isNil) s cs)"
proof (rule foldl_inv [where I = "giveInv K observed desired latest claimed0"])
  show "giveInv K observed desired latest claimed0 (giveChild K observed v isNil s child)"
    if "child \<in> set cs" "giveInv K observed desired latest claimed0 s" for s child
    using that(1) assms(3) by (intro giveChild_inv [OF that(2) assms(2) _ assms(4)]) auto
qed (rule assms(1))

lemma giveKind_inv:
  assumes "giveInv K observed desired latest claimed0 s" "grp \<in> set desired"
  shows "giveInv K observed desired latest claimed0 (giveKind K m observed s grp)"
proof -
  have "lookupClaim claimed0 (gvkGroup (fst grp)) (gvkKind (fst grp)) n = None" if "getKind (snd s) (gvkGroup (fst grp)) (gvkKind (fst grp)) = None" for n
    using assms(1) that by (simp add: giveInv_def lookupClaim_def)
  then show ?thesis
    using assms foldl_giveChild_inv [OF assms(1), of "fst grp" "snd grp" "snd grp"] by (auto simp: giveKind_def)
qed

lemma foldl_giveKind_inv:
  assumes "giveInv K observed desired latest claimed0 s" "set grps \<subseteq> set desired"
  shows "giveInv K observed desired latest claimed0 (foldl (giveKind K m observed) s grps)"
proof (rule foldl_inv [where I = "giveInv K observed desired latest claimed0"])
  show "giveInv K observed desired latest claimed0 (giveKind K m observed s grp)"
    if "grp \<in> set grps" "giveInv K observed desired latest claimed0 s" for s grp
    using that(1) assms(2) by (intro giveKind_inv [OF that(2)]) auto
qed (rule assms(1))

lemma setLatestCondition_children:
  "setLatestCondition K prs c = Inr prs' \<Longrightarrow> prChildren (hd prs') = prChildren (hd prs)"
  by (auto simp: setLatestCondition_def prChildren_def split: list.splits option.splits sum.splits)

lemma moveNext_moves:
  assumes "moveNext K m observed claimed children prs = Inr prs'" "prRevision (hd prs) \<noteq> None"
  shows "prChildren (hd prs') = prChildren (hd prs) \<or>
     shouldContinueRolling K m (hd prs) observed = None \<and> (\<exists>g k n. prChildren (hd prs') = addName g k n (prChildren (hd prs)))"
  using assms
proof (induction children)
  case (Cons child children)
  show ?case
  proof (cases "shouldContinueRolling K m (hd prs) observed")
    case None
    let ?g = "fst (ParseAPIVersion (GetAPIVersion K child))"
    have "moveNext K m observed claimed children prs = Inr prs' \<or> prChildren (hd prs') = addName ?g (GetKind K child) (GetName K child) (prChildren (hd prs))"
      using None Cons.prems by (auto simp: Let_def prChildren_addChild split: if_splits dest!: setLatestCondition_children)
    then show ?thesis using Cons.IH Cons.prems(2) None by blast
  next
    case (Some e)
    then show ?thesis
      using Cons.IH Cons.prems by (cases e) (auto simp: Let_def split: if_splits dest!: setLatestCondition_children)
  qed
qed (auto dest: setLatestCondition_children)

text \<open>The revisions and claims when the search for the next child to move begins.\<close>

definition beforeMove :: "'w k8s \<Rightarrow> updateStrategyMap \<Rightarrow> parentRevision list \<Rightarrow> ObjectMap \<Rightarrow> parentRevision list \<times> childClaimMap" where
  "beforeMove K m prs observed = giveChildren K m observed (snd (syncRevisionClaims m prs), fst (syncRevisionClaims m prs))"

text \<open>C7: A rollout moves at most one child per sync.  Every child that the latest revision claims afterwards
  and did not claim before is a child no revision was responsible for, or one that already is in its desired
  state, or the single moved child; and a child is moved only if every child already on the latest
  revision is happy.\<close>

theorem rollout_one_at_a_time:
  assumes "syncRollingUpdate K m prs observed = Inr prs'" "list_all (\<lambda>pr. plainKinds (prChildren pr)) prs"
  shows "\<exists>moved. (moved \<noteq> None \<longrightarrow> shouldContinueRolling K m (hd (fst (beforeMove K m prs observed))) observed = None) \<and>
     (\<forall>g k n. CHR ''.'' \<notin> set k \<and> claims (prChildren (hd prs')) g k n \<longrightarrow>
        claims (prChildren (hd prs)) g k n \<or>
        (\<forall>pr \<in> set prs. \<not> wants m (prDesiredChildMap (hd prs)) g k n (prChildren pr)) \<or>
        settled K observed (prDesiredChildMap (hd prs)) g k n \<or> moved = Some (g, k, n))"
proof -
  let ?D = "prDesiredChildMap (hd prs)"
  obtain claimed0 prs0 where c0: "syncRevisionClaims m prs = (claimed0, prs0)" by (metis surj_pair)
  obtain prs1 claimed1 where c1: "giveChildren K m observed (prs0, claimed0) = (prs1, claimed1)" by (metis surj_pair)
  have ne: "prs \<noteq> []" "prRevision (hd prs) \<noteq> None" using assms(1) by (cases prs; auto simp: syncRollingUpdate_def split: if_splits)+
  then obtain r :: CompositeHookResponse where mv: "moveNext K m observed claimed1 (chrChildren r) prs1 = Inr prs'"
    using assms(1) c0 c1 by (auto simp: syncRollingUpdate_def split: if_splits option.splits)
  obtain latest rest where prs: "prs = latest # rest" using ne(1) by (cases prs) simp_all
  have "prs0 = snd (syncRevisionClaims m prs)" by (simp add: c0)
  then have p0: "hd prs0 = setChildren (snd (claimKinds m ?D 0 (prChildren latest) [])) latest" "prs0 \<noteq> []"
    by (simp_all add: prs syncRevisionClaims_def case_prod_beta)
  have lat: "prRevision latest \<noteq> None" using ne(2) prs by simp
  have hd0: "prRevision (hd prs0) \<noteq> None" "set (prChildren (hd prs0)) \<subseteq> set (prChildren latest)" "prDesiredChildMap (hd prs0) = ?D"
    using claimKinds_subset [of m ?D 0 "prChildren latest" "[]"] prs
    by (simp_all only: p0 prRevision_changes prChildren_setChildren [OF lat] lat simp_thms list.sel)
  have "giveInv K observed ?D latest claimed0 (prs0, claimed0)"
    using p0(2) hd0(1,2) by (auto simp: giveInv_def claims_def)
  then have inv: "giveInv K observed ?D latest claimed0 (prs1, claimed1)"
    using foldl_giveKind_inv [of K observed ?D latest claimed0 _ ?D m] c1 hd0(3) by (metis fst_conv giveChildren_def subset_refl)
  have free: "\<forall>pr \<in> set prs. \<not> wants m ?D g k n (prChildren pr)" if "lookupClaim claimed0 g k n = None" "CHR ''.'' \<notin> set k" for g k n
    using that syncRevisionClaims_none [OF assms(2) that(2), of m g n] c0 by simp
  have rev1: "prRevision (hd prs1) \<noteq> None" using inv by (simp add: giveInv_def)
  have base: "claims (prChildren latest) g k n \<or> (\<forall>pr \<in> set prs. \<not> wants m ?D g k n (prChildren pr)) \<or> settled K observed ?D g k n"
    if "claims (prChildren (hd prs1)) g k n" "CHR ''.'' \<notin> set k" for g k n
    using inv that free by (force simp: giveInv_def)
  have before: "fst (beforeMove K m prs observed) = prs1" by (simp add: beforeMove_def c0 c1)
  from moveNext_moves [OF mv rev1] show ?thesis
  proof
    assume "prChildren (hd prs') = prChildren (hd prs1)"
    then show ?thesis using base prs by (intro exI [of _ None]) auto
  next
    assume "shouldContinueRolling K m (hd prs1) observed = None \<and> (\<exists>g k n. prChildren (hd prs') = addName g k n (prChildren (hd prs1)))"
    then obtain g k n where "shouldContinueRolling K m (hd prs1) observed = None" "prChildren (hd prs') = addName g k n (prChildren (hd prs1))"
      by blast
    then show ?thesis using base prs before by (intro exI [of _ "Some (g, k, n)"]) (auto simp: claims_addName)
  qed
qed

text \<open>A rollout that moves the child \<^verbatim>\<open>web\<close> from an old revision to the latest one.\<close>

definition webW :: unstructured where
  "webW = [(''apiVersion'', JString ''apps/v1''), (''kind'', JString ''Deployment''), (''metadata'', JObj [(''name'', JString ''web'')])]"

definition rolloutW :: "parentRevision list" where
  "rolloutW = [latestW\<lparr>prSyncResult := Some \<lparr>chrStatus = Some [], chrChildren = [webW], chrResyncAfterSeconds = 0, chrFinalized = False\<rparr>\<rparr>,
     parentRevisionW [deployW ''old'']]"

lemmas rolloutW_eval = rolloutW_def latestW_def parentRevisionW_def revisionW_def deployW_def desiredW_def webW_def prChildren_def
  syncRollingUpdate_def syncRevisionClaims_def giveChildren_def giveKind_def giveChild_def isRolling_def rollW_simps GroupKind_def
  setChildren_def getKind_def setParentRevision_def claimMapKey_def Let_def ParseAPIVersion_def shouldContinueRolling_def
  refK_simps metaOf_def jget_def refName_def addChild_def removeChild_def setLatestCondition_def updatedCondition_def SetCondition_def
  nestedSlice_def

theorem rollout_one_at_a_time_witness:
  "\<exists>prs'. syncRollingUpdate refK rollW rolloutW (UniformObjectMap []) = Inr prs' \<and>
     claims (prChildren (hd prs')) ''apps'' ''Deployment'' ''web'' \<and>
     shouldContinueRolling refK rollW (hd (fst (beforeMove refK rollW rolloutW (UniformObjectMap [])))) (UniformObjectMap []) = None"
proof -
  obtain prs' where prs': "syncRollingUpdate refK rollW rolloutW (UniformObjectMap []) = Inr prs'"
      "claims (prChildren (hd prs')) ''apps'' ''Deployment'' ''web''"
    by (simp add: rolloutW_eval numeral_2_eq_2)
  have "list_all (\<lambda>pr. plainKinds (prChildren pr)) rolloutW"
    by (simp add: rolloutW_def latestW_def parentRevisionW_def revisionW_def deployW_def prChildren_def plainKinds_def)
  from rollout_one_at_a_time [OF prs'(1) this] prs'(2)
  obtain moved where moved: "moved \<noteq> None \<longrightarrow>
        shouldContinueRolling refK rollW (hd (fst (beforeMove refK rollW rolloutW (UniformObjectMap [])))) (UniformObjectMap []) = None"
      "claims (prChildren (hd rolloutW)) ''apps'' ''Deployment'' ''web'' \<or>
       (\<forall>pr \<in> set rolloutW. \<not> wants rollW (prDesiredChildMap (hd rolloutW)) ''apps'' ''Deployment'' ''web'' (prChildren pr)) \<or>
       settled refK (UniformObjectMap []) (prDesiredChildMap (hd rolloutW)) ''apps'' ''Deployment'' ''web'' \<or> moved = Some (''apps'', ''Deployment'', ''web'')"
    by force
  have "\<not> settled refK (UniformObjectMap []) (prDesiredChildMap (hd rolloutW)) ''apps'' ''Deployment'' ''web''"
    by (simp add: settled_def)
  moreover have "\<not> claims (prChildren (hd rolloutW)) ''apps'' ''Deployment'' ''web''"
    "\<exists>pr \<in> set rolloutW. wants rollW (prDesiredChildMap (hd rolloutW)) ''apps'' ''Deployment'' ''web'' (prChildren pr)"
    by (simp_all add: rolloutW_def latestW_def parentRevisionW_def revisionW_def deployW_def desiredW_def prChildren_def wants_def isRolling_def
        rollW_simps isDesired_def GroupKind_def)
  ultimately have "moved \<noteq> None" using moved(2) by auto
  with moved(1) prs' show ?thesis by blast
qed

end
