(* ===== verification/Rollout.thy ===== *)
theory Rollout
  imports Rolling
begin

text \<open>
  Progress of a rolling update, over the syncs that make it up: \<^verbatim>\<open>composite/rolling_update.go\<close>.  As long as every sync finds the children that are already
  on the latest revision happy, each sync brings at least one more child to it, so the rollout ends after at most as
  many syncs as there are children.
\<close>

section \<open>One sync\<close>

text \<open>The children of the latest hook response that are updated by rolling, as a claim names them.\<close>

definition childId :: "'w k8s \<Rightarrow> unstructured \<Rightarrow> string \<times> string \<times> string" where
  "childId K child = (fst (ParseAPIVersion (GetAPIVersion K child)), GetKind K child, GetName K child)"

definition hookChildren :: "parentRevision \<Rightarrow> unstructured list" where
  "hookChildren pr = (case prSyncResult pr of None \<Rightarrow> [] | Some r \<Rightarrow> chrChildren r)"

definition rollingChildren :: "'w k8s \<Rightarrow> updateStrategyMap \<Rightarrow> parentRevision \<Rightarrow> (string \<times> string \<times> string) set" where
  "rollingChildren K m latest = {(g, k, n) \<in> childId K ` set (hookChildren latest). isRolling m g k}"

definition claimedBy :: "parentRevision \<Rightarrow> (string \<times> string \<times> string) set" where
  "claimedBy pr = {(g, k, n). claims (prChildren pr) g k n}"

lemma finite_rollingChildren [simp]: "finite (rollingChildren K m latest)"
  by (rule finite_subset [of _ "childId K ` set (hookChildren latest)"]) (auto simp: rollingChildren_def)

lemma kept_fields [simp]:
  "prSyncResult (addChild g k n pr) = prSyncResult pr" "prSyncResult (setChildren cs pr) = prSyncResult pr"
  by (simp_all add: addChild_def setChildren_def)

text \<open>Claims of the latest revision on children it desires survive the reconciliation of claims.\<close>

lemma syncRevisionClaims_keeps:
  assumes "prRevision latest \<noteq> None" "plainKinds (prChildren latest)" "wfChildren (prChildren latest)"
    and "claims (prChildren latest) g k n" "isRolling m g k" "isDesired (prDesiredChildMap latest) g k n"
  shows "claims (prChildren (hd (snd (syncRevisionClaims m (latest # prs))))) g k n"
proof -
  obtain ck where ck: "ck \<in> set (prChildren latest)" "crcAPIGroup ck = g" "crcKind ck = k" "n \<in> set (crcNames ck)"
    using assms(4) by (auto simp: claims_def)
  have "ck \<in> set (snd (claimKinds m (prDesiredChildMap latest) 0 (prChildren latest) []))"
    using claimKinds_keeps [OF assms(2,3) ck(1)] ck(2-4) assms(5,6) by simp
  with ck assms(1) show ?thesis by (auto simp: syncRevisionClaims_def case_prod_beta prChildren_setChildren claims_def)
qed

text \<open>What the loop over the desired children keeps: the latest revision gains claims and loses none, and the map of claims
  names the latest revision only for children it claims.\<close>

definition gainInv :: "(string \<times> string \<times> string) set \<Rightarrow> childClaimMap \<Rightarrow> CompositeHookResponse option \<Rightarrow> parentRevision list \<times> childClaimMap \<Rightarrow> bool" where
  "gainInv C claimed0 r s \<longleftrightarrow>
     fst s \<noteq> [] \<and> prRevision (hd (fst s)) \<noteq> None \<and> prSyncResult (hd (fst s)) = r \<and> C \<subseteq> claimedBy (hd (fst s)) \<and>
     (\<forall>g k n. CHR ''.'' \<notin> set k \<and> lookupClaim (snd s) g k n = Some 0 \<longrightarrow> (g, k, n) \<in> claimedBy (hd (fst s))) \<and>
     (\<forall>g k n. lookupClaim claimed0 g k n = Some 0 \<longrightarrow> lookupClaim (snd s) g k n = Some 0)"

lemma claimedBy_addChild: "prRevision pr \<noteq> None \<Longrightarrow> claimedBy (addChild g k n pr) = insert (g, k, n) (claimedBy pr)"
  by (auto simp: claimedBy_def prChildren_addChild claims_addName)

lemma gainInv_add:
  assumes "gainInv C claimed0 r (prs, claimed)" "CHR ''.'' \<notin> set k"
  shows "gainInv C claimed0 r (modifyAt 0 (addChild g k n) prs, setParentRevision claimed g k n 0)"
  using assms claimMapKey_inj [OF _ assms(2)] by (auto simp: gainInv_def claimedBy_addChild)

lemma gainInv_drop: "i \<noteq> 0 \<Longrightarrow> gainInv C claimed0 r (prs, claimed) \<Longrightarrow> gainInv C claimed0 r (modifyAt i f prs, claimed)"
  by (simp add: gainInv_def)

lemma giveChild_gain:
  assumes "gainInv C claimed0 r s" "CHR ''.'' \<notin> set (gvkKind v)"
  shows "gainInv C claimed0 r (giveChild K observed v isNil s child)"
proof -
  obtain prs claimed where s: "s = (prs, claimed)" by (cases s)
  note add = gainInv_add [OF assms(1) [unfolded s] assms(2)]
  show ?thesis
    using assms(1) add gainInv_drop [OF _ add]
    unfolding giveChild_def s Let_def prod.case by (auto split: option.split sum.split)
qed

lemma giveChildren_gain:
  assumes "gainInv C claimed0 r s" "\<forall>grp \<in> set (prDesiredChildMap (hd (fst s))). CHR ''.'' \<notin> set (gvkKind (fst grp))"
  shows "gainInv C claimed0 r (giveChildren K m observed s)"
  unfolding giveChildren_def
proof (rule foldl_inv [where I = "gainInv C claimed0 r"])
  show "gainInv C claimed0 r (giveKind K m observed s' grp)"
    if "grp \<in> set (prDesiredChildMap (hd (fst s)))" "gainInv C claimed0 r s'" for s' grp
    unfolding giveKind_def using that assms(2)
    by (auto intro!: foldl_inv [where I = "gainInv C claimed0 r"] giveChild_gain)
qed (rule assms(1))

text \<open>The search for the next child: when nothing holds the rollout up, either the latest revision is responsible
  for all children the hook asks for, or it takes over one more.\<close>

lemma moveNext_gain:
  assumes "shouldContinueRolling K m (hd prs) observed = None" "moveNext K m observed claimed children prs = Inr prs'" "prRevision (hd prs) \<noteq> None"
  shows "claimedBy (hd prs) \<subseteq> claimedBy (hd prs') \<and>
     ((\<forall>(g, k, n) \<in> childId K ` set children. isRolling m g k \<longrightarrow> lookupClaim claimed g k n = Some 0) \<or>
      (\<exists>(g, k, n) \<in> childId K ` set children. isRolling m g k \<and> lookupClaim claimed g k n \<noteq> Some 0 \<and> (g, k, n) \<in> claimedBy (hd prs')))"
  using assms(2)
proof (induction children)
  case Nil
  then show ?case by (auto simp: claimedBy_def dest: setLatestCondition_children)
next
  case (Cons child children)
  obtain g k n where id: "childId K child = (g, k, n)" by (metis surj_pair)
  then have parts: "fst (ParseAPIVersion (GetAPIVersion K child)) = g" "GetKind K child = k" "GetName K child = n"
    by (simp_all add: childId_def)
  show ?case
  proof (cases "isRolling m g k \<and> lookupClaim claimed g k n \<noteq> Some 0")
    case True
    then have "prChildren (hd prs') = addName g k n (prChildren (hd prs))"
      using Cons.prems assms(1,3) parts by (auto simp: Let_def lookupClaim_def prChildren_addChild dest!: setLatestCondition_children)
    then show ?thesis using True id by (auto simp: claimedBy_def claims_addName)
  next
    case False
    then have "moveNext K m observed claimed children prs = Inr prs'"
      using Cons.prems parts by (auto simp: Let_def lookupClaim_def split: if_splits)
    from Cons.IH [OF this] False id show ?thesis by auto
  qed
qed

text \<open>A sync of a rollout that nothing holds up: the children on the latest revision are happy, the hook asks for
  the children \<open>T\<close> of kinds updated by rolling, and each of them is in the map of desired children.  Kinds have no
  dot, and the claims of the latest revision have one entry per kind.\<close>

definition rolloutSync :: "'w k8s \<Rightarrow> updateStrategyMap \<Rightarrow> (string \<times> string \<times> string) set \<Rightarrow> parentRevision list \<Rightarrow> ObjectMap
    \<Rightarrow> parentRevision list \<Rightarrow> bool" where
  "rolloutSync K m T prs observed prs' \<longleftrightarrow>
     syncRollingUpdate K m prs observed = Inr prs' \<and> rollingChildren K m (hd prs) = T \<and>
     shouldContinueRolling K m (hd (fst (beforeMove K m prs observed))) observed = None \<and>
     (\<forall>(g, k, n) \<in> T. CHR ''.'' \<notin> set k \<and> isDesired (prDesiredChildMap (hd prs)) g k n) \<and>
     (\<forall>grp \<in> set (prDesiredChildMap (hd prs)). CHR ''.'' \<notin> set (gvkKind (fst grp))) \<and>
     list_all (\<lambda>pr. plainKinds (prChildren pr)) prs \<and> wfChildren (prChildren (hd prs))"

lemma rolloutSync_before:
  assumes "rolloutSync K m T prs observed prs'"
  obtains claimed0 prs1 claimed1 r where
    "beforeMove K m prs observed = (prs1, claimed1)" "fst (syncRevisionClaims m prs) = claimed0"
    "prSyncResult (hd prs1) = Some r" "moveNext K m observed claimed1 (chrChildren r) prs1 = Inr prs'"
    "hookChildren (hd prs) = chrChildren r" "gainInv (claimedBy (hd prs) \<inter> T) claimed0 (prSyncResult (hd prs)) (prs1, claimed1)"
proof -
  obtain claimed0 prs0 where c0: "syncRevisionClaims m prs = (claimed0, prs0)" by (metis surj_pair)
  obtain prs1 claimed1 where c1: "giveChildren K m observed (prs0, claimed0) = (prs1, claimed1)" by (metis surj_pair)
  have sync: "syncRollingUpdate K m prs observed = Inr prs'" using assms by (simp add: rolloutSync_def)
  then have ne: "prs \<noteq> []" "prRevision (hd prs) \<noteq> None" by (cases prs; auto simp: syncRollingUpdate_def split: if_splits)+
  then obtain r where mv: "prSyncResult (hd prs1) = Some r" "moveNext K m observed claimed1 (chrChildren r) prs1 = Inr prs'"
    using sync c0 c1 by (auto simp: syncRollingUpdate_def split: if_splits option.splits)
  obtain latest rest where prs: "prs = latest # rest" using ne(1) by (cases prs) simp_all
  have plain: "list_all (\<lambda>pr. plainKinds (prChildren pr)) prs" using assms by (simp add: rolloutSync_def)
  have keeps: "claims (prChildren (hd prs0)) g k n"
    if "claims (prChildren latest) g k n" "isRolling m g k" "isDesired (prDesiredChildMap latest) g k n" for g k n
    using syncRevisionClaims_keeps [OF _ _ _ that, of rest] ne(2) c0 prs assms by (simp add: rolloutSync_def)
  have hd0: "prs0 \<noteq> []" "prRevision (hd prs0) \<noteq> None" "prSyncResult (hd prs0) = prSyncResult latest"
      "prDesiredChildMap (hd prs0) = prDesiredChildMap latest"
    using arg_cong [OF c0, of snd, symmetric] ne(2) by (simp_all add: prs syncRevisionClaims_def case_prod_beta del: not_None_eq)
  have "claimedBy (hd prs) \<inter> T \<subseteq> claimedBy (hd prs0)"
    using keeps assms prs by (auto simp: rolloutSync_def claimedBy_def rollingChildren_def)
  moreover have "(g, k, n) \<in> claimedBy (hd prs0)" if "CHR ''.'' \<notin> set k" "lookupClaim claimed0 g k n = Some 0" for g k n
    using syncRevisionClaims_first [OF plain that(1), of m g n 0] that(2) keeps
    by (simp add: arg_cong [OF c0, of fst, simplified] prs [symmetric] firstWants_def wants_def claimedBy_def) (simp add: prs)
  ultimately have "gainInv (claimedBy (hd prs) \<inter> T) claimed0 (prSyncResult (hd prs)) (prs0, claimed0)"
    using hd0 prs by (simp add: gainInv_def)
  then have inv: "gainInv (claimedBy (hd prs) \<inter> T) claimed0 (prSyncResult (hd prs)) (prs1, claimed1)"
    using giveChildren_gain [of _ claimed0 _ "(prs0, claimed0)" K m observed] c1 hd0(4) assms prs by (simp add: rolloutSync_def)
  then have "prSyncResult (hd prs) = Some r" using mv(1) by (simp add: gainInv_def)
  then have "hookChildren (hd prs) = chrChildren r" by (simp add: hookChildren_def)
  with that [OF _ _ mv this inv] c0 c1 show ?thesis by (simp add: beforeMove_def)
qed

lemma rolloutSync_lookup:
  assumes "rolloutSync K m T prs observed prs'" "(g, k, n) \<in> T"
  shows "lookupClaim (fst (syncRevisionClaims m prs)) g k n = Some 0 \<longleftrightarrow> (g, k, n) \<in> claimedBy (hd prs)"
proof -
  have "prs \<noteq> []" using assms(1) by (auto simp: rolloutSync_def syncRollingUpdate_def)
  moreover have "CHR ''.'' \<notin> set k \<and> isDesired (prDesiredChildMap (hd prs)) g k n"
    using assms(1) bspec [OF _ assms(2), of "\<lambda>(g, k, n). CHR ''.'' \<notin> set k \<and> isDesired (prDesiredChildMap (hd prs)) g k n"]
    by (simp add: rolloutSync_def)
  moreover have "isRolling m g k" "list_all (\<lambda>pr. plainKinds (prChildren pr)) prs"
    using assms by (auto simp: rolloutSync_def rollingChildren_def)
  ultimately show ?thesis
    using syncRevisionClaims_first [of prs k m g n 0] by (cases prs) (simp_all add: firstWants_def wants_def claimedBy_def)
qed

lemma rolloutSync_progress:
  assumes "rolloutSync K m T prs observed prs'"
  shows "claimedBy (hd prs) \<inter> T \<subseteq> claimedBy (hd prs')"
    and "T \<subseteq> claimedBy (hd prs') \<or> (\<exists>c \<in> T - claimedBy (hd prs). c \<in> claimedBy (hd prs'))"
proof -
  from assms obtain claimed0 prs1 claimed1 r where b:
    "beforeMove K m prs observed = (prs1, claimed1)" "fst (syncRevisionClaims m prs) = claimed0"
    "prSyncResult (hd prs1) = Some r" "moveNext K m observed claimed1 (chrChildren r) prs1 = Inr prs'"
    "hookChildren (hd prs) = chrChildren r" "gainInv (claimedBy (hd prs) \<inter> T) claimed0 (prSyncResult (hd prs)) (prs1, claimed1)"
    by (rule rolloutSync_before)
  have go: "shouldContinueRolling K m (hd prs1) observed = None" "T = rollingChildren K m (hd prs)"
      "\<And>g k n. (g, k, n) \<in> T \<Longrightarrow> CHR ''.'' \<notin> set k"
    using assms b(1) by (auto simp: rolloutSync_def)
  have T: "(g, k, n) \<in> T \<longleftrightarrow> (g, k, n) \<in> childId K ` set (chrChildren r) \<and> isRolling m g k" for g k n
    using b(5) go(2) by (auto simp: rollingChildren_def)
  have inv: "prRevision (hd prs1) \<noteq> None" "claimedBy (hd prs) \<inter> T \<subseteq> claimedBy (hd prs1)"
      "\<And>g k n. CHR ''.'' \<notin> set k \<Longrightarrow> lookupClaim claimed1 g k n = Some 0 \<Longrightarrow> (g, k, n) \<in> claimedBy (hd prs1)"
      "\<And>g k n. lookupClaim claimed0 g k n = Some 0 \<Longrightarrow> lookupClaim claimed1 g k n = Some 0"
    using b(6) by (simp_all add: gainInv_def)
  note gain = moveNext_gain [OF go(1) b(4) inv(1)]
  show "claimedBy (hd prs) \<inter> T \<subseteq> claimedBy (hd prs')" using gain inv(2) by blast
  from gain consider "\<forall>(g, k, n) \<in> T. lookupClaim claimed1 g k n = Some 0"
    | g k n where "(g, k, n) \<in> T" "lookupClaim claimed1 g k n \<noteq> Some 0" "(g, k, n) \<in> claimedBy (hd prs')"
    using T by fast
  then show "T \<subseteq> claimedBy (hd prs') \<or> (\<exists>c \<in> T - claimedBy (hd prs). c \<in> claimedBy (hd prs'))"
  proof cases
    case 1
    then have "T \<subseteq> claimedBy (hd prs1)" using go(3) inv(3) by fast
    then show ?thesis using gain by blast
  next
    case 2
    then show ?thesis using rolloutSync_lookup [OF assms 2(1)] inv(4) b(2) by blast
  qed
qed

section \<open>The whole rollout\<close>

text \<open>The syncs of a rollout, numbered: each starts from the claims the one before it left.\<close>

lemma rollout_grows:
  assumes "\<And>i. rolloutSync K m T (R i) (obs i) (R' i)" "\<And>i. claimedBy (hd (R' i)) \<subseteq> claimedBy (hd (R (Suc i)))"
  shows "card T \<le> card (T \<inter> claimedBy (hd (R i))) + (card T - i)"
proof (induction i)
  case (Suc i)
  have fin: "finite T" using assms(1) [of i] by (auto simp: rolloutSync_def)
  let ?C = "\<lambda>i. T \<inter> claimedBy (hd (R i))"
  have sub: "?C i \<subseteq> ?C (Suc i)" and new: "T \<subseteq> claimedBy (hd (R (Suc i))) \<or> (\<exists>c \<in> T. c \<notin> ?C i \<and> c \<in> ?C (Suc i))"
    using rolloutSync_progress [OF assms(1) [of i]] assms(2) [of i] by blast+
  from new show ?case
  proof
    assume "T \<subseteq> claimedBy (hd (R (Suc i)))"
    then show ?thesis by (simp add: inf.absorb1)
  next
    assume "\<exists>c \<in> T. c \<notin> ?C i \<and> c \<in> ?C (Suc i)"
    then have "card (?C i) < card (?C (Suc i))" using sub fin by (intro psubset_card_mono) auto
    then show ?thesis using Suc.IH by simp
  qed
qed simp

lemma moveNext_done:
  assumes "\<forall>(g, k, n) \<in> childId K ` set children. isRolling m g k \<longrightarrow> lookupClaim claimed g k n = Some 0"
  shows "moveNext K m observed claimed children prs = moveNext K m observed claimed [] prs"
  using assms by (induction children) (auto simp: childId_def lookupClaim_def Let_def)

lemma rolloutSync_done:
  assumes "rolloutSync K m T prs observed prs'" "T \<subseteq> claimedBy (hd prs)"
  shows "setLatestCondition K (fst (beforeMove K m prs observed)) (updatedCondition ''True'' ''OnLatestRevision''
       (''latest ControllerRevision: '' @ crName (the (prRevision (hd (fst (beforeMove K m prs observed))))))) = Inr prs'"
proof -
  from assms(1) obtain claimed0 prs1 claimed1 r where b:
    "beforeMove K m prs observed = (prs1, claimed1)" "fst (syncRevisionClaims m prs) = claimed0"
    "prSyncResult (hd prs1) = Some r" "moveNext K m observed claimed1 (chrChildren r) prs1 = Inr prs'"
    "hookChildren (hd prs) = chrChildren r" "gainInv (claimedBy (hd prs) \<inter> T) claimed0 (prSyncResult (hd prs)) (prs1, claimed1)"
    by (rule rolloutSync_before)
  have "lookupClaim claimed1 g k n = Some 0" if "(g, k, n) \<in> childId K ` set (chrChildren r)" "isRolling m g k" for g k n
  proof -
    have T: "(g, k, n) \<in> T" using that assms(1) b(5) by (auto simp: rolloutSync_def rollingChildren_def)
    then have "lookupClaim claimed0 g k n = Some 0" using rolloutSync_lookup [OF assms(1) T] assms(2) b(2) by auto
    then show ?thesis using b(6) by (simp add: gainInv_def)
  qed
  then have "moveNext K m observed claimed1 (chrChildren r) prs1 = moveNext K m observed claimed1 [] prs1"
    by (intro moveNext_done) (simp only: split_paired_Ball_Sigma Ball_def split_paired_All prod.case, blast)
  then show ?thesis using b(1,4) by simp
qed

text \<open>C8: A rollout ends.  As long as every sync finds the children that are on the latest revision happy, and starts from the
  claims the sync before it left, then after as many syncs as the hook asks for children of kinds updated
  by rolling, the latest revision is responsible for all of them, and each sync from then on reports the parent as
  updated.\<close>

theorem rollout_finishes:
  assumes "\<And>i. rolloutSync K m T (R i) (obs i) (R' i)" "\<And>i. claimedBy (hd (R' i)) \<subseteq> claimedBy (hd (R (Suc i)))" "card T \<le> i"
  shows "T \<subseteq> claimedBy (hd (R i)) \<and>
    setLatestCondition K (fst (beforeMove K m (R i) (obs i))) (updatedCondition ''True'' ''OnLatestRevision''
       (''latest ControllerRevision: '' @ crName (the (prRevision (hd (fst (beforeMove K m (R i) (obs i)))))))) = Inr (R' i)"
proof -
  have "finite T" using assms(1) [of i] by (auto simp: rolloutSync_def)
  moreover have "card T \<le> card (T \<inter> claimedBy (hd (R i)))"
    using rollout_grows [of K m T R obs R' i] assms by simp
  ultimately have "T \<inter> claimedBy (hd (R i)) = T" by (intro card_subset_eq card_seteq) auto
  then have "T \<subseteq> claimedBy (hd (R i))" by blast
  with rolloutSync_done [OF assms(1)] show ?thesis by blast
qed

text \<open>The rollout of the child \<^verbatim>\<open>web\<close>: the first sync moves it, and the others find it in its desired state.\<close>

definition onLatestW :: parentRevision where
  "onLatestW = (hd rolloutW)\<lparr>prRevision := Some (revisionW [\<lparr>crcAPIGroup = ''apps'', crcKind = ''Deployment'', crcNames = [''web'']\<rparr>])\<rparr>"

definition rolloutR :: "nat \<Rightarrow> parentRevision list" where
  "rolloutR i = (if i = 0 then rolloutW else [onLatestW])"

definition observedR :: "nat \<Rightarrow> ObjectMap" where
  "observedR i = UniformObjectMap (if i = 0 then [] else desiredW)"

lemma podObj_fixed: "ApplyUpdate refK (podObj ''web'') (podObj ''web'') = Inr (podObj ''web'')"
  by (simp add: ApplyUpdate_def GetLastApplied_def nullifyLastAppliedAnnotation_def refK_simps podObj_def metaOf_def jget_def
      strMapOf_def Merge_def merge_merged merged_simps objectM_def removeStale_def revertObjectMetaSystemFields_def
      objectMetaSystemFields_def revertField_def SetLastApplied_def jdel_def)

lemma rollingChildren_rolloutR: "rollingChildren refK rollW (hd (rolloutR i)) = {(''apps'', ''Deployment'', ''web'')}"
proof -
  have "hookChildren (hd (rolloutR i)) = [webW]" by (simp add: rolloutR_def onLatestW_def rolloutW_def hookChildren_def)
  moreover have "childId refK webW = (''apps'', ''Deployment'', ''web'')"
    by (simp add: childId_def webW_def refK_simps metaOf_def jget_def refName_def ParseAPIVersion_def numeral_2_eq_2)
  ultimately show ?thesis by (auto simp: rollingChildren_def isRolling_def rollW_simps)
qed

lemma rolloutR_sync: "\<exists>prs'. syncRollingUpdate refK rollW (rolloutR i) (observedR i) = Inr prs' \<and> prChildren (hd prs') = prChildren onLatestW"
  by (cases i) (simp_all add: rolloutR_def observedR_def onLatestW_def rolloutW_eval numeral_2_eq_2)

lemma podObj_happy: "happy refK rollS (Some (podObj ''web'')) (Some (podObj ''web''))"
proof -
  have "generationSeen refK (podObj ''web'')"
    by (simp add: generationSeen_def GetObservedGeneration_def refK_simps podObj_def nestedInt_def)
  then show ?thesis by (simp add: happy_def podObj_fixed rollS_def)
qed

lemma rolloutR_continues:
  "shouldContinueRolling refK rollW (hd (fst (beforeMove refK rollW (rolloutR i) (observedR i)))) (observedR i) = None"
  unfolding shouldContinueRolling_iff
  by (cases i) (simp_all add: rolloutR_def observedR_def onLatestW_def rolloutW_eval beforeMove_def numeral_2_eq_2 podObj_happy)

lemma rolloutR_wf:
  "\<forall>(g, k, n) \<in> {(''apps'', ''Deployment'', ''web'')}. CHR ''.'' \<notin> set k \<and> isDesired (prDesiredChildMap (hd (rolloutR i))) g k n"
  "\<forall>grp \<in> set (prDesiredChildMap (hd (rolloutR i))). CHR ''.'' \<notin> set (gvkKind (fst grp))"
  "list_all (\<lambda>pr. plainKinds (prChildren pr)) (rolloutR i)" "wfChildren (prChildren (hd (rolloutR i)))"
  by (cases i; simp add: rolloutR_def onLatestW_def rolloutW_def latestW_def parentRevisionW_def revisionW_def deployW_def
      desiredW_def prChildren_def plainKinds_def wfChildren_def isDesired_def GroupKind_def)+

theorem rollout_finishes_witness:
  "\<not> claims (prChildren (hd (rolloutR 0))) ''apps'' ''Deployment'' ''web'' \<and>
   (\<exists>prs'. syncRollingUpdate refK rollW (rolloutR 1) (observedR 1) = Inr prs' \<and>
      setLatestCondition refK (fst (beforeMove refK rollW (rolloutR 1) (observedR 1))) (updatedCondition ''True'' ''OnLatestRevision''
       (''latest ControllerRevision: '' @ crName (the (prRevision (hd (fst (beforeMove refK rollW (rolloutR 1) (observedR 1)))))))) = Inr prs')"
proof -
  let ?T = "{(''apps'', ''Deployment'', ''web'')}"
  define R' where "R' i = projr (syncRollingUpdate refK rollW (rolloutR i) (observedR i))" for i
  have R': "syncRollingUpdate refK rollW (rolloutR i) (observedR i) = Inr (R' i)" "prChildren (hd (R' i)) = prChildren onLatestW" for i
    using rolloutR_sync [of i] by (auto simp: R'_def)
  have "rolloutSync refK rollW ?T (rolloutR i) (observedR i) (R' i)" for i
    unfolding rolloutSync_def by (intro conjI R'(1) rollingChildren_rolloutR rolloutR_continues rolloutR_wf)
  moreover have "claimedBy (hd (R' i)) \<subseteq> claimedBy (hd (rolloutR (Suc i)))" for i
    by (simp add: claimedBy_def R'(2) rolloutR_def)
  moreover have "card ?T \<le> 1" using is_singleton_altdef [of ?T] is_singletonI by (metis order_refl)
  ultimately have "setLatestCondition refK (fst (beforeMove refK rollW (rolloutR 1) (observedR 1))) (updatedCondition ''True'' ''OnLatestRevision''
       (''latest ControllerRevision: '' @ crName (the (prRevision (hd (fst (beforeMove refK rollW (rolloutR 1) (observedR 1)))))))) = Inr (R' 1)"
    by (rule rollout_finishes [of refK rollW ?T rolloutR observedR R' 1, THEN conjunct2])
  moreover have "\<not> claims (prChildren (hd (rolloutR 0))) ''apps'' ''Deployment'' ''web''"
    by (simp add: rolloutR_def rolloutW_def latestW_def parentRevisionW_def revisionW_def prChildren_def)
  ultimately show ?thesis using R'(1) by blast
qed

end
