(* ===== verification/Metrics.thy ===== *)
theory Metrics
  imports Prelude Complex_Main
begin

text \<open>
  Instrumentation of the HTTP clients of hooks, \<^verbatim>\<open>pkg/metrics/http.go\<close>: five collectors for every controller, hook and
  address, kept in a cache without expiration and registered once with the registry of the process.  The Prometheus
  library and the cache are a parameter, the record \<open>'w prom\<close>; a collector is the data it is
  constructed from.
\<close>

section \<open>Data\<close>

record metricOpts =
  mtNamespace :: string
  mtSubsystem :: string
  mtName :: string
  mtHelp :: string
  mtConstLabels :: strmap

datatype buckets = DefBuckets | Buckets "rat list"

datatype collector =
    CounterVec metricOpts "string list"
  | HistogramVec metricOpts buckets "string list"
  | Gauge metricOpts

record instrumentation =
  imDuration :: collector
  imRequests :: collector
  imDnsDuration :: collector
  imTlsDuration :: collector
  imInflight :: collector

text \<open>What a trace callback observes: a histogram, and the value of its label.\<close>

record InstrumentTrace =
  itDNSStart :: "collector \<times> string"
  itDNSDone :: "collector \<times> string"
  itTLSHandshakeStart :: "collector \<times> string"
  itTLSHandshakeDone :: "collector \<times> string"

record cachedInstrumentation =
  ciCollector :: instrumentation
  ciTrace :: InstrumentTrace

text \<open>An HTTP client: its timeout, the TLS settings of its transport and the collectors the transport is wrapped with.\<close>

record httpClient =
  hcTimeout :: int
  hcRootCAs :: "string option"
  hcCertificate :: "string option"
  hcMetrics :: "cachedInstrumentation option"

record 'w prom =
  MetricsCacheGet :: "string \<Rightarrow> ('w, cachedInstrumentation option) state"
  MetricsCacheSet :: "string \<Rightarrow> cachedInstrumentation \<Rightarrow> ('w, unit) state"
  Register :: "collector list \<Rightarrow> ('w, err option) state"

section \<open>Operations\<close>

definition metacontrollerPrefix :: string where
  "metacontrollerPrefix = ''metacontroller''"

definition hookOpts :: "string \<Rightarrow> strmap \<Rightarrow> string \<Rightarrow> string \<Rightarrow> metricOpts" where
  "hookOpts hookType constLabels name help =
     \<lparr>mtNamespace = metacontrollerPrefix, mtSubsystem = hookType, mtName = name, mtHelp = help, mtConstLabels = constLabels\<rparr>"

definition createNewMetrics :: "string \<Rightarrow> strmap \<Rightarrow> instrumentation \<times> InstrumentTrace" where
  "createNewMetrics hookType constLabels =
     (let outgoing =
        \<lparr>imDuration = HistogramVec (hookOpts hookType constLabels ''request_duration_histogram_seconds''
             ''A histogram of outgoing request latencies.'') DefBuckets [''method''],
         imRequests = CounterVec (hookOpts hookType constLabels ''requests_total''
             ''A counter for outgoing requests from the wrapped client.'') [''code'', ''method''],
         imDnsDuration = HistogramVec (hookOpts hookType constLabels ''dns_duration_histogram_seconds''
             ''Trace dns latency histogram.'') (Buckets [5 / 1000, 1 / 100, 25 / 1000, 5 / 100]) [''event''],
         imTlsDuration = HistogramVec (hookOpts hookType constLabels ''tls_duration_histogram_seconds''
             ''Trace tls latency histogram.'') (Buckets [5 / 100, 1 / 10, 25 / 100, 5 / 10]) [''event''],
         imInflight = Gauge (hookOpts hookType constLabels ''in_flight_requests''
             ''A gauge of in-flight outgoing requests for the wrapped client.'')\<rparr>
      in (outgoing,
          \<lparr>itDNSStart = (imDnsDuration outgoing, ''dns_start''), itDNSDone = (imDnsDuration outgoing, ''dns_done''),
           itTLSHandshakeStart = (imTlsDuration outgoing, ''tls_handshake_start''),
           itTLSHandshakeDone = (imTlsDuration outgoing, ''tls_handshake_done'')\<rparr>))"

text \<open>What the instrumentation shows to the registry, and what the registry gathers from it.\<close>

definition Describe :: "instrumentation \<Rightarrow> collector list" where
  "Describe i = [imDuration i, imRequests i, imDnsDuration i, imTlsDuration i, imInflight i]"

text \<open>The instrumentation is cached before it is registered.\<close>

definition getOrCreateMetrics :: "'w prom \<Rightarrow> string \<Rightarrow> string \<Rightarrow> strmap \<Rightarrow> ('w, err + cachedInstrumentation) state" where
  "getOrCreateMetrics P key hookType constLabels =
     do { found \<leftarrow> MetricsCacheGet P key;
          case found of
            Some i \<Rightarrow> State_Monad.return (Inr i)
          | None \<Rightarrow>
              (case createNewMetrics hookType constLabels of
                 (collector, trace) \<Rightarrow>
                   do { MetricsCacheSet P key \<lparr>ciCollector = collector, ciTrace = trace\<rparr>;
                        err \<leftarrow> Register P (Describe collector);
                        State_Monad.return (case err of
                            Some e \<Rightarrow> Inl e
                          | None \<Rightarrow> Inr \<lparr>ciCollector = collector, ciTrace = trace\<rparr>) }) }"

definition clientLabels :: "string \<Rightarrow> string \<Rightarrow> string \<Rightarrow> strmap" where
  "clientLabels controllerName controllerType url =
     [(''url'', url), (''controller_name'', controllerName), (''controller_type'', controllerType)]"

definition metricsKey :: "string \<Rightarrow> string \<Rightarrow> string \<Rightarrow> string" where
  "metricsKey controllerName hookType url = controllerName @ ''/'' @ hookType @ ''/'' @ url"

definition InstrumentClientWithConstLabels :: "'w prom \<Rightarrow> string \<Rightarrow> string \<Rightarrow> string \<Rightarrow> httpClient \<Rightarrow> string \<Rightarrow> ('w, err + httpClient) state" where
  "InstrumentClientWithConstLabels P controllerName controllerType hookType c url =
     do { r \<leftarrow> getOrCreateMetrics P (metricsKey controllerName hookType url) hookType (clientLabels controllerName controllerType url);
          State_Monad.return (case r of Inl e \<Rightarrow> Inl e | Inr i \<Rightarrow> Inr (c\<lparr>hcMetrics := Some i\<rparr>)) }"

section \<open>The registry\<close>

text \<open>What the registry knows a collector by: its full name and constant labels.  Collectors of the same full
  name must agree in their help text and in the names of their labels.\<close>

primrec optsOf :: "collector \<Rightarrow> metricOpts" where
  "optsOf (CounterVec opts _) = opts"
| "optsOf (HistogramVec opts _ _) = opts"
| "optsOf (Gauge opts) = opts"

primrec labelNames :: "collector \<Rightarrow> string list" where
  "labelNames (CounterVec _ ls) = ls"
| "labelNames (HistogramVec _ _ ls) = ls"
| "labelNames (Gauge _) = []"

definition fqName :: "collector \<Rightarrow> string" where
  "fqName c = mtNamespace (optsOf c) @ ''_'' @ mtSubsystem (optsOf c) @ ''_'' @ mtName (optsOf c)"

definition metricID :: "collector \<Rightarrow> string \<times> strmap" where
  "metricID c = (fqName c, mtConstLabels (optsOf c))"

definition agree :: "collector \<Rightarrow> collector \<Rightarrow> bool" where
  "agree c d \<longleftrightarrow> fqName c = fqName d \<longrightarrow>
     mtHelp (optsOf c) = mtHelp (optsOf d) \<and> labelNames c = labelNames d \<and> map fst (mtConstLabels (optsOf c)) = map fst (mtConstLabels (optsOf d))"

definition registrable :: "collector list \<Rightarrow> collector set \<Rightarrow> bool" where
  "registrable cs R \<longleftrightarrow> distinct (map metricID cs) \<and> metricID ` set cs \<inter> metricID ` R = {} \<and> (\<forall>c \<in> set cs. \<forall>d \<in> set cs \<union> R. agree c d)"

text \<open>The documented behaviour of cache and registry, read off the world by \<open>cached\<close> and \<open>registered\<close>: an entry without expiration
  stays, a collector that is new and consistent with the others is registered, and any other is refused.\<close>

definition prom_law :: "'w prom \<Rightarrow> ('w \<Rightarrow> string \<Rightarrow> cachedInstrumentation option) \<Rightarrow> ('w \<Rightarrow> collector set) \<Rightarrow> bool" where
  "prom_law P cached registered \<longleftrightarrow>
     (\<forall>key w. run_state (MetricsCacheGet P key) w = (cached w key, w)) \<and>
     (\<forall>key i w. cached (snd (run_state (MetricsCacheSet P key i) w)) = (cached w)(key \<mapsto> i) \<and>
        registered (snd (run_state (MetricsCacheSet P key i) w)) = registered w) \<and>
     (\<forall>cs w. cached (snd (run_state (Register P cs) w)) = cached w \<and>
        (if registrable cs (registered w)
         then fst (run_state (Register P cs) w) = None \<and> registered (snd (run_state (Register P cs) w)) = registered w \<union> set cs
         else fst (run_state (Register P cs) w) \<noteq> None \<and> registered (snd (run_state (Register P cs) w)) = registered w))"

section \<open>The collectors of one client\<close>

definition hookTypes :: "string set" where
  "hookTypes = {''sync'', ''finalize'', ''customize''}"

definition clientMetrics :: "string \<Rightarrow> string \<Rightarrow> string \<Rightarrow> string \<Rightarrow> cachedInstrumentation" where
  "clientMetrics name type hook url =
     (case createNewMetrics hook (clientLabels name type url) of (c, t) \<Rightarrow> \<lparr>ciCollector = c, ciTrace = t\<rparr>)"

definition hookCollectors :: "string \<Rightarrow> strmap \<Rightarrow> collector list" where
  "hookCollectors hook labels = Describe (fst (createNewMetrics hook labels))"

lemma Describe_clientMetrics: "Describe (ciCollector (clientMetrics name type hook url)) = hookCollectors hook (clientLabels name type url)"
  by (simp add: clientMetrics_def hookCollectors_def case_prod_beta)

lemma hookCollectors_opts:
  assumes "c \<in> set (hookCollectors hook labels)"
  shows "mtNamespace (optsOf c) = metacontrollerPrefix" "mtSubsystem (optsOf c) = hook" "mtConstLabels (optsOf c) = labels"
  using assms by (auto simp: hookCollectors_def Describe_def createNewMetrics_def Let_def hookOpts_def)

lemma hookCollectors_names:
  "map (\<lambda>c. mtName (optsOf c)) (hookCollectors hook labels) = [''request_duration_histogram_seconds'', ''requests_total'',
     ''dns_duration_histogram_seconds'', ''tls_duration_histogram_seconds'', ''in_flight_requests'']"
  by (simp add: hookCollectors_def Describe_def createNewMetrics_def Let_def hookOpts_def)

lemma hookCollectors_agree:
  assumes "c \<in> set (hookCollectors hook labels)" "d \<in> set (hookCollectors hook' labels')" "mtName (optsOf c) = mtName (optsOf d)"
  shows "mtHelp (optsOf c) = mtHelp (optsOf d) \<and> labelNames c = labelNames d"
  using assms by (auto simp: hookCollectors_def Describe_def createNewMetrics_def Let_def hookOpts_def)

lemma hookTypes_plain: "hook \<in> hookTypes \<Longrightarrow> CHR ''_'' \<notin> set hook"
  by (auto simp: hookTypes_def)

lemma fqName_inj:
  assumes "c \<in> set (hookCollectors hook labels)" "d \<in> set (hookCollectors hook' labels')" "hook \<in> hookTypes" "hook' \<in> hookTypes"
    and "fqName c = fqName d"
  shows "hook = hook' \<and> mtName (optsOf c) = mtName (optsOf d)"
  using assms(5) append_sep_eq [OF hookTypes_plain [OF assms(3)] hookTypes_plain [OF assms(4)]]
  by (simp add: fqName_def hookCollectors_opts [OF assms(1)] hookCollectors_opts [OF assms(2)])

lemma hookCollectors_distinct: "distinct (map metricID (hookCollectors hook labels))"
proof -
  have "distinct (map (\<lambda>c. mtName (optsOf c)) (hookCollectors hook labels))" by (simp add: hookCollectors_names)
  moreover have "mtName (optsOf c) = mtName (optsOf d)"
    if "metricID c = metricID d" "c \<in> set (hookCollectors hook labels)" "d \<in> set (hookCollectors hook labels)" for c d
    using that by (simp add: metricID_def fqName_def hookCollectors_opts)
  ultimately show ?thesis unfolding distinct_map inj_on_def by blast
qed

section \<open>Every client's collectors are registered\<close>

text \<open>Collectors that other parts of the process register have names of their own.\<close>

definition foreign :: "collector \<Rightarrow> bool" where
  "foreign c \<longleftrightarrow> take 15 (fqName c) \<noteq> metacontrollerPrefix @ ''_''"

definition metricsInv :: "(string \<Rightarrow> cachedInstrumentation option) \<Rightarrow> collector set \<Rightarrow> bool" where
  "metricsInv cached registered \<longleftrightarrow>
     (\<forall>key i. cached key = Some i \<longrightarrow> (\<exists>name type hook url. hook \<in> hookTypes \<and> key = metricsKey name hook url \<and>
        i = clientMetrics name type hook url \<and> set (Describe (ciCollector i)) \<subseteq> registered)) \<and>
     (\<forall>c \<in> registered. foreign c \<or> (\<exists>key i. cached key = Some i \<and> c \<in> set (Describe (ciCollector i))))"

lemma hookCollectors_not_foreign:
  assumes "c \<in> set (hookCollectors hook labels)" "fqName c = fqName d"
  shows "\<not> foreign d"
proof -
  have "\<not> foreign c" unfolding foreign_def fqName_def hookCollectors_opts [OF assms(1)] metacontrollerPrefix_def by simp
  then show ?thesis by (simp add: foreign_def assms(2))
qed

lemma metrics_registrable:
  assumes "metricsInv cached registered" "cached (metricsKey name hook url) = None" "hook \<in> hookTypes"
  shows "registrable (hookCollectors hook (clientLabels name type url)) registered"
  unfolding registrable_def
proof (intro conjI ballI)
  let ?cs = "hookCollectors hook (clientLabels name type url)"
  have known: "\<exists>name' type' hook' url'. cached (metricsKey name' hook' url') \<noteq> None \<and> hook' \<in> hookTypes \<and>
      d \<in> set (hookCollectors hook' (clientLabels name' type' url'))"
    if "c \<in> set ?cs" "d \<in> registered" "fqName c = fqName d" for c d
    using assms(1) that hookCollectors_not_foreign [OF that(1,3)] unfolding metricsInv_def
    by (metis Describe_clientMetrics option.distinct(1))
  show "distinct (map metricID ?cs)" by (rule hookCollectors_distinct)
  show "metricID ` set ?cs \<inter> metricID ` registered = {}"
  proof -
    have False if cd: "c \<in> set ?cs" "d \<in> registered" "metricID c = metricID d" for c d
    proof -
      have eq: "fqName c = fqName d" "mtConstLabels (optsOf c) = mtConstLabels (optsOf d)" using cd(3) by (simp_all add: metricID_def)
      obtain name' type' hook' url' where d: "cached (metricsKey name' hook' url') \<noteq> None" "hook' \<in> hookTypes"
          "d \<in> set (hookCollectors hook' (clientLabels name' type' url'))"
        using known [OF cd(1,2) eq(1)] by blast
      have "hook = hook'" using fqName_inj [OF cd(1) d(3) assms(3) d(2) eq(1)] by simp
      moreover have "clientLabels name type url = clientLabels name' type' url'"
        using eq(2) by (simp add: hookCollectors_opts(3) [OF cd(1)] hookCollectors_opts(3) [OF d(3)])
      ultimately show False using d(1) assms(2) by (simp add: clientLabels_def)
    qed
    then show ?thesis by blast
  qed
  show "agree c d" if cd: "c \<in> set ?cs" "d \<in> set ?cs \<union> registered" for c d
  proof (cases "fqName c = fqName d")
    case True
    obtain name' type' hook' url' where d: "hook' \<in> hookTypes" "d \<in> set (hookCollectors hook' (clientLabels name' type' url'))"
      using cd True known [of c d] assms(3) by blast
    have "mtName (optsOf c) = mtName (optsOf d)" using fqName_inj [OF cd(1) d(2) assms(3) d(1) True] by simp
    from hookCollectors_agree [OF cd(1) d(2) this] show ?thesis
      by (simp add: agree_def hookCollectors_opts(3) [OF cd(1)] hookCollectors_opts(3) [OF d(2)] clientLabels_def)
  qed (simp add: agree_def)
qed

lemma metricsInv_add:
  assumes "metricsInv cached registered" "cached (metricsKey name hook url) = None" "hook \<in> hookTypes"
  shows "metricsInv (cached(metricsKey name hook url \<mapsto> clientMetrics name type hook url))
    (registered \<union> set (hookCollectors hook (clientLabels name type url)))"
  unfolding metricsInv_def
proof (intro conjI allI ballI impI)
  let ?key = "metricsKey name hook url" and ?i = "clientMetrics name type hook url"
  show "\<exists>name' type' hook' url'. hook' \<in> hookTypes \<and> key = metricsKey name' hook' url' \<and>
      i = clientMetrics name' type' hook' url' \<and> set (Describe (ciCollector i)) \<subseteq> registered \<union> set (hookCollectors hook (clientLabels name type url))"
    if "(cached(?key \<mapsto> ?i)) key = Some i" for key i
  proof (cases "key = ?key")
    case True
    then have i: "i = ?i" using that by simp
    show ?thesis
      using assms(3) True by (intro exI [of _ name] exI [of _ type] exI [of _ hook] exI [of _ url]) (simp add: i Describe_clientMetrics)
  next
    case False
    then have "cached key = Some i" using that by simp
    then show ?thesis using assms(1) unfolding metricsInv_def by blast
  qed
  show "foreign c \<or> (\<exists>key i. (cached(?key \<mapsto> ?i)) key = Some i \<and> c \<in> set (Describe (ciCollector i)))"
    if "c \<in> registered \<union> set (hookCollectors hook (clientLabels name type url))" for c
  proof (cases "c \<in> registered")
    case True
    then consider "foreign c" | key i where "cached key = Some i" "c \<in> set (Describe (ciCollector i))"
      using assms(1) unfolding metricsInv_def by blast
    then show ?thesis
    proof cases
      case 2
      then have "(cached(?key \<mapsto> ?i)) key = Some i" using assms(2) by auto
      with 2(2) show ?thesis by blast
    qed simp
  next
    case False
    then have "c \<in> set (Describe (ciCollector ?i))" using that by (simp add: Describe_clientMetrics)
    then show ?thesis by (intro disjI2 exI [of _ ?key] exI [of _ ?i]) simp
  qed
qed


text \<open>A registry and a cache in memory.\<close>

type_synonym promWorld = "(string \<times> cachedInstrumentation) list \<times> collector list"

definition registrableNow :: "collector list \<Rightarrow> collector list \<Rightarrow> bool" where
  "registrableNow cs R \<longleftrightarrow> distinct (map metricID cs) \<and> list_all (\<lambda>c. metricID c \<notin> set (map metricID R)) cs \<and>
     list_all (\<lambda>c. list_all (agree c) (cs @ R)) cs"

definition refProm :: "promWorld prom" where
  "refProm =
     \<lparr>MetricsCacheGet = (\<lambda>key. State (\<lambda>w. (map_of (fst w) key, w))),
      MetricsCacheSet = (\<lambda>key i. State (\<lambda>w. ((), ((key, i) # fst w, snd w)))),
      Register = (\<lambda>cs. State (\<lambda>w. if registrableNow cs (snd w) then (None, (fst w, cs @ snd w)) else (Some (LibErr ''duplicate''), w)))\<rparr>"

lemma refProm_law: "prom_law refProm (\<lambda>w. map_of (fst w)) (\<lambda>w. set (snd w))"
proof -
  have "registrableNow cs R = registrable cs (set R)" for cs R
    unfolding registrableNow_def registrable_def list_all_iff set_map set_append by blast
  then show ?thesis by (auto simp: prom_law_def refProm_def)
qed


text \<open>C38: The key in the cache does not name the kind of controller, and the labels do.  When a composite and a decorator
  controller have the same name, hook and address, the requests of the second one are counted under the
  kind of the first.\<close>

theorem InstrumentClient_shared_kind:
  assumes "prom_law P cached registered" "cached w (metricsKey name hookType url) = None"
    and "run_state (InstrumentClientWithConstLabels P name type hookType c url) w = (r, w')"
    and "run_state (InstrumentClientWithConstLabels P name type' hookType c' url) w' = (r', w'')"
  shows "\<exists>i. r' = Inr (c'\<lparr>hcMetrics := Some i\<rparr>) \<and> map_of (mtConstLabels (optsOf (imRequests (ciCollector i)))) ''controller_type'' = Some type"
proof -
  note law = assms(1) [unfolded prom_law_def]
  let ?key = "metricsKey name hookType url" and ?i = "clientMetrics name type hookType url"
  have get: "run_state (MetricsCacheGet P ?key) v = (cached v ?key, v)" for v using law by blast
  obtain w1 where w1: "run_state (MetricsCacheSet P ?key ?i) w = ((), w1)" by (metis surj_pair old.unit.exhaust)
  obtain e w2 where w2: "run_state (Register P (hookCollectors hookType (clientLabels name type url))) w1 = (e, w2)" by (metis surj_pair)
  have "cached w2 ?key = Some ?i" using law w1 w2 by (metis fun_upd_same snd_conv)
  moreover have "w' = w2"
    using assms(3) get [of w] assms(2) w1 w2
    by (simp add: InstrumentClientWithConstLabels_def getOrCreateMetrics_def case_prod_beta clientMetrics_def hookCollectors_def)
  ultimately have "r' = Inr (c'\<lparr>hcMetrics := Some ?i\<rparr>)"
    using assms(4) get [of w'] by (simp add: InstrumentClientWithConstLabels_def getOrCreateMetrics_def)
  moreover have "map_of (mtConstLabels (optsOf (imRequests (ciCollector ?i)))) ''controller_type'' = Some type"
    by (simp add: clientMetrics_def createNewMetrics_def Let_def hookOpts_def clientLabels_def)
  ultimately show ?thesis by blast
qed

theorem InstrumentClient_shared_kind_witness:
  "\<exists>i. fst (run_state (do { InstrumentClientWithConstLabels refProm ''c'' ''CompositeController'' ''sync''
         \<lparr>hcTimeout = 1, hcRootCAs = None, hcCertificate = None, hcMetrics = None\<rparr> ''u'';
       InstrumentClientWithConstLabels refProm ''c'' ''DecoratorController'' ''sync''
         \<lparr>hcTimeout = 1, hcRootCAs = None, hcCertificate = None, hcMetrics = None\<rparr> ''u'' }) ([], [])) =
       Inr \<lparr>hcTimeout = 1, hcRootCAs = None, hcCertificate = None, hcMetrics = Some i\<rparr> \<and>
     map_of (mtConstLabels (optsOf (imRequests (ciCollector i)))) ''controller_type'' = Some ''CompositeController''"
proof -
  let ?c = "\<lparr>hcTimeout = 1, hcRootCAs = None, hcCertificate = None, hcMetrics = None\<rparr>"
  let ?op = "\<lambda>type. InstrumentClientWithConstLabels refProm ''c'' type ''sync'' ?c ''u''"
  obtain r w' where run: "run_state (?op ''CompositeController'') ([], []) = (r, w')" by (metis surj_pair)
  obtain r' w'' where run': "run_state (?op ''DecoratorController'') w' = (r', w'')" by (metis surj_pair)
  have "map_of (fst ([], [])) (metricsKey ''c'' ''sync'' ''u'') = None" by simp
  from InstrumentClient_shared_kind [OF refProm_law this run run'] obtain i where
    "r' = Inr (?c\<lparr>hcMetrics := Some i\<rparr>)" "map_of (mtConstLabels (optsOf (imRequests (ciCollector i)))) ''controller_type'' = Some ''CompositeController''"
    by blast
  with run run' show ?thesis by (intro exI [of _ i]) simp
qed

end
