(* ===== verification/Env.thy ===== *)
theory Env
  imports Reference Metrics
begin

text \<open>
  What the running controllers use beside the API server: the informers of \<^verbatim>\<open>client-go\<close> with their
  caches and indices, work queues, HTTP, secrets, caches with expiration, the clock.  Like the library
  record of theory \<open>K8s\<close> it is a parameter of the definitions, the record \<open>'w env\<close>.  An
  informer, a queue and a cache are known by an identity, as the program knows them by a pointer.
\<close>

section \<open>Data\<close>

text \<open>What an informer hands to an event handler: an object, the tombstone of an object whose deletion
  was missed (with its key and the last known object, if it is one), or anything else.\<close>

datatype eventObj = EvObject unstructured | EvTombstone string "unstructured option" | EvOther

record httpRequest =
  hqURL :: string
  hqHeader :: strmap
  hqBody :: string

record httpResponse =
  hpStatusCode :: int
  hpHeader :: "string \<Rightarrow> string"
  hpBody :: "err + string"

record parsedURL =
  puScheme :: string
  puHost :: string
  puHostname :: string
  puPort :: string

text \<open>What the program reads of a \<^verbatim>\<open>CustomResourceDefinition\<close>: for every version, whether it has subresources and
  the status among them.\<close>

record crdVersion =
  cvName :: string
  cvSubresources :: "bool option"

record CustomResourceDefinition =
  crdVersions :: "crdVersion list"

section \<open>The environment\<close>

record 'w env =
  \<comment> \<open>shared informers\<close>
  NewSharedIndexInformer :: "gvr \<Rightarrow> ('w, nat) state"
  InformerAddEventHandler :: "nat \<Rightarrow> ('w, err option) state"
  InformerRun :: "nat \<Rightarrow> ('w, unit) state"
  InformerStop :: "nat \<Rightarrow> ('w, unit) state"
  InformerHasSynced :: "nat \<Rightarrow> ('w, bool) state"
  ListerGet :: "nat \<Rightarrow> string \<Rightarrow> string \<Rightarrow> ('w, err + unstructured) state"
  ListerList :: "nat \<Rightarrow> string \<Rightarrow> selector \<Rightarrow> ('w, err + unstructured list) state"
  IndexerByIndex :: "nat \<Rightarrow> string \<Rightarrow> string \<Rightarrow> ('w, err + unstructured list) state"
  RevisionList :: "string \<Rightarrow> ('w, err + ControllerRevision list) state"
  \<comment> \<open>work queues\<close>
  KeyFunc :: "eventObj \<Rightarrow> err + string"
  SplitMetaNamespaceKey :: "string \<Rightarrow> err + string \<times> string"
  QueueGet :: "string \<Rightarrow> ('w, string option) state"
  QueueDone :: "string \<Rightarrow> string \<Rightarrow> ('w, unit) state"
  QueueForget :: "string \<Rightarrow> string \<Rightarrow> ('w, unit) state"
  QueueAdd :: "string \<Rightarrow> string \<Rightarrow> ('w, unit) state"
  QueueAddAfter :: "string \<Rightarrow> string \<Rightarrow> int \<Rightarrow> ('w, unit) state"
  QueueAddRateLimited :: "string \<Rightarrow> string \<Rightarrow> ('w, unit) state"
  QueueShutDown :: "string \<Rightarrow> ('w, unit) state"
  \<comment> \<open>HTTP\<close>
  NewRequest :: "string \<Rightarrow> err option"
  HttpDo :: "httpClient \<Rightarrow> httpRequest \<Rightarrow> ('w, err + httpResponse) state"
  ParseURL :: "string \<Rightarrow> err + parsedURL"
  ParseRFC1123 :: "string \<Rightarrow> err + int"
  Now :: "('w, int) state"
  Prometheus :: "'w prom"
  \<comment> \<open>secrets and certificates\<close>
  GetSecret :: "string \<Rightarrow> string \<Rightarrow> ('w, err + strmap) state"
  GetConfigMap :: "string \<Rightarrow> string \<Rightarrow> ('w, err + strmap) state"
  X509KeyPair :: "string \<Rightarrow> string \<Rightarrow> err + string"
  ValidPEM :: "string \<Rightarrow> bool"
  \<comment> \<open>caches with expiration\<close>
  NewEtagCache :: "int \<Rightarrow> int \<Rightarrow> ('w, nat) state"
  EtagCacheGet :: "nat \<Rightarrow> string \<times> string \<times> string \<Rightarrow> ('w, (string \<times> string) option) state"
  EtagCacheSet :: "nat \<Rightarrow> string \<times> string \<times> string \<Rightarrow> string \<times> string \<Rightarrow> ('w, unit) state"
  NewCustomizeCache :: "int \<Rightarrow> int \<Rightarrow> ('w, nat) state"
  CustomizeCacheGet :: "nat \<Rightarrow> string \<times> int \<Rightarrow> ('w, CustomizeHookResponse option) state"
  CustomizeCacheSet :: "nat \<Rightarrow> string \<times> int \<Rightarrow> CustomizeHookResponse \<Rightarrow> ('w, unit) state"
  \<comment> \<open>encoding of the controllers in requests, strict decoding of responses\<close>
  EncodeComposite :: "CompositeController \<Rightarrow> json"
  EncodeDecorator :: "DecoratorController \<Rightarrow> json"
  DecodeComposite :: "string \<Rightarrow> err + CompositeHookResponse \<times> err list"
  DecodeDecorator :: "string \<Rightarrow> err + DecoratorHookResponse \<times> err list"
  DecodeCustomize :: "string \<Rightarrow> err + RelatedResourceRule list \<times> err list"
  DecodeLabelSelector :: "string \<Rightarrow> LabelSelector \<Rightarrow> err + LabelSelector"
  AddLabelToSelector :: "LabelSelector \<Rightarrow> string \<Rightarrow> string \<Rightarrow> LabelSelector"
  \<comment> \<open>the controllers users define\<close>
  GetCompositeController :: "string \<Rightarrow> ('w, err + CompositeController) state"
  GetDecoratorController :: "string \<Rightarrow> ('w, err + DecoratorController) state"
  GetCRD :: "string \<Rightarrow> ('w, err + CustomResourceDefinition) state"

section \<open>A concrete environment\<close>

text \<open>As the reference library, used by witnesses only: one cache that shows the objects of the in-memory
  API server, a log of queue operations, and a fixed answer to every HTTP request.\<close>

definition logE :: "string \<Rightarrow> string \<Rightarrow> (world, unit) state" where
  "logE verb arg = State (\<lambda>w. ((), w\<lparr>wLog := wLog w @ [(verb, arg)]\<rparr>))"

definition refStore :: "world \<Rightarrow> unstructured list" where
  "refStore w = map snd (wObjects w)"

definition refEnv :: "httpResponse \<Rightarrow> CompositeHookResponse \<Rightarrow> world env" where
  "refEnv answer response =
     \<lparr>NewSharedIndexInformer = (\<lambda>_. State (\<lambda>w. (length (wLog w), w\<lparr>wLog := wLog w @ [(''informer'', '''')]\<rparr>))),
      InformerAddEventHandler = (\<lambda>_. State_Monad.return None),
      InformerRun = (\<lambda>_. logE ''run'' ''''),
      InformerStop = (\<lambda>_. logE ''stop'' ''''),
      InformerHasSynced = (\<lambda>_. State_Monad.return True),
      ListerGet = (\<lambda>_ ns name. State (\<lambda>w. (case find (\<lambda>o'. refName o' = name \<and> strOf (jget (metaOf o') ''namespace'') = ns) (refStore w) of
          None \<Rightarrow> Inl (LibErr ''NotFound'') | Some o' \<Rightarrow> Inr o', w))),
      ListerList = (\<lambda>_ ns s. State (\<lambda>w. (Inr (filter (\<lambda>o'. Matches s (strMapOf (jget (metaOf o') ''labels'')) \<and>
          (ns = '''' \<or> strOf (jget (metaOf o') ''namespace'') = ns)) (refStore w)), w))),
      IndexerByIndex = (\<lambda>_ name key. State (\<lambda>w. (Inr (filter (\<lambda>o'.
          (if name = ''ownerUID'' then list_ex (\<lambda>r. orController r = Some True \<and> orUID r = key) (ownersOf o')
           else key = ''true'' \<and> \<not> list_ex (\<lambda>r. orController r = Some True) (ownersOf o'))) (refStore w)), w))),
      RevisionList = (\<lambda>ns. State (\<lambda>w. (Inr (map snd (filter (\<lambda>p. fst (fst p) = ns) (wRevisions w))), w))),
      KeyFunc = (\<lambda>obj. case obj of EvObject o' \<Rightarrow> Inr (refName o') | EvTombstone k _ \<Rightarrow> Inr k | EvOther \<Rightarrow> Inl (LibErr ''key'')),
      SplitMetaNamespaceKey = (\<lambda>s. case splitN (CHR ''/'') 2 s of [ns, n] \<Rightarrow> Inr (ns, n) | _ \<Rightarrow> Inr ('''', s)),
      QueueGet = (\<lambda>_. State_Monad.return None),
      QueueDone = (\<lambda>_ key. logE ''done'' key),
      QueueForget = (\<lambda>_ key. logE ''forget'' key),
      QueueAdd = (\<lambda>_ key. logE ''add'' key),
      QueueAddAfter = (\<lambda>_ key _. logE ''addAfter'' key),
      QueueAddRateLimited = (\<lambda>_ key. logE ''addRateLimited'' key),
      QueueShutDown = (\<lambda>_. logE ''shutDown'' ''''),
      NewRequest = (\<lambda>_. None),
      HttpDo = (\<lambda>_ _. State_Monad.return (Inr answer)),
      ParseURL = (\<lambda>u. Inr \<lparr>puScheme = ''http'', puHost = u, puHostname = u, puPort = ''''\<rparr>),
      ParseRFC1123 = (\<lambda>_. Inl (LibErr ''time'')),
      Now = State_Monad.return 0,
      Prometheus = \<lparr>MetricsCacheGet = (\<lambda>_. State_Monad.return None), MetricsCacheSet = (\<lambda>_ _. State_Monad.return ()), Register = (\<lambda>_. State_Monad.return None)\<rparr>,
      GetSecret = (\<lambda>_ _. State_Monad.return (Inr [(''username'', ''u''), (''password'', ''p''), (''token'', ''t'')])),
      GetConfigMap = (\<lambda>_ _. State_Monad.return (Inl (LibErr ''NotFound''))),
      X509KeyPair = (\<lambda>c k. Inr (c @ k)),
      ValidPEM = (\<lambda>_. True),
      NewEtagCache = (\<lambda>_ _. State_Monad.return 0),
      EtagCacheGet = (\<lambda>_ _. State_Monad.return None),
      EtagCacheSet = (\<lambda>_ _ _. State_Monad.return ()),
      NewCustomizeCache = (\<lambda>_ _. State_Monad.return 0),
      CustomizeCacheGet = (\<lambda>_ _. State_Monad.return None),
      CustomizeCacheSet = (\<lambda>_ _ _. State_Monad.return ()),
      EncodeComposite = (\<lambda>_. JNull),
      EncodeDecorator = (\<lambda>_. JNull),
      DecodeComposite = (\<lambda>_. Inr (response, [])),
      DecodeDecorator = (\<lambda>_. Inl (LibErr ''decode'')),
      DecodeCustomize = (\<lambda>_. Inr ([], [])),
      DecodeLabelSelector = (\<lambda>_ s. Inr s),
      AddLabelToSelector = (\<lambda>s k v. s\<lparr>MatchLabels := jput k v (MatchLabels s)\<rparr>),
      GetCompositeController = (\<lambda>_. State_Monad.return (Inl (LibErr ''NotFound''))),
      GetDecoratorController = (\<lambda>_. State_Monad.return (Inl (LibErr ''NotFound''))),
      GetCRD = (\<lambda>_. State_Monad.return (Inr \<lparr>crdVersions = [\<lparr>cvName = ''v1'', cvSubresources = Some True\<rparr>]\<rparr>))\<rparr>"

lemma refEnv_simps:
  "NewSharedIndexInformer (refEnv answer response) = (\<lambda>_. State (\<lambda>w. (length (wLog w), w\<lparr>wLog := wLog w @ [(''informer'', '''')]\<rparr>)))"
  "InformerAddEventHandler (refEnv answer response) = (\<lambda>_. State_Monad.return None)"
  "InformerRun (refEnv answer response) = (\<lambda>_. logE ''run'' '''')"
  "InformerStop (refEnv answer response) = (\<lambda>_. logE ''stop'' '''')"
  "InformerHasSynced (refEnv answer response) = (\<lambda>_. State_Monad.return True)"
  "ListerGet (refEnv answer response) = (\<lambda>_ ns name. State (\<lambda>w. (case find (\<lambda>o'. refName o' = name \<and> strOf (jget (metaOf o') ''namespace'') = ns) (refStore w) of
          None \<Rightarrow> Inl (LibErr ''NotFound'') | Some o' \<Rightarrow> Inr o', w)))"
  "ListerList (refEnv answer response) = (\<lambda>_ ns s. State (\<lambda>w. (Inr (filter (\<lambda>o'. Matches s (strMapOf (jget (metaOf o') ''labels'')) \<and>
          (ns = '''' \<or> strOf (jget (metaOf o') ''namespace'') = ns)) (refStore w)), w)))"
  "IndexerByIndex (refEnv answer response) = (\<lambda>_ name key. State (\<lambda>w. (Inr (filter (\<lambda>o'.
          (if name = ''ownerUID'' then list_ex (\<lambda>r. orController r = Some True \<and> orUID r = key) (ownersOf o')
           else key = ''true'' \<and> \<not> list_ex (\<lambda>r. orController r = Some True) (ownersOf o'))) (refStore w)), w)))"
  "RevisionList (refEnv answer response) = (\<lambda>ns. State (\<lambda>w. (Inr (map snd (filter (\<lambda>p. fst (fst p) = ns) (wRevisions w))), w)))"
  "KeyFunc (refEnv answer response) = (\<lambda>obj. case obj of EvObject o' \<Rightarrow> Inr (refName o') | EvTombstone k _ \<Rightarrow> Inr k | EvOther \<Rightarrow> Inl (LibErr ''key''))"
  "SplitMetaNamespaceKey (refEnv answer response) = (\<lambda>s. case splitN (CHR ''/'') 2 s of [ns, n] \<Rightarrow> Inr (ns, n) | _ \<Rightarrow> Inr ('''', s))"
  "QueueGet (refEnv answer response) = (\<lambda>_. State_Monad.return None)"
  "QueueDone (refEnv answer response) = (\<lambda>_ key. logE ''done'' key)"
  "QueueForget (refEnv answer response) = (\<lambda>_ key. logE ''forget'' key)"
  "QueueAdd (refEnv answer response) = (\<lambda>_ key. logE ''add'' key)"
  "QueueAddAfter (refEnv answer response) = (\<lambda>_ key _. logE ''addAfter'' key)"
  "QueueAddRateLimited (refEnv answer response) = (\<lambda>_ key. logE ''addRateLimited'' key)"
  "QueueShutDown (refEnv answer response) = (\<lambda>_. logE ''shutDown'' '''')"
  "NewRequest (refEnv answer response) = (\<lambda>_. None)"
  "HttpDo (refEnv answer response) = (\<lambda>_ _. State_Monad.return (Inr answer))"
  "ParseURL (refEnv answer response) = (\<lambda>u. Inr \<lparr>puScheme = ''http'', puHost = u, puHostname = u, puPort = ''''\<rparr>)"
  "ParseRFC1123 (refEnv answer response) = (\<lambda>_. Inl (LibErr ''time''))"
  "Now (refEnv answer response) = State_Monad.return 0"
  "Prometheus (refEnv answer response) = \<lparr>MetricsCacheGet = (\<lambda>_. State_Monad.return None), MetricsCacheSet = (\<lambda>_ _. State_Monad.return ()), Register = (\<lambda>_. State_Monad.return None)\<rparr>"
  "GetSecret (refEnv answer response) = (\<lambda>_ _. State_Monad.return (Inr [(''username'', ''u''), (''password'', ''p''), (''token'', ''t'')]))"
  "GetConfigMap (refEnv answer response) = (\<lambda>_ _. State_Monad.return (Inl (LibErr ''NotFound'')))"
  "X509KeyPair (refEnv answer response) = (\<lambda>c k. Inr (c @ k))"
  "ValidPEM (refEnv answer response) = (\<lambda>_. True)"
  "NewEtagCache (refEnv answer response) = (\<lambda>_ _. State_Monad.return 0)"
  "EtagCacheGet (refEnv answer response) = (\<lambda>_ _. State_Monad.return None)"
  "EtagCacheSet (refEnv answer response) = (\<lambda>_ _ _. State_Monad.return ())"
  "NewCustomizeCache (refEnv answer response) = (\<lambda>_ _. State_Monad.return 0)"
  "CustomizeCacheGet (refEnv answer response) = (\<lambda>_ _. State_Monad.return None)"
  "CustomizeCacheSet (refEnv answer response) = (\<lambda>_ _ _. State_Monad.return ())"
  "EncodeComposite (refEnv answer response) = (\<lambda>_. JNull)"
  "EncodeDecorator (refEnv answer response) = (\<lambda>_. JNull)"
  "DecodeComposite (refEnv answer response) = (\<lambda>_. Inr (response, []))"
  "DecodeDecorator (refEnv answer response) = (\<lambda>_. Inl (LibErr ''decode''))"
  "DecodeCustomize (refEnv answer response) = (\<lambda>_. Inr ([], []))"
  "DecodeLabelSelector (refEnv answer response) = (\<lambda>_ s. Inr s)"
  "AddLabelToSelector (refEnv answer response) = (\<lambda>s k v. s\<lparr>MatchLabels := jput k v (MatchLabels s)\<rparr>)"
  "GetCompositeController (refEnv answer response) = (\<lambda>_. State_Monad.return (Inl (LibErr ''NotFound'')))"
  "GetDecoratorController (refEnv answer response) = (\<lambda>_. State_Monad.return (Inl (LibErr ''NotFound'')))"
  "GetCRD (refEnv answer response) = (\<lambda>_. State_Monad.return (Inr \<lparr>crdVersions = [\<lparr>cvName = ''v1'', cvSubresources = Some True\<rparr>]\<rparr>))"
  unfolding refEnv_def by (simp_all only: env.simps)

end
