(* ===== verification/Informer.thy ===== *)
theory Informer
  imports Env Clientset Common
begin

text \<open>
  Shared informers, \<^verbatim>\<open>pkg/dynamic/informer\<close>: the factory that hands out subscriptions and counts them, the
  two indices, and the one handler of a shared informer that passes events on to its subscribers.
  The factory and its informers are private state beside the outside world.  A \<^verbatim>\<open>sharedResourceInformer\<close> is known
  by the identity of its \<^verbatim>\<open>client-go\<close> informer, a subscription by the number of its wrapper.  Every method that
  takes the factory's mutex is one step.
\<close>

section \<open>Indices\<close>

definition orphanIndexSentinel :: string where "orphanIndexSentinel = ''true''"

definition OwnerUIDIndex :: string where "OwnerUIDIndex = ''ownerUID''"

definition OrphanIndex :: string where "OrphanIndex = ''orphan''"

definition ownerUIDIndexFunc :: "'w k8s \<Rightarrow> unstructured \<Rightarrow> string list" where
  "ownerUIDIndexFunc K object = map orUID (filter (\<lambda>ref. orController ref = Some True) (GetOwnerReferences K object))"

definition orphanIndexFunc :: "'w k8s \<Rightarrow> unstructured \<Rightarrow> string list" where
  "orphanIndexFunc K object =
     (if list_ex (\<lambda>ref. orController ref = Some True) (GetOwnerReferences K object) then [] else [orphanIndexSentinel])"

section \<open>Subscriptions\<close>

record sharedResourceInformer =
  sriInformer :: nat
  sriKey :: string
  sriDefaultResyncPeriod :: int

record ResourceInformer =
  riShared :: sharedResourceInformer
  riWrapper :: nat

definition byIndexAndNamespace :: "'w k8s \<Rightarrow> 'w env \<Rightarrow> ResourceInformer \<Rightarrow> string \<Rightarrow> string \<Rightarrow> string \<Rightarrow> ('w, err + unstructured list) state" where
  "byIndexAndNamespace K E ri indexName key namespace =
     do { r \<leftarrow> IndexerByIndex E (sriInformer (riShared ri)) indexName key;
          State_Monad.return (case r of
              Inl e \<Rightarrow> Inl e
            | Inr items \<Rightarrow> Inr (filter (\<lambda>u. \<not> (namespace \<noteq> '''' \<and> GetNamespace K u \<noteq> namespace)) items)) }"

definition ListByOwnerUID :: "'w k8s \<Rightarrow> 'w env \<Rightarrow> ResourceInformer \<Rightarrow> string \<Rightarrow> string \<Rightarrow> ('w, err + unstructured list) state" where
  "ListByOwnerUID K E ri uid namespace = byIndexAndNamespace K E ri OwnerUIDIndex uid namespace"

definition ListOrphans :: "'w k8s \<Rightarrow> 'w env \<Rightarrow> ResourceInformer \<Rightarrow> string \<Rightarrow> ('w, err + unstructured list) state" where
  "ListOrphans K E ri namespace = byIndexAndNamespace K E ri OrphanIndex orphanIndexSentinel namespace"

definition GetObject :: "'w env \<Rightarrow> ResourceInformer \<Rightarrow> string \<Rightarrow> string \<Rightarrow> ('w, err + unstructured) state" where
  "GetObject E ri namespace name =
     (if namespace = '''' then ListerGet E (sriInformer (riShared ri)) '''' name
      else ListerGet E (sriInformer (riShared ri)) namespace name)"

type_synonym InformerMap = "(gvr, ResourceInformer) SyncMap"

type_synonym GroupKindMap = "(groupKind, APIResource) SyncMap"

section \<open>The factory\<close>

text \<open>\<^verbatim>\<open>stopped\<close> are the informers whose stop channel is closed: closing it again panics.\<close>

record SharedInformerFactory =
  fcClientset :: Clientset
  fcDefaultResync :: int
  fcRefCount :: "(string \<times> int) list"
  fcSharedInformers :: "(string \<times> sharedResourceInformer) list"
  fcStopped :: "nat list"
  fcNextWrapper :: nat

type_synonym ('w, 'a) fstate = "('w \<times> SharedInformerFactory, 'a) state"

definition NewSharedInformerFactory :: "Clientset \<Rightarrow> int \<Rightarrow> SharedInformerFactory" where
  "NewSharedInformerFactory clientset defaultResync =
     \<lparr>fcClientset = clientset, fcDefaultResync = defaultResync, fcRefCount = [], fcSharedInformers = [], fcStopped = [], fcNextWrapper = 0\<rparr>"

definition IsInitialized :: "SharedInformerFactory option \<Rightarrow> bool" where
  "IsInitialized f = (f \<noteq> None)"

definition resourceKey :: "string \<Rightarrow> string \<Rightarrow> string" where
  "resourceKey apiVersion resource = resource @ ''.'' @ apiVersion"

definition modifyFactory :: "(SharedInformerFactory \<Rightarrow> SharedInformerFactory) \<Rightarrow> ('w, unit) fstate" where
  "modifyFactory f = State (\<lambda>(w, fc). ((), (w, f fc)))"

definition getFactory :: "('w, SharedInformerFactory) fstate" where
  "getFactory = State (\<lambda>(w, fc). (fc, (w, fc)))"

definition refCountOf :: "SharedInformerFactory \<Rightarrow> string \<Rightarrow> int" where
  "refCountOf fc key = (case map_of (fcRefCount fc) key of None \<Rightarrow> 0 | Some n \<Rightarrow> n)"

text \<open>A new wrapper around a shared informer.\<close>

definition newResourceInformer :: "sharedResourceInformer \<Rightarrow> ('w, ResourceInformer) fstate" where
  "newResourceInformer sri =
     do { fc \<leftarrow> getFactory;
          modifyFactory (\<lambda>fc. fc\<lparr>fcNextWrapper := Suc (fcNextWrapper fc)\<rparr>);
          State_Monad.return \<lparr>riShared = sri, riWrapper = fcNextWrapper fc\<rparr> }"

text \<open>The shared informer with its two extra indices and its one event handler.\<close>

definition newSharedResourceInformer :: "'w k8s \<Rightarrow> 'w env \<Rightarrow> ResourceClient \<Rightarrow> string \<Rightarrow> int \<Rightarrow> ('w, err + sharedResourceInformer) state" where
  "newSharedResourceInformer K E client key defaultResyncPeriod =
     do { informer \<leftarrow> NewSharedIndexInformer E (riResource (rcRootClient client));
          err \<leftarrow> InformerAddEventHandler E informer;
          State_Monad.return (case err of
              Some e \<Rightarrow> Inl e
            | None \<Rightarrow> Inr \<lparr>sriInformer = informer, sriKey = key, sriDefaultResyncPeriod = defaultResyncPeriod\<rparr>) }"

definition Factory_Resource :: "'w k8s \<Rightarrow> 'w env \<Rightarrow> string \<Rightarrow> string \<Rightarrow> ('w, err + ResourceInformer) fstate" where
  "Factory_Resource K E apiVersion resource =
     (let key = resourceKey apiVersion resource in
      do { fc \<leftarrow> getFactory;
           case map_of (fcSharedInformers fc) key of
             Some sharedInformer \<Rightarrow>
               do { modifyFactory (\<lambda>fc. fc\<lparr>fcRefCount := AList.update key (refCountOf fc key + 1) (fcRefCount fc)\<rparr>);
                    ri \<leftarrow> newResourceInformer sharedInformer;
                    State_Monad.return (Inr ri) }
           | None \<Rightarrow>
               (case Clientset_Resource K (fcClientset fc) apiVersion resource of
                  Inl e \<Rightarrow> State_Monad.return (Inl (wrapErr (''can't create client for '' @ key @ '' shared informer'') e))
                | Inr client \<Rightarrow>
                    do { r \<leftarrow> liftFst (newSharedResourceInformer K E client key (fcDefaultResync fc));
                         case r of
                           Inl e \<Rightarrow> State_Monad.return (Inl (Errorf (''can't create client for '' @ key @ '' shared informer'') (Some e)))
                         | Inr sri \<Rightarrow>
                             do { modifyFactory (\<lambda>fc. fc\<lparr>fcSharedInformers := AList.update key sri (fcSharedInformers fc),
                                     fcRefCount := AList.update key 1 (fcRefCount fc)\<rparr>);
                                  liftFst (InformerRun E (sriInformer sri));
                                  ri \<leftarrow> newResourceInformer sri;
                                  State_Monad.return (Inr ri) } }) })"

text \<open>\<^verbatim>\<open>closeFn\<close>, the closure stored in the shared informer, and \<^verbatim>\<open>Close\<close>, which calls it.\<close>

definition closeFn :: "'w env \<Rightarrow> sharedResourceInformer \<Rightarrow> ('w, err option) fstate" where
  "closeFn E sri =
     do { fc \<leftarrow> getFactory;
          let count = refCountOf fc (sriKey sri) - 1 in
          if count > 0 then
            do { modifyFactory (\<lambda>fc. fc\<lparr>fcRefCount := AList.update (sriKey sri) count (fcRefCount fc)\<rparr>); State_Monad.return None }
          else if sriInformer sri \<in> set (fcStopped fc) then State_Monad.return (Some GoPanic)
          else
            do { liftFst (InformerStop E (sriInformer sri));
                 modifyFactory (\<lambda>fc. fc\<lparr>fcStopped := sriInformer sri # fcStopped fc,
                    fcRefCount := AList.delete (sriKey sri) (fcRefCount fc),
                    fcSharedInformers := AList.delete (sriKey sri) (fcSharedInformers fc)\<rparr>);
                 State_Monad.return None } }"

definition ResourceInformer_Close :: "'w env \<Rightarrow> ResourceInformer \<Rightarrow> ('w, err option) fstate" where
  "ResourceInformer_Close E ri = closeFn E (riShared ri)"

section \<open>Event handlers\<close>

datatype informerEvent = OnAdd unstructured bool | OnUpdate unstructured unstructured | OnDelete eventObj

text \<open>A subscriber's handler is a value of type \<open>'h\<close>, called through the parameter \<open>H\<close>; a handler that runs its own
  resync ticker records the period.\<close>

record 'h eventHandler =
  ehHandler :: 'h
  ehTicker :: "int option"

record 'h sharedEventHandler =
  sehLister :: nat
  sehRelistPeriod :: int
  sehHandlers :: "(nat \<times> 'h eventHandler list) list"

definition newSharedEventHandler :: "nat \<Rightarrow> int \<Rightarrow> 'h sharedEventHandler" where
  "newSharedEventHandler lister relistPeriod = \<lparr>sehLister = lister, sehRelistPeriod = relistPeriod, sehHandlers = []\<rparr>"

fun forAll :: "('a \<Rightarrow> ('w, unit) state) \<Rightarrow> 'a list \<Rightarrow> ('w, unit) state" where
  "forAll f [] = State_Monad.return ()"
| "forAll f (x # xs) = do { f x; forAll f xs }"

definition resync :: "'w k8s \<Rightarrow> 'w env \<Rightarrow> ('h \<Rightarrow> informerEvent \<Rightarrow> ('w, unit) state) \<Rightarrow> 'h sharedEventHandler \<Rightarrow> 'h eventHandler \<Rightarrow> ('w, unit) state" where
  "resync K E H seh eh =
     do { r \<leftarrow> ListerList E (sehLister seh) '''' (Everything K);
          case r of
            Inl _ \<Rightarrow> State_Monad.return ()
          | Inr objs \<Rightarrow> forAll (\<lambda>obj. H (ehHandler eh) (OnUpdate obj obj)) objs }"

definition addHandler :: "'w k8s \<Rightarrow> 'w env \<Rightarrow> ('h \<Rightarrow> informerEvent \<Rightarrow> ('w, unit) state) \<Rightarrow> 'h sharedEventHandler \<Rightarrow> nat \<Rightarrow> 'h \<Rightarrow> int
    \<Rightarrow> ('w, 'h sharedEventHandler) state" where
  "addHandler K E H seh iw handler resyncPeriod =
     (let eh = \<lparr>ehHandler = handler, ehTicker = (if resyncPeriod < sehRelistPeriod seh then Some resyncPeriod else None)\<rparr>;
          old = (case map_of (sehHandlers seh) iw of None \<Rightarrow> [] | Some hs \<Rightarrow> hs)
      in do { resync K E H seh eh;
              State_Monad.return (seh\<lparr>sehHandlers := AList.update iw (old @ [eh]) (sehHandlers seh)\<rparr>) })"

definition removeHandlers :: "'h sharedEventHandler \<Rightarrow> nat \<Rightarrow> 'h sharedEventHandler" where
  "removeHandlers seh iw = seh\<lparr>sehHandlers := AList.delete iw (sehHandlers seh)\<rparr>"

text \<open>\<^verbatim>\<open>OnAdd\<close>, \<^verbatim>\<open>OnUpdate\<close> and \<^verbatim>\<open>OnDelete\<close> of the shared handler: the same loop over all subscribers.\<close>

definition broadcast :: "('h \<Rightarrow> informerEvent \<Rightarrow> ('w, unit) state) \<Rightarrow> 'h sharedEventHandler \<Rightarrow> informerEvent \<Rightarrow> ('w, unit) state" where
  "broadcast H seh ev = forAll (\<lambda>p. forAll (\<lambda>eh. H (ehHandler eh) ev) (snd p)) (sehHandlers seh)"

definition AddEventHandler :: "'w k8s \<Rightarrow> 'w env \<Rightarrow> ('h \<Rightarrow> informerEvent \<Rightarrow> ('w, unit) state) \<Rightarrow> ResourceInformer \<Rightarrow> 'h sharedEventHandler \<Rightarrow> 'h
    \<Rightarrow> ('w, 'h sharedEventHandler) state" where
  "AddEventHandler K E H ri seh handler = addHandler K E H seh (riWrapper ri) handler (sriDefaultResyncPeriod (riShared ri))"

definition AddEventHandlerWithResyncPeriod :: "'w k8s \<Rightarrow> 'w env \<Rightarrow> ('h \<Rightarrow> informerEvent \<Rightarrow> ('w, unit) state) \<Rightarrow> ResourceInformer
    \<Rightarrow> 'h sharedEventHandler \<Rightarrow> 'h \<Rightarrow> int \<Rightarrow> ('w, 'h sharedEventHandler) state" where
  "AddEventHandlerWithResyncPeriod K E H ri seh handler resyncPeriod = addHandler K E H seh (riWrapper ri) handler resyncPeriod"

definition RemoveEventHandlers :: "ResourceInformer \<Rightarrow> 'h sharedEventHandler \<Rightarrow> 'h sharedEventHandler" where
  "RemoveEventHandlers ri seh = removeHandlers seh (riWrapper ri)"

section \<open>The reference count\<close>

text \<open>Informer identities are fresh: \<open>alloc\<close> is what was handed out so far.\<close>

definition fresh_law :: "'w env \<Rightarrow> ('w \<Rightarrow> nat set) \<Rightarrow> bool" where
  "fresh_law E alloc \<longleftrightarrow>
     (\<forall>r w n w'. run_state (NewSharedIndexInformer E r) w = (n, w') \<longrightarrow> n \<notin> alloc w \<and> insert n (alloc w) \<subseteq> alloc w') \<and>
     (\<forall>i w. alloc w \<subseteq> alloc (snd (run_state (InformerAddEventHandler E i) w))) \<and>
     (\<forall>i w. alloc w \<subseteq> alloc (snd (run_state (InformerRun E i) w))) \<and>
     (\<forall>i w. alloc w \<subseteq> alloc (snd (run_state (InformerStop E i) w)))"

text \<open>The life of a factory: controllers subscribe and close each subscription once, in any order, while the
  outside world moves on.  The state is the world, the factory and the open subscriptions.\<close>

inductive factory_reach :: "'w k8s \<Rightarrow> 'w env \<Rightarrow> ('w \<Rightarrow> nat set) \<Rightarrow> 'w \<times> SharedInformerFactory \<Rightarrow> ResourceInformer list \<Rightarrow> bool"
  for K E alloc where
  start: "factory_reach K E alloc (w, NewSharedInformerFactory cs d) []"
| subscribe: "factory_reach K E alloc s subs \<Longrightarrow> run_state (Factory_Resource K E apiVersion resource) s = (Inr ri, s') \<Longrightarrow>
     factory_reach K E alloc s' (ri # subs)"
| refused: "factory_reach K E alloc s subs \<Longrightarrow> run_state (Factory_Resource K E apiVersion resource) s = (Inl e, s') \<Longrightarrow>
     factory_reach K E alloc s' subs"
| unsubscribe: "factory_reach K E alloc s subs \<Longrightarrow> ri \<in> set subs \<Longrightarrow> run_state (ResourceInformer_Close E ri) s = (r, s') \<Longrightarrow>
     factory_reach K E alloc s' (remove1 ri subs)"
| elsewhere: "factory_reach K E alloc (w, fc) subs \<Longrightarrow> alloc w \<subseteq> alloc w' \<Longrightarrow> factory_reach K E alloc (w', fc) subs"

abbreviation subKey :: "ResourceInformer \<Rightarrow> string" where
  "subKey ri \<equiv> sriKey (riShared ri)"

definition subsOf :: "string \<Rightarrow> ResourceInformer list \<Rightarrow> nat" where
  "subsOf key subs = length (filter (\<lambda>ri. subKey ri = key) subs)"

definition factory_inv :: "('w \<Rightarrow> nat set) \<Rightarrow> 'w \<times> SharedInformerFactory \<Rightarrow> ResourceInformer list \<Rightarrow> bool" where
  "factory_inv alloc s subs \<longleftrightarrow>
     (let fc = snd s in
      distinct (map fst (fcRefCount fc)) \<and> distinct (map fst (fcSharedInformers fc)) \<and>
      (\<forall>key. refCountOf fc key = int (subsOf key subs)) \<and>
      (\<forall>key. map_of (fcSharedInformers fc) key = None \<longleftrightarrow> subsOf key subs = 0) \<and>
      (\<forall>key sri. map_of (fcSharedInformers fc) key = Some sri \<longrightarrow> sriKey sri = key \<and> sriInformer sri \<notin> set (fcStopped fc) \<and> sriInformer sri \<in> alloc (fst s)) \<and>
      (\<forall>k1 k2 s1 s2. map_of (fcSharedInformers fc) k1 = Some s1 \<longrightarrow> map_of (fcSharedInformers fc) k2 = Some s2 \<longrightarrow> sriInformer s1 = sriInformer s2 \<longrightarrow> k1 = k2) \<and>
      (\<forall>ri \<in> set subs. map_of (fcSharedInformers fc) (subKey ri) = Some (riShared ri)) \<and>
      set (fcStopped fc) \<subseteq> alloc (fst s))"

declare map_of_eq_Some_iff [simp del] Some_eq_map_of_iff [simp del]

lemma subsOf_simps [simp]:
  "subsOf key [] = 0"
  "subsOf key (ri # subs) = (if subKey ri = key then Suc (subsOf key subs) else subsOf key subs)"
  by (simp_all add: subsOf_def)

lemma subsOf_remove1: "ri \<in> set subs \<Longrightarrow> subsOf key (remove1 ri subs) = subsOf key subs - (if subKey ri = key then 1 else 0)"
  by (simp add: subsOf_def filter_remove1 length_remove1)

lemma subsOf_pos: "ri \<in> set subs \<Longrightarrow> subsOf (subKey ri) subs > 0"
  by (auto simp: subsOf_def filter_empty_conv)

lemma subsOf_zero: "subsOf key subs = 0 \<longleftrightarrow> (\<forall>ri \<in> set subs. subKey ri \<noteq> key)"
  by (auto simp: subsOf_def filter_empty_conv)

text \<open>What a request to the factory does.\<close>

lemma Factory_Resource_run:
  assumes "fresh_law E alloc" "run_state (Factory_Resource K E apiVersion resource) (w, fc) = (r, (w', fc'))"
  defines "key \<equiv> resourceKey apiVersion resource"
  shows "(\<exists>e. r = Inl e \<and> fc' = fc \<and> alloc w \<subseteq> alloc w') \<or>
     (\<exists>sri. r = Inr \<lparr>riShared = sri, riWrapper = fcNextWrapper fc\<rparr> \<and> map_of (fcSharedInformers fc) key = Some sri \<and> w' = w \<and>
        fc' = fc\<lparr>fcRefCount := AList.update key (refCountOf fc key + 1) (fcRefCount fc), fcNextWrapper := Suc (fcNextWrapper fc)\<rparr>) \<or>
     (\<exists>sri. r = Inr \<lparr>riShared = sri, riWrapper = fcNextWrapper fc\<rparr> \<and> map_of (fcSharedInformers fc) key = None \<and> sriKey sri = key \<and>
        sriInformer sri \<notin> alloc w \<and> insert (sriInformer sri) (alloc w) \<subseteq> alloc w' \<and>
        fc' = fc\<lparr>fcSharedInformers := AList.update key sri (fcSharedInformers fc), fcRefCount := AList.update key 1 (fcRefCount fc),
          fcNextWrapper := Suc (fcNextWrapper fc)\<rparr>)"
proof (cases "map_of (fcSharedInformers fc) key")
  case (Some sri)
  then show ?thesis
    using assms(2) by (auto simp: Factory_Resource_def getFactory_def modifyFactory_def newResourceInformer_def key_def Let_def)
next
  case None
  show ?thesis
  proof (cases "Clientset_Resource K (fcClientset fc) apiVersion resource")
    case (Inl e)
    then show ?thesis using None assms(2) by (auto simp: Factory_Resource_def getFactory_def key_def Let_def)
  next
    case (Inr client)
    obtain n w1 where n: "run_state (NewSharedIndexInformer E (riResource (rcRootClient client))) w = (n, w1)" by (metis surj_pair)
    obtain ae w2 where ae: "run_state (InformerAddEventHandler E n) w1 = (ae, w2)" by (metis surj_pair)
    have fresh: "n \<notin> alloc w" "insert n (alloc w) \<subseteq> alloc w1" "alloc w1 \<subseteq> alloc w2"
        "alloc w2 \<subseteq> alloc (snd (run_state (InformerRun E n) w2))"
      using assms(1) n ae unfolding fresh_law_def by (metis snd_conv)+
    show ?thesis
    proof (cases ae)
      case (Some e)
      then show ?thesis
        using None Inr assms(2) n ae fresh
        by (auto simp: Factory_Resource_def getFactory_def newSharedResourceInformer_def key_def Let_def)
    next
      case None
      then show ?thesis
        using \<open>map_of (fcSharedInformers fc) key = None\<close> Inr assms(2) n ae fresh(1)
          subset_trans [OF subset_trans [OF fresh(2,3)] fresh(4)]
        by (auto simp: Factory_Resource_def getFactory_def newSharedResourceInformer_def modifyFactory_def newResourceInformer_def key_def Let_def)
    qed
  qed
qed

lemma closeFn_run:
  assumes "fresh_law E alloc" "run_state (closeFn E sri) (w, fc) = (r, (w', fc'))" "sriInformer sri \<notin> set (fcStopped fc)"
  shows "r = None \<and> alloc w \<subseteq> alloc w' \<and>
     fc' = (if refCountOf fc (sriKey sri) > 1
            then fc\<lparr>fcRefCount := AList.update (sriKey sri) (refCountOf fc (sriKey sri) - 1) (fcRefCount fc)\<rparr>
            else fc\<lparr>fcStopped := sriInformer sri # fcStopped fc, fcRefCount := AList.delete (sriKey sri) (fcRefCount fc),
                    fcSharedInformers := AList.delete (sriKey sri) (fcSharedInformers fc)\<rparr>)"
proof -
  have "alloc w \<subseteq> alloc (snd (run_state (InformerStop E (sriInformer sri)) w))"
    using assms(1) unfolding fresh_law_def by blast
  then show ?thesis
    using assms(2,3) by (auto simp: closeFn_def getFactory_def modifyFactory_def Let_def split: if_splits)
qed

lemma refCountOf_update:
  "refCountOf (fc\<lparr>fcRefCount := AList.update key n (fcRefCount fc)\<rparr>) key' = (if key' = key then n else refCountOf fc key')"
  "distinct (map fst (fcRefCount fc)) \<Longrightarrow>
     refCountOf (fc\<lparr>fcRefCount := AList.delete key (fcRefCount fc)\<rparr>) key' = (if key' = key then 0 else refCountOf fc key')"
  by (simp_all add: refCountOf_def update_conv' delete_conv')

lemma refCountOf_cong: "fcRefCount fc = fcRefCount fc' \<Longrightarrow> refCountOf fc = refCountOf fc'"
  by (simp add: refCountOf_def fun_eq_iff)

lemma factory_inv_mono: "factory_inv alloc (w, fc) subs \<Longrightarrow> alloc w \<subseteq> alloc w' \<Longrightarrow> factory_inv alloc (w', fc) subs"
  by (auto simp: factory_inv_def Let_def)

lemma factory_inv_start: "factory_inv alloc (w, NewSharedInformerFactory cs d) []"
  by (simp add: factory_inv_def NewSharedInformerFactory_def refCountOf_def)

lemma factory_invD:
  assumes "factory_inv alloc (w, fc) subs"
  shows "distinct (map fst (fcRefCount fc))" "distinct (map fst (fcSharedInformers fc))"
    and "refCountOf fc key = int (subsOf key subs)"
    and "map_of (fcSharedInformers fc) key = None \<longleftrightarrow> subsOf key subs = 0"
    and "map_of (fcSharedInformers fc) key = Some sri \<Longrightarrow> sriKey sri = key \<and> sriInformer sri \<notin> set (fcStopped fc) \<and> sriInformer sri \<in> alloc w"
    and "map_of (fcSharedInformers fc) k1 = Some s1 \<Longrightarrow> map_of (fcSharedInformers fc) k2 = Some s2 \<Longrightarrow> sriInformer s1 = sriInformer s2 \<Longrightarrow> k1 = k2"
    and "ri \<in> set subs \<Longrightarrow> map_of (fcSharedInformers fc) (subKey ri) = Some (riShared ri)"
    and "set (fcStopped fc) \<subseteq> alloc w"
  using assms unfolding factory_inv_def Let_def fst_conv snd_conv by metis+

lemma factory_invI:
  assumes "distinct (map fst (fcRefCount fc))" "distinct (map fst (fcSharedInformers fc))"
    and "\<And>key. refCountOf fc key = int (subsOf key subs)"
    and "\<And>key. map_of (fcSharedInformers fc) key = None \<longleftrightarrow> subsOf key subs = 0"
    and "\<And>key sri. map_of (fcSharedInformers fc) key = Some sri \<Longrightarrow> sriKey sri = key \<and> sriInformer sri \<notin> set (fcStopped fc) \<and> sriInformer sri \<in> alloc w"
    and "\<And>k1 k2 s1 s2. map_of (fcSharedInformers fc) k1 = Some s1 \<Longrightarrow> map_of (fcSharedInformers fc) k2 = Some s2 \<Longrightarrow> sriInformer s1 = sriInformer s2 \<Longrightarrow> k1 = k2"
    and "\<And>ri. ri \<in> set subs \<Longrightarrow> map_of (fcSharedInformers fc) (subKey ri) = Some (riShared ri)"
    and "set (fcStopped fc) \<subseteq> alloc w"
  shows "factory_inv alloc (w, fc) subs"
  using assms unfolding factory_inv_def Let_def fst_conv snd_conv by blast

lemma factory_inv_share:
  assumes inv: "factory_inv alloc (w, fc) subs" and sri: "map_of (fcSharedInformers fc) key = Some sri"
  shows "factory_inv alloc (w, fc\<lparr>fcRefCount := AList.update key (refCountOf fc key + 1) (fcRefCount fc), fcNextWrapper := x\<rparr>)
     (\<lparr>riShared = sri, riWrapper = y\<rparr> # subs)" (is "factory_inv alloc (w, ?fc) ?subs")
proof (rule factory_invI)
  note D = factory_invD [OF inv]
  have key: "sriKey sri = key" "subsOf key subs \<noteq> 0" using D(5) [OF sri] D(4) [of key] sri by simp_all
  show "refCountOf ?fc k = int (subsOf k ?subs)" for k
    using D(3) [of k] key by (simp add: refCountOf_def update_conv')
  show "map_of (fcSharedInformers ?fc) k = None \<longleftrightarrow> subsOf k ?subs = 0" for k
    using D(4) [of k] key by auto
  show "map_of (fcSharedInformers ?fc) (subKey ri) = Some (riShared ri)" if "ri \<in> set ?subs" for ri
    using that D(7) sri key by auto
  show "k1 = k2" if "map_of (fcSharedInformers ?fc) k1 = Some s1" "map_of (fcSharedInformers ?fc) k2 = Some s2" "sriInformer s1 = sriInformer s2" for k1 k2 s1 s2
    using that D(6) [of k1 s1 k2 s2] by simp
qed (use factory_invD [OF inv] in \<open>simp_all add: distinct_update\<close>)

lemma factory_inv_create:
  assumes inv: "factory_inv alloc (w, fc) subs" and none: "map_of (fcSharedInformers fc) key = None" and key: "sriKey sri = key"
    and fresh: "sriInformer sri \<notin> alloc w" "insert (sriInformer sri) (alloc w) \<subseteq> alloc w'"
  shows "factory_inv alloc (w', fc\<lparr>fcSharedInformers := AList.update key sri (fcSharedInformers fc), fcRefCount := AList.update key 1 (fcRefCount fc),
     fcNextWrapper := x\<rparr>) (\<lparr>riShared = sri, riWrapper = y\<rparr> # subs)" (is "factory_inv alloc (w', ?fc) ?subs")
proof (rule factory_invI)
  note D = factory_invD [OF inv]
  have zero: "subsOf key subs = 0" using D(4) none by simp
  have old: "sriInformer s \<noteq> sriInformer sri" if "map_of (fcSharedInformers fc) k = Some s" for k s
    using D(5) [OF that] fresh(1) by auto
  show "refCountOf ?fc k = int (subsOf k ?subs)" for k
    using D(3) [of k] key zero by (auto simp: refCountOf_def update_conv')
  show "map_of (fcSharedInformers ?fc) k = None \<longleftrightarrow> subsOf k ?subs = 0" for k
    using D(4) [of k] key by (simp add: update_conv')
  show "sriKey s = k \<and> sriInformer s \<notin> set (fcStopped ?fc) \<and> sriInformer s \<in> alloc w'" if "map_of (fcSharedInformers ?fc) k = Some s" for k s
    using that D(5) [of k s] D(8) key fresh by (auto simp: update_conv' split: if_splits)
  show "map_of (fcSharedInformers ?fc) (subKey ri) = Some (riShared ri)" if "ri \<in> set ?subs" for ri
    using that D(7) [of ri] zero key by (auto simp: update_conv' subsOf_zero)
  show "k1 = k2" if "map_of (fcSharedInformers ?fc) k1 = Some s1" "map_of (fcSharedInformers ?fc) k2 = Some s2" "sriInformer s1 = sriInformer s2" for k1 k2 s1 s2
    using that old [of k1 s1] old [of k2 s2] D(6) [of k1 s1 k2 s2] by (auto simp: update_conv' split: if_splits)
  show "set (fcStopped ?fc) \<subseteq> alloc w'" using D(8) fresh(2) by auto
qed (use factory_invD [OF inv] in \<open>simp_all add: distinct_update\<close>)

lemma factory_inv_drop:
  assumes inv: "factory_inv alloc (w, fc) subs" and ri: "ri \<in> set subs" and more: "refCountOf fc (subKey ri) > 1"
  shows "factory_inv alloc (w, fc\<lparr>fcRefCount := AList.update (subKey ri) (refCountOf fc (subKey ri) - 1) (fcRefCount fc)\<rparr>) (remove1 ri subs)"
    (is "factory_inv alloc (w, ?fc) ?subs")
proof (rule factory_invI)
  note D = factory_invD [OF inv]
  have sub: "q \<in> set ?subs \<Longrightarrow> q \<in> set subs" for q using set_remove1_subset by fast
  show "refCountOf ?fc k = int (subsOf k ?subs)" for k
    using D(3) [of k] D(3) [of "subKey ri"] more by (auto simp: refCountOf_update subsOf_remove1 [OF ri] of_nat_diff)
  show "map_of (fcSharedInformers ?fc) k = None \<longleftrightarrow> subsOf k ?subs = 0" for k
    using D(4) [of k] D(3) [of "subKey ri"] more by (auto simp: subsOf_remove1 [OF ri])
  show "map_of (fcSharedInformers ?fc) (subKey q) = Some (riShared q)" if "q \<in> set ?subs" for q
    using D(7) sub [OF that] by simp
  show "k1 = k2" if "map_of (fcSharedInformers ?fc) k1 = Some s1" "map_of (fcSharedInformers ?fc) k2 = Some s2" "sriInformer s1 = sriInformer s2" for k1 k2 s1 s2
    using that D(6) [of k1 s1 k2 s2] by simp
qed (use factory_invD [OF inv] in \<open>simp_all add: distinct_update\<close>)

lemma factory_inv_stop:
  assumes inv: "factory_inv alloc (w, fc) subs" and ri: "ri \<in> set subs" and last: "\<not> refCountOf fc (subKey ri) > 1"
  shows "factory_inv alloc (w, fc\<lparr>fcStopped := sriInformer (riShared ri) # fcStopped fc, fcRefCount := AList.delete (subKey ri) (fcRefCount fc),
     fcSharedInformers := AList.delete (subKey ri) (fcSharedInformers fc)\<rparr>) (remove1 ri subs)"
    (is "factory_inv alloc (w, ?fc) ?subs")
proof (rule factory_invI)
  note D = factory_invD [OF inv]
  have one: "subsOf (subKey ri) subs = 1" using D(3) [of "subKey ri"] last subsOf_pos [OF ri] by simp
  have rest: "subsOf k ?subs = (if k = subKey ri then 0 else subsOf k subs)" for k using one by (simp add: subsOf_remove1 [OF ri])
  have sub: "q \<in> set subs \<and> subKey q \<noteq> subKey ri" if "q \<in> set ?subs" for q
    using that rest [of "subKey ri"] set_remove1_subset [of ri subs] by (auto simp: subsOf_zero)
  have shared: "map_of (fcSharedInformers ?fc) k = (if k = subKey ri then None else map_of (fcSharedInformers fc) k)" for k
    using D(2) by (simp add: delete_conv')
  show "refCountOf ?fc k = int (subsOf k ?subs)" for k
    using D(1) D(3) [of k] by (simp add: rest refCountOf_def delete_conv')
  show "map_of (fcSharedInformers ?fc) k = None \<longleftrightarrow> subsOf k ?subs = 0" for k
    unfolding shared rest using D(4) [of k] by simp
  show "sriKey s = k \<and> sriInformer s \<notin> set (fcStopped ?fc) \<and> sriInformer s \<in> alloc w" if "map_of (fcSharedInformers ?fc) k = Some s" for k s
    using that D(5) [of k s] D(6) [of k s "subKey ri" "riShared ri"] D(7) [OF ri] unfolding shared by (auto split: if_splits)
  show "map_of (fcSharedInformers ?fc) (subKey q) = Some (riShared q)" if "q \<in> set ?subs" for q
    unfolding shared using sub [OF that] D(7) [of q] by simp
  show "k1 = k2" if "map_of (fcSharedInformers ?fc) k1 = Some s1" "map_of (fcSharedInformers ?fc) k2 = Some s2" "sriInformer s1 = sriInformer s2" for k1 k2 s1 s2
    using that D(6) [of k1 s1 k2 s2] unfolding shared by (simp split: if_splits)
  show "set (fcStopped ?fc) \<subseteq> alloc w" using D(5) [OF D(7) [OF ri]] D(8) by simp
qed (use factory_invD [OF inv] in \<open>simp_all add: distinct_delete\<close>)

lemma factory_inv_close:
  assumes inv: "factory_inv alloc (w, fc) subs" and ri: "ri \<in> set subs" and law: "fresh_law E alloc"
    and run: "run_state (ResourceInformer_Close E ri) (w, fc) = (r, (w', fc'))"
  shows "r = None \<and> factory_inv alloc (w', fc') (remove1 ri subs)"
proof -
  have live: "sriInformer (riShared ri) \<notin> set (fcStopped fc)"
    using factory_invD(5) [OF inv factory_invD(7) [OF inv ri]] by simp
  note c = closeFn_run [OF law run [unfolded ResourceInformer_Close_def] live]
  have "factory_inv alloc (w, fc') (remove1 ri subs)"
  proof (cases "refCountOf fc (subKey ri) > 1")
    case True
    then show ?thesis using c factory_inv_drop [OF inv ri] by simp
  next
    case False
    then show ?thesis using c factory_inv_stop [OF inv ri] by simp
  qed
  then show ?thesis using conjunct1 [OF c] factory_inv_mono conjunct1 [OF conjunct2 [OF c]] by metis
qed

lemma factory_reach_inv:
  assumes "fresh_law E alloc"
  shows "factory_reach K E alloc s subs \<Longrightarrow> factory_inv alloc s subs"
proof (induction rule: factory_reach.induct)
  case (subscribe s subs apiVersion resource ri s')
  then show ?case
    using Factory_Resource_run [OF assms, of K apiVersion resource "fst s" "snd s" "Inr ri" "fst s'" "snd s'"]
      factory_inv_share [of alloc "fst s" "snd s" subs] factory_inv_create [of alloc "fst s" "snd s" subs]
    by (cases s; cases s') auto
next
  case (refused s subs apiVersion resource e s')
  then show ?case
    using Factory_Resource_run [OF assms, of K apiVersion resource "fst s" "snd s" "Inl e" "fst s'" "snd s'"] factory_inv_mono
    by (cases s; cases s') auto
next
  case (unsubscribe s subs ri r s')
  then show ?case using factory_inv_close [OF _ _ assms] by (cases s; cases s') blast
qed (auto intro: factory_inv_start factory_inv_mono)

section \<open>Properties\<close>

text \<open>C11: Shared informers are neither lost nor leaked.  Whatever controllers subscribe and close in whatever order,
  in every reachable state of the factory an open subscription's informer is running and is the one the
  factory shares under its key, the reference count of a key is the number of its open subscriptions, a key
  without open subscription has no informer, and closing any open subscription does not panic.\<close>

theorem factory_refcount:
  assumes "fresh_law E alloc" "factory_reach K E alloc (w, fc) subs"
  shows "(\<forall>key. refCountOf fc key = int (subsOf key subs) \<and> (map_of (fcSharedInformers fc) key = None \<longleftrightarrow> subsOf key subs = 0)) \<and>
     (\<forall>ri \<in> set subs. map_of (fcSharedInformers fc) (subKey ri) = Some (riShared ri) \<and> sriInformer (riShared ri) \<notin> set (fcStopped fc) \<and>
        fst (run_state (ResourceInformer_Close E ri) (w, fc)) = None)"
proof -
  have inv: "factory_inv alloc (w, fc) subs" by (rule factory_reach_inv [OF assms])
  have "fst (run_state (ResourceInformer_Close E ri) (w, fc)) = None" if "ri \<in> set subs" for ri
    using factory_inv_close [OF inv that assms(1)] by (metis prod.collapse)
  with inv show ?thesis by (auto simp: factory_inv_def Let_def)
qed

definition podResources :: ResourceMap where
  "podResources = \<lparr>rmGroupVersions = Some [(''v1'',
     \<lparr>gveHeap = [rcAPIResource podClient], gveResources = [(''pods'', 0)], gveKinds = [(''Pod'', 0)], gveSubresources = []\<rparr>)]\<rparr>"

definition podClientset :: Clientset where
  "podClientset = \<lparr>csResources = podResources\<rparr>"

definition emptyAnswer :: httpResponse where
  "emptyAnswer = \<lparr>hpStatusCode = 200, hpHeader = (\<lambda>_. ''''), hpBody = Inr ''{}''\<rparr>"

definition emptyResponse :: CompositeHookResponse where
  "emptyResponse = \<lparr>chrStatus = Some [], chrChildren = [], chrResyncAfterSeconds = 0, chrFinalized = False\<rparr>"

abbreviation refE :: "world env" where
  "refE \<equiv> refEnv emptyAnswer emptyResponse"

lemma podClientset_Resource:
  "Clientset_Resource refK podClientset ''v1'' ''pods'' = Inr (podClient\<lparr>rcInterface := rcRootClient podClient\<rparr>)"
  by (simp add: Clientset_Resource_def podClientset_def podResources_def ResourceMap_Get_def Clientset_resource_def
      APIResource_GroupVersionResource_def APIResource_GroupVersion_def podClient_def refK_simps refGroupVersion_def numeral_2_eq_2 Let_def)

lemma refE_fresh: "fresh_law refE (\<lambda>w. {..<length (wLog w)})"
  by (auto simp: fresh_law_def refEnv_simps logE_def)

theorem factory_refcount_witness:
  "\<exists>w fc ri. factory_reach refK refE (\<lambda>w. {..<length (wLog w)}) (w, fc) [ri] \<and> refCountOf fc ''pods.v1'' = 1 \<and>
     fst (run_state (ResourceInformer_Close refE ri) (w, fc)) = None"
proof -
  obtain ri w fc where run: "run_state (Factory_Resource refK refE ''v1'' ''pods'') (podStore, NewSharedInformerFactory podClientset 0) = (Inr ri, (w, fc))"
      "subKey ri = ''pods.v1''"
    by (simp add: Factory_Resource_def getFactory_def modifyFactory_def newResourceInformer_def newSharedResourceInformer_def
        NewSharedInformerFactory_def podClientset_Resource refEnv_simps logE_def resourceKey_def Let_def)
  have "factory_reach refK refE (\<lambda>w. {..<length (wLog w)}) (w, fc) [ri]"
    by (rule factory_reach.subscribe [OF factory_reach.start run(1)])
  with factory_refcount [OF refE_fresh this] run(2) show ?thesis by force
qed

section \<open>Events\<close>

text \<open>The handlers that get an event, in the order they get it.\<close>

definition recipients :: "'h sharedEventHandler \<Rightarrow> 'h list" where
  "recipients seh = concat (map (\<lambda>p. map ehHandler (snd p)) (sehHandlers seh))"

lemma forAll_append: "run_state (forAll f (xs @ ys)) w = run_state (do { forAll f xs; forAll f ys }) w"
  by (induction xs arbitrary: w) (simp_all add: case_prod_beta)

lemma broadcast_recipients: "run_state (broadcast H seh ev) w = run_state (forAll (\<lambda>h. H h ev) (recipients seh)) w"
proof -
  have inner: "run_state (forAll (\<lambda>eh. H (ehHandler eh) ev) hs) w = run_state (forAll (\<lambda>h. H h ev) (map ehHandler hs)) w" for hs w
    by (induction hs arbitrary: w) (simp_all add: case_prod_beta)
  have "run_state (forAll (\<lambda>p. forAll (\<lambda>eh. H (ehHandler eh) ev) (snd p)) hs) w
      = run_state (forAll (\<lambda>h. H h ev) (concat (map (\<lambda>p. map ehHandler (snd p)) hs))) w" for hs w
    by (induction hs arbitrary: w) (simp_all add: forAll_append inner case_prod_beta)
  then show ?thesis by (simp add: broadcast_def recipients_def)
qed

section \<open>Indexed listing\<close>

text \<open>\<open>store\<close> is the content of an informer's cache; an index lookup gives the cached objects for which the
  index function yields the key.\<close>

definition index_law :: "'w k8s \<Rightarrow> 'w env \<Rightarrow> (nat \<Rightarrow> 'w \<Rightarrow> unstructured list) \<Rightarrow> bool" where
  "index_law K E store \<longleftrightarrow>
     (\<forall>i key w. run_state (IndexerByIndex E i OwnerUIDIndex key) w = (Inr (filter (\<lambda>u. key \<in> set (ownerUIDIndexFunc K u)) (store i w)), w)) \<and>
     (\<forall>i key w. run_state (IndexerByIndex E i OrphanIndex key) w = (Inr (filter (\<lambda>u. key \<in> set (orphanIndexFunc K u)) (store i w)), w))"

definition inNamespace :: "'w k8s \<Rightarrow> string \<Rightarrow> unstructured \<Rightarrow> bool" where
  "inNamespace K ns u \<longleftrightarrow> ns = '''' \<or> GetNamespace K u = ns"

definition controllerRefs :: "'w k8s \<Rightarrow> unstructured \<Rightarrow> OwnerReference list" where
  "controllerRefs K u = filter (\<lambda>ref. orController ref = Some True) (GetOwnerReferences K u)"

lemma ListByOwnerUID_run:
  assumes "index_law K E store"
  shows "run_state (ListByOwnerUID K E ri uid ns) w =
     (Inr (filter (\<lambda>u. inNamespace K ns u \<and> uid \<in> orUID ` set (controllerRefs K u)) (store (sriInformer (riShared ri)) w)), w)"
proof -
  have "(uid \<in> set (ownerUIDIndexFunc K u) \<and> \<not> (ns \<noteq> '''' \<and> GetNamespace K u \<noteq> ns)) =
      (inNamespace K ns u \<and> uid \<in> orUID ` set (controllerRefs K u))" for u
    by (auto simp: ownerUIDIndexFunc_def controllerRefs_def inNamespace_def)
  then show ?thesis
    using assms by (simp add: ListByOwnerUID_def byIndexAndNamespace_def index_law_def conj_commute)
qed

lemma ListOrphans_run:
  assumes "index_law K E store"
  shows "run_state (ListOrphans K E ri ns) w =
     (Inr (filter (\<lambda>u. inNamespace K ns u \<and> controllerRefs K u = []) (store (sriInformer (riShared ri)) w)), w)"
proof -
  have "(orphanIndexSentinel \<in> set (orphanIndexFunc K u) \<and> \<not> (ns \<noteq> '''' \<and> GetNamespace K u \<noteq> ns)) =
      (inNamespace K ns u \<and> controllerRefs K u = [])" for u
    by (auto simp: orphanIndexFunc_def controllerRefs_def inNamespace_def list_ex_iff filter_empty_conv)
  then show ?thesis
    using assms by (simp add: ListOrphans_def byIndexAndNamespace_def index_law_def conj_commute)
qed

end
