(* ===== verification/Process.thy ===== *)
theory Process
  imports Informer ManageChildren
begin

text \<open>
  The state of the process beside the outside world: the factory of shared informers, the event handlers
  registered with each shared informer, the cache of last updates, and, for every customize manager, the
  informers of related resources it has opened.  Operations of the components are lifted to it.
\<close>

text \<open>A controller is known by its type and name, its event handlers by that and what they listen to.\<close>

datatype handlerKind = ParentHandler | ChildHandler | RelatedHandler

type_synonym handlerId = "string \<times> handlerKind"

record proc =
  pcFactory :: SharedInformerFactory
  pcHandlers :: "(nat \<times> handlerId sharedEventHandler) list"
  pcLastUpdated :: lastUpdateCache
  pcRelated :: "(string \<times> InformerMap) list"

type_synonym ('w, 'a) pstate = "('w \<times> proc, 'a) state"

definition liftFactory :: "('w, 'a) fstate \<Rightarrow> ('w, 'a) pstate" where
  "liftFactory c = State (\<lambda>(w, p). case run_state c (w, pcFactory p) of (x, (w', f)) \<Rightarrow> (x, (w', p\<lparr>pcFactory := f\<rparr>)))"

definition liftCache :: "('w, 'a) cstate \<Rightarrow> ('w, 'a) pstate" where
  "liftCache c = State (\<lambda>(w, p). case run_state c (w, pcLastUpdated p) of (x, (w', l)) \<Rightarrow> (x, (w', p\<lparr>pcLastUpdated := l\<rparr>)))"

definition getRelated :: "string \<Rightarrow> ('w, InformerMap) pstate" where
  "getRelated controller = State (\<lambda>(w, p). (orNil (map_of (pcRelated p) controller), (w, p)))"

definition setRelated :: "string \<Rightarrow> InformerMap \<Rightarrow> ('w, unit) pstate" where
  "setRelated controller m = State (\<lambda>(w, p). ((), (w, p\<lparr>pcRelated := AList.update controller m (pcRelated p)\<rparr>)))"

text \<open>Registering a handler through a subscription runs it at once on what the cache holds, then records it with the
  shared informer; without a period of its own the handler uses the informer's.\<close>

definition handlersOf :: "proc \<Rightarrow> ResourceInformer \<Rightarrow> handlerId sharedEventHandler" where
  "handlersOf p ri =
     (let i = sriInformer (riShared ri) in
      case map_of (pcHandlers p) i of
        None \<Rightarrow> newSharedEventHandler i (sriDefaultResyncPeriod (riShared ri))
      | Some seh \<Rightarrow> seh)"

definition subscribeHandler :: "'w k8s \<Rightarrow> 'w env \<Rightarrow> (informerEvent \<Rightarrow> ('w, unit) state) \<Rightarrow> ResourceInformer \<Rightarrow> handlerId \<Rightarrow> int option \<Rightarrow> ('w, unit) pstate" where
  "subscribeHandler K E h ri hid resyncPeriod =
     State (\<lambda>(w, p).
       case run_state (case resyncPeriod of
                         None \<Rightarrow> AddEventHandler K E (\<lambda>_. h) ri (handlersOf p ri) hid
                       | Some d \<Rightarrow> AddEventHandlerWithResyncPeriod K E (\<lambda>_. h) ri (handlersOf p ri) hid d) w of
         (seh, w') \<Rightarrow> ((), (w', p\<lparr>pcHandlers := AList.update (sriInformer (riShared ri)) seh (pcHandlers p)\<rparr>)))"

definition unsubscribeHandlers :: "ResourceInformer \<Rightarrow> ('w, unit) pstate" where
  "unsubscribeHandlers ri =
     State (\<lambda>(w, p). ((), (w, p\<lparr>pcHandlers := AList.update (sriInformer (riShared ri)) (RemoveEventHandlers ri (handlersOf p ri)) (pcHandlers p)\<rparr>)))"

text \<open>Closing every informer of a map; a panic ends the loop.\<close>

fun closeInformers :: "'w env \<Rightarrow> (ResourceInformer \<Rightarrow> ('w, unit) pstate) \<Rightarrow> ResourceInformer list \<Rightarrow> ('w, err option) pstate" where
  "closeInformers E before [] = State_Monad.return None"
| "closeInformers E before (ri # ris) =
     do { before ri;
          r \<leftarrow> liftFactory (ResourceInformer_Close E ri);
          case r of Some e \<Rightarrow> State_Monad.return (Some e) | None \<Rightarrow> closeInformers E before ris }"

text \<open>A manager's adoption check is private to it.\<close>

definition withOnce :: "('w \<times> 's, 'a) state \<Rightarrow> 's \<Rightarrow> ('w, 'a \<times> 's) state" where
  "withOnce c s = State (\<lambda>w. case run_state c (w, s) of (x, (w', s')) \<Rightarrow> ((x, s'), w'))"

lemma run_liftFactory [simp]:
  "run_state (liftFactory c) (w, p) =
     (fst (run_state c (w, pcFactory p)),
      (fst (snd (run_state c (w, pcFactory p))), p\<lparr>pcFactory := snd (snd (run_state c (w, pcFactory p)))\<rparr>))"
  by (simp add: liftFactory_def case_prod_beta)

lemma run_liftCache [simp]:
  "run_state (liftCache c) (w, p) =
     (fst (run_state c (w, pcLastUpdated p)),
      (fst (snd (run_state c (w, pcLastUpdated p))), p\<lparr>pcLastUpdated := snd (snd (run_state c (w, pcLastUpdated p)))\<rparr>))"
  by (simp add: liftCache_def case_prod_beta)

lemma preserves_liftFactory [pres]: "preserves (\<lambda>(w, s). P w) c \<Longrightarrow> preserves (\<lambda>(w, p). P w) (liftFactory c)"
  unfolding preserves_def by (force simp: case_prod_beta)

lemma preserves_liftCache [pres]: "preserves (\<lambda>(w, s). P w) c \<Longrightarrow> preserves (\<lambda>(w, p). P w) (liftCache c)"
  unfolding preserves_def by (force simp: case_prod_beta)

lemma preserves_withOnce [pres]: "preserves (\<lambda>(w, s). P w) c \<Longrightarrow> preserves P (withOnce c s)"
  unfolding preserves_def withOnce_def by (force simp: case_prod_beta)

lemma preserves_getRelated [pres]: "preserves (\<lambda>(w, p). P w) (getRelated c)" "preserves (\<lambda>(w, p). P w) (setRelated c m)"
  by (auto simp: preserves_def getRelated_def setRelated_def)

lemma preserves_forAll [pres]: "(\<And>x. x \<in> set xs \<Longrightarrow> preserves P (f x)) \<Longrightarrow> preserves P (forAll f xs)"
  by (induction xs) (auto intro!: pres)

end
