(* ===== verification/Hooks.thy ===== *)
theory Hooks
  imports Env Common ObjectMap
begin

text \<open>
  Webhooks, \<^verbatim>\<open>pkg/hooks\<close>: the connection settings of an endpoint (certificates, authorization headers), the
  executor that makes a call, with or without caching by ETag, and the hook around it.  A response
  type is a parameter of the call through its strict decoder.  Log output is not modelled.
\<close>

section \<open>Strings\<close>

text \<open>\<^verbatim>\<open>strings.TrimSpace\<close> and \<^verbatim>\<open>strings.EqualFold\<close> on ASCII.\<close>

definition isSpace :: "char \<Rightarrow> bool" where
  "isSpace c \<longleftrightarrow> (of_char c :: nat) \<in> {9, 10, 11, 12, 13, 32}"

definition TrimSpace :: "string \<Rightarrow> string" where
  "TrimSpace s = rev (dropWhile isSpace (rev (dropWhile isSpace s)))"

definition lowerChar :: "char \<Rightarrow> char" where
  "lowerChar c = (let n = of_char c :: nat in if 65 \<le> n \<and> n \<le> 90 then char_of (n + 32) else c)"

definition EqualFold :: "string \<Rightarrow> string \<Rightarrow> bool" where
  "EqualFold s t \<longleftrightarrow> map lowerChar s = map lowerChar t"

text \<open>\<^verbatim>\<open>base64.StdEncoding.EncodeToString\<close>.\<close>

definition base64Char :: "nat \<Rightarrow> char" where
  "base64Char n = ''ABCDEFGHIJKLMNOPQRSTUVWXYZabcdefghijklmnopqrstuvwxyz0123456789+/'' ! n"

fun base64 :: "nat list \<Rightarrow> string" where
  "base64 [] = []"
| "base64 [a] = [base64Char (a div 4), base64Char ((a mod 4) * 16), CHR ''='', CHR ''='']"
| "base64 [a, b] = [base64Char (a div 4), base64Char ((a mod 4) * 16 + b div 16), base64Char ((b mod 16) * 4), CHR ''='']"
| "base64 (a # b # c # xs) =
     base64Char (a div 4) # base64Char ((a mod 4) * 16 + b div 16) # base64Char ((b mod 16) * 4 + c div 64) # base64Char (c mod 64) # base64 xs"

definition EncodeToString :: "string \<Rightarrow> string" where
  "EncodeToString s = base64 (map of_char s)"

text \<open>\<^verbatim>\<open>strconv.Atoi\<close> with its error ignored: zero for what is no number, the nearest \<^verbatim>\<open>int64\<close> for a number out of range.\<close>

definition isDigit :: "char \<Rightarrow> bool" where
  "isDigit c \<longleftrightarrow> 48 \<le> (of_char c :: nat) \<and> (of_char c :: nat) \<le> 57"

definition digitsValue :: "string \<Rightarrow> int" where
  "digitsValue s = foldl (\<lambda>n c. n * 10 + (int (of_char c) - 48)) 0 s"

definition Atoi :: "string \<Rightarrow> int" where
  "Atoi s =
     (let neg = (s \<noteq> [] \<and> hd s = CHR ''-'');
          ds = (if s \<noteq> [] \<and> (hd s = CHR ''-'' \<or> hd s = CHR ''+'') then tl s else s)
      in if ds = [] \<or> \<not> list_all isDigit ds then 0
         else max (- (2 ^ 63)) (min (2 ^ 63 - 1) (if neg then - digitsValue ds else digitsValue ds)))"

section \<open>Authorization\<close>

definition ResolveAuthorization :: "'w env \<Rightarrow> Authorization option \<Rightarrow> ('w, err + string) state" where
  "ResolveAuthorization E spec =
     (case spec of
        None \<Rightarrow> State_Monad.return (Inr '''')
      | Some s \<Rightarrow>
          if EqualFold (TrimSpace (auType s)) ''basic'' then
            State_Monad.return (Inl (Errorf (''authorization type '' @ fmtQ (auType s) @ '' is not supported; use the basicAuth field instead'') None))
          else
            (let ref = auSecretRef s in
             do { r \<leftarrow> GetSecret E (skNamespace ref) (skName ref);
                  State_Monad.return (case r of
                      Inl e \<Rightarrow> Inl (wrapErr (''can't get authorization secret '' @ skNamespace ref @ ''/'' @ skName ref) e)
                    | Inr secret \<Rightarrow>
                        (case map_of secret (skKey ref) of
                           None \<Rightarrow> Inl (Errorf (''authorization secret '' @ skNamespace ref @ ''/'' @ skName ref @
                                      '' does not contain key '' @ fmtQ (skKey ref)) None)
                         | Some value \<Rightarrow>
                             (let authType = TrimSpace (auType s);
                                  authType = (if authType = '''' then ''Bearer'' else authType)
                              in Inr (authType @ '' '' @ TrimSpace value)))) }))"

definition orDefault :: "string \<Rightarrow> string \<Rightarrow> string" where
  "orDefault s d = (if s = '''' then d else s)"

definition missingKey :: "string \<Rightarrow> SecretRef \<Rightarrow> string \<Rightarrow> err" where
  "missingKey what ref key =
     Errorf (what @ '' secret '' @ sfNamespace ref @ ''/'' @ sfName ref @ '' does not contain key '' @ fmtQ key) None"

definition ResolveBasicAuth :: "'w env \<Rightarrow> BasicAuth option \<Rightarrow> ('w, err + string) state" where
  "ResolveBasicAuth E spec =
     (case spec of
        None \<Rightarrow> State_Monad.return (Inr '''')
      | Some s \<Rightarrow>
          (let ref = baSecretRef s in
           do { r \<leftarrow> GetSecret E (sfNamespace ref) (sfName ref);
                State_Monad.return (case r of
                    Inl e \<Rightarrow> Inl (wrapErr (''can't get basicAuth secret '' @ sfNamespace ref @ ''/'' @ sfName ref) e)
                  | Inr secret \<Rightarrow>
                      (let usernameKey = orDefault (baUsernameKey s) ''username'';
                           passwordKey = orDefault (baPasswordKey s) ''password''
                       in case map_of secret usernameKey of
                            None \<Rightarrow> Inl (missingKey ''basicAuth'' ref usernameKey)
                          | Some username \<Rightarrow>
                              (case map_of secret passwordKey of
                                 None \<Rightarrow> Inl (missingKey ''basicAuth'' ref passwordKey)
                               | Some password \<Rightarrow>
                                   if CHR '':'' \<in> set username then Inl (Errorf (''basicAuth username must not contain ':'' @ [CHR 0x27]) None)
                                   else Inr (''Basic '' @ EncodeToString (TrimSpace username @ '':'' @ TrimSpace password))))) }))"

definition ResolveClientTLS :: "'w env \<Rightarrow> ClientTLS option \<Rightarrow> ('w, err + string option) state" where
  "ResolveClientTLS E spec =
     (case spec of
        None \<Rightarrow> State_Monad.return (Inr None)
      | Some s \<Rightarrow>
          (let ref = ctSecretRef s in
           do { r \<leftarrow> GetSecret E (sfNamespace ref) (sfName ref);
                State_Monad.return (case r of
                    Inl e \<Rightarrow> Inl (wrapErr (''can't get clientTLS secret '' @ sfNamespace ref @ ''/'' @ sfName ref) e)
                  | Inr secret \<Rightarrow>
                      (let certKey = orDefault (ctCertKey s) ''tls.crt'';
                           privateKeyKey = orDefault (ctPrivateKeyKey s) ''tls.key''
                       in case map_of secret certKey of
                            None \<Rightarrow> Inl (missingKey ''clientTLS'' ref certKey)
                          | Some certPEM \<Rightarrow>
                              (case map_of secret privateKeyKey of
                                 None \<Rightarrow> Inl (missingKey ''clientTLS'' ref privateKeyKey)
                               | Some keyPEM \<Rightarrow>
                                   (case X509KeyPair E certPEM keyPEM of
                                      Inl e \<Rightarrow> Inl (wrapErr (''can't parse clientTLS certificate from secret '' @ sfNamespace ref @ ''/'' @ sfName ref) e)
                                    | Inr cert \<Rightarrow> Inr (Some cert))))) }))"

section \<open>CA bundles\<close>

definition bundleFrom :: "string \<Rightarrow> ResourceKeyRef \<Rightarrow> err + strmap \<Rightarrow> err + string" where
  "bundleFrom what ref r =
     (let key = orDefault (rkKey ref) ''ca.crt''; obj = what @ '' '' @ rkNamespace ref @ ''/'' @ rkName ref in
      case r of
        Inl e \<Rightarrow> Inl (wrapErr (''caBundle: failed to get '' @ obj) e)
      | Inr m \<Rightarrow>
          (case map_of m key of
             None \<Rightarrow> Inl (Errorf (''caBundle: key '' @ fmtQ key @ '' not found in '' @ obj) None)
           | Some d \<Rightarrow> if d = '''' then Inl (Errorf (''caBundle: key '' @ fmtQ key @ '' in '' @ obj @ '' is empty'') None) else Inr d))"

definition resolveFromSecret :: "'w env \<Rightarrow> ResourceKeyRef \<Rightarrow> ('w, err + string) state" where
  "resolveFromSecret E ref =
     do { r \<leftarrow> GetSecret E (rkNamespace ref) (rkName ref); State_Monad.return (bundleFrom ''Secret'' ref r) }"

definition resolveFromConfigMap :: "'w env \<Rightarrow> ResourceKeyRef \<Rightarrow> ('w, err + string) state" where
  "resolveFromConfigMap E ref =
     do { r \<leftarrow> GetConfigMap E (rkNamespace ref) (rkName ref); State_Monad.return (bundleFrom ''ConfigMap'' ref r) }"

definition ResolveCABundle :: "'w env \<Rightarrow> CABundle option \<Rightarrow> ('w, err + string) state" where
  "ResolveCABundle E spec =
     (case spec of
        None \<Rightarrow> State_Monad.return (Inr '''')
      | Some s \<Rightarrow>
          (let sourcesSet = (if cbInline s \<noteq> None then 1 else 0) + (if cbSecretRef s \<noteq> None then 1 else 0) + (if cbConfigMapRef s \<noteq> None then 1 else 0 :: nat) in
           if sourcesSet = 0 then
             State_Monad.return (Inl (Errorf ''caBundle is set but none of inline, secretRef, or configMapRef is specified'' None))
           else if sourcesSet > 1 then
             State_Monad.return (Inl (Errorf ''caBundle has more than one source set: exactly one of inline, secretRef, or configMapRef must be specified'' None))
           else (case cbInline s of
                   Some pem \<Rightarrow> State_Monad.return (Inr pem)
                 | None \<Rightarrow> (case cbSecretRef s of
                     Some ref \<Rightarrow> resolveFromSecret E ref
                   | None \<Rightarrow> (case cbConfigMapRef s of
                       Some ref \<Rightarrow> resolveFromConfigMap E ref
                     | None \<Rightarrow> State_Monad.return (Inl GoPanic))))))"

section \<open>Endpoints\<close>

record ResolvedEndpointConfig =
  reCABundle :: string
  reAuthHeader :: string
  reClientCert :: "string option"

definition webhookURL :: "Webhook \<Rightarrow> err + string" where
  "webhookURL webhook =
     (case whURL webhook of
        Some u \<Rightarrow> Inr u
      | None \<Rightarrow>
          (case (whService webhook, whPath webhook) of
             (Some service, Some path) \<Rightarrow>
               if srName service = '''' \<or> srNamespace service = '''' then
                 Inl (Errorf (''invalid webhook config: 'service' must specify both 'name' and 'namespace'' @ [CHR 0x27]) None)
               else
                 (let port = (case srPort service of None \<Rightarrow> 80 | Some p \<Rightarrow> p);
                      protocol = (case srProtocol service of None \<Rightarrow> ''http'' | Some p \<Rightarrow> p)
                  in Inr (protocol @ ''://'' @ srName service @ ''.'' @ srNamespace service @ '':'' @ showInt port @ path))
           | _ \<Rightarrow> Inl (Errorf (''invalid webhook config: must specify either a full 'url', or both 'service' and 'path'' @ [CHR 0x27]) None)))"

definition matchesEndpoint :: "parsedURL \<Rightarrow> EndpointConfig \<Rightarrow> bool" where
  "matchesEndpoint u c =
     (let canonicalHost =
            (if puPort u = '''' then
               (if puScheme u = ''https'' then puHostname u @ '':443''
                else if puScheme u = ''http'' then puHostname u @ '':80''
                else puHost u)
             else puHost u)
      in EqualFold (ecHost c) (puHost u) \<or> EqualFold (ecHost c) canonicalHost \<or>
         puPort u \<noteq> '''' \<and> EqualFold (ecHost c) (puHostname u) \<and>
         (puScheme u = ''https'' \<and> puPort u = ''443'' \<or> puScheme u = ''http'' \<and> puPort u = ''80''))"

definition matchEndpointConfig :: "'w env \<Rightarrow> string \<Rightarrow> EndpointConfig list \<Rightarrow> EndpointConfig option" where
  "matchEndpointConfig E url endpointConfigs =
     (case ParseURL E url of
        Inl _ \<Rightarrow> None
      | Inr u \<Rightarrow> find (matchesEndpoint u) endpointConfigs)"

definition resolveAuth :: "'w env \<Rightarrow> Authorization option \<Rightarrow> BasicAuth option \<Rightarrow> ('w, err + string) state" where
  "resolveAuth E authorization basicAuth =
     (if authorization \<noteq> None then
        do { r \<leftarrow> ResolveAuthorization E authorization;
             State_Monad.return (case r of Inl e \<Rightarrow> Inl (wrapErr ''can't resolve authorization'' e) | Inr h \<Rightarrow> Inr h) }
      else if basicAuth \<noteq> None then
        do { r \<leftarrow> ResolveBasicAuth E basicAuth;
             State_Monad.return (case r of Inl e \<Rightarrow> Inl (wrapErr ''can't resolve basicAuth'' e) | Inr h \<Rightarrow> Inr h) }
      else State_Monad.return (Inr ''''))"

definition resolveFields :: "'w env \<Rightarrow> CABundle option \<Rightarrow> ClientTLS option \<Rightarrow> Authorization option \<Rightarrow> BasicAuth option
    \<Rightarrow> ('w, err + ResolvedEndpointConfig option) state" where
  "resolveFields E caBundle clientTLS authorization basicAuth =
     (if authorization \<noteq> None \<and> basicAuth \<noteq> None then
        State_Monad.return (Inl (Errorf ''authorization and basicAuth are mutually exclusive'' None))
      else
        do { r \<leftarrow> ResolveCABundle E caBundle;
             case r of
               Inl e \<Rightarrow> State_Monad.return (Inl (wrapErr ''can't resolve caBundle'' e))
             | Inr ca \<Rightarrow>
                 do { r \<leftarrow> ResolveClientTLS E clientTLS;
                      case r of
                        Inl e \<Rightarrow> State_Monad.return (Inl (wrapErr ''can't resolve clientTLS'' e))
                      | Inr cert \<Rightarrow>
                          do { r \<leftarrow> resolveAuth E authorization basicAuth;
                               State_Monad.return (case r of
                                   Inl e \<Rightarrow> Inl e
                                 | Inr header \<Rightarrow>
                                     if ca = '''' \<and> header = '''' \<and> cert = None then Inr None
                                     else Inr (Some \<lparr>reCABundle = ca, reAuthHeader = header, reClientCert = cert\<rparr>)) } } })"

definition ResolveEndpointConfig :: "'w env \<Rightarrow> Webhook option \<Rightarrow> EndpointConfig list \<Rightarrow> ('w, err + ResolvedEndpointConfig option) state" where
  "ResolveEndpointConfig E webhook endpointConfigs =
     (case webhook of
        None \<Rightarrow> State_Monad.return (Inr None)
      | Some wh \<Rightarrow>
          if whCABundle wh \<noteq> None \<or> whClientTLS wh \<noteq> None \<or> whAuthorization wh \<noteq> None \<or> whBasicAuth wh \<noteq> None
          then resolveFields E (whCABundle wh) (whClientTLS wh) (whAuthorization wh) (whBasicAuth wh)
          else if endpointConfigs = [] then State_Monad.return (Inr None)
          else (case webhookURL wh of
                  Inl _ \<Rightarrow> State_Monad.return (Inr None)
                | Inr url \<Rightarrow>
                    (case matchEndpointConfig E url endpointConfigs of
                       None \<Rightarrow> State_Monad.return (Inr None)
                     | Some cfg \<Rightarrow> resolveFields E (ecCABundle cfg) (ecClientTLS cfg) (ecAuthorization cfg) (ecBasicAuth cfg))))"

section \<open>Executors\<close>

datatype webhookAbstract = webhookExecutorPlain | webhookExecutorEtag nat

record webhookExecutor =
  weClient :: httpClient
  weURL :: string
  weHookType :: string
  weHookVersion :: "HookVersion option"
  weAbstract :: webhookAbstract
  weResponseUnmarshallMode :: string
  weAuthHeader :: string

text \<open>Durations are nanoseconds.  The error of an invalid timeout is only logged.\<close>

definition webhookTimeout :: "Webhook \<Rightarrow> int \<times> err option" where
  "webhookTimeout webhook =
     (case whTimeout webhook of
        None \<Rightarrow> (10 * 10 ^ 9, None)
      | Some d \<Rightarrow> if d \<le> 0 then (10 * 10 ^ 9, Some (Errorf ''invalid client config: timeout must be a non-zero positive duration. Defaulting to 10 seconds'' None))
                  else (d, None))"

definition isEtagEnabled :: "Webhook \<Rightarrow> bool" where
  "isEtagEnabled webhook = (case whEtag webhook of None \<Rightarrow> False | Some e \<Rightarrow> weEnabled e = Some True)"

definition responseUnmarshallMode :: "string option \<Rightarrow> HookVersion option \<Rightarrow> string" where
  "responseUnmarshallMode mode version =
     (case mode of
        None \<Rightarrow> if version = Some HookVersionV2 then ''strict'' else ''loose''
      | Some m \<Rightarrow> m)"

definition buildTLSTransport :: "'w env \<Rightarrow> string \<Rightarrow> string option \<Rightarrow> httpClient \<Rightarrow> err + httpClient" where
  "buildTLSTransport E caBundle clientCert client =
     (if caBundle \<noteq> '''' \<and> \<not> ValidPEM E caBundle then
        Inl (Errorf ''caBundle: no valid PEM-encoded certificates found in the provided CA bundle'' None)
      else Inr (client\<lparr>hcRootCAs := (if caBundle \<noteq> '''' then Some caBundle else None), hcCertificate := clientCert\<rparr>))"

text \<open>The cache of an ETag executor.  The cleanup interval is guarded by the wrong field: with a cache timeout and
  no cleanup interval the nil pointer is dereferenced.\<close>

definition newAbstract :: "'w env \<Rightarrow> Webhook \<Rightarrow> ('w, err + webhookAbstract) state" where
  "newAbstract E webhook =
     (case whEtag webhook of
        Some etag \<Rightarrow>
          if isEtagEnabled webhook then
            (case (weCacheTimeoutSeconds etag, weCacheCleanupSeconds etag) of
               (Some t, None) \<Rightarrow> State_Monad.return (Inl GoPanic)
             | (Some t, Some c) \<Rightarrow> do { i \<leftarrow> NewEtagCache E (10 ^ 9 * t) (10 ^ 9 * c); State_Monad.return (Inr (webhookExecutorEtag i)) }
             | (None, _) \<Rightarrow> do { i \<leftarrow> NewEtagCache E 0 0; State_Monad.return (Inr (webhookExecutorEtag i)) })
          else State_Monad.return (Inr webhookExecutorPlain)
      | None \<Rightarrow> State_Monad.return (Inr webhookExecutorPlain))"

definition newWebhookExecutor :: "httpClient \<Rightarrow> string \<Rightarrow> string \<Rightarrow> HookVersion option \<Rightarrow> string option \<Rightarrow> webhookAbstract \<Rightarrow> string \<Rightarrow> webhookExecutor" where
  "newWebhookExecutor client url hookType hookVersion unmarshallMode abstract authHeader =
     \<lparr>weClient = client, weURL = url, weHookType = hookType, weHookVersion = hookVersion, weAbstract = abstract,
      weResponseUnmarshallMode = responseUnmarshallMode unmarshallMode hookVersion, weAuthHeader = authHeader\<rparr>"

definition NewWebhookExecutor :: "'w env \<Rightarrow> Webhook option \<Rightarrow> HookVersion option \<Rightarrow> string \<Rightarrow> string \<Rightarrow> string \<Rightarrow> ResolvedEndpointConfig option
    \<Rightarrow> ('w, err + webhookExecutor option) state" where
  "NewWebhookExecutor E webhook hookVersion controllerName controllerType hookType conn =
     (case webhook of
        None \<Rightarrow> State_Monad.return (Inr None)
      | Some wh \<Rightarrow>
          (case webhookURL wh of
             Inl e \<Rightarrow> State_Monad.return (Inl e)
           | Inr url \<Rightarrow>
               (let client = \<lparr>hcTimeout = fst (webhookTimeout wh), hcRootCAs = None, hcCertificate = None, hcMetrics = None\<rparr>;
                    ca = (case conn of None \<Rightarrow> '''' | Some c \<Rightarrow> reCABundle c);
                    cert = (case conn of None \<Rightarrow> None | Some c \<Rightarrow> reClientCert c);
                    auth = (case conn of None \<Rightarrow> '''' | Some c \<Rightarrow> reAuthHeader c)
                in case (if ca \<noteq> '''' \<or> cert \<noteq> None then buildTLSTransport E ca cert client else Inr client) of
                     Inl e \<Rightarrow> State_Monad.return (Inl e)
                   | Inr client \<Rightarrow>
                       do { r \<leftarrow> InstrumentClientWithConstLabels (Prometheus E) controllerName controllerType hookType client url;
                            case r of
                              Inl e \<Rightarrow> State_Monad.return (Inl e)
                            | Inr client \<Rightarrow>
                                do { a \<leftarrow> newAbstract E wh;
                                     State_Monad.return (case a of
                                         Inl e \<Rightarrow> Inl e
                                       | Inr abstract \<Rightarrow> Inr (Some (newWebhookExecutor client url hookType hookVersion
                                           (whResponseUnmarshallMode wh) abstract auth))) } })))"

definition effectiveHookVersion :: "webhookExecutor \<Rightarrow> HookVersion" where
  "effectiveHookVersion w =
     (case weHookVersion w of None \<Rightarrow> HookVersionV1 | Some v \<Rightarrow> if v \<noteq> '''' then v else HookVersionV1)"

definition webhookExecutor_GetVersion :: "webhookExecutor \<Rightarrow> HookVersion" where
  "webhookExecutor_GetVersion w = effectiveHookVersion w"

definition shouldReportStrictErrors :: "webhookExecutor \<Rightarrow> bool" where
  "shouldReportStrictErrors w \<longleftrightarrow> weResponseUnmarshallMode w = ''strict''"

section \<open>Caching by ETag\<close>

type_synonym eTagKey = "string \<times> string \<times> string"

definition getKeyFromObject :: "'w k8s \<Rightarrow> unstructured \<Rightarrow> eTagKey" where
  "getKeyFromObject K obj = (GetKind K obj, GetNamespace K obj, GetName K obj)"

definition headerGet :: "httpRequest \<Rightarrow> string \<Rightarrow> string" where
  "headerGet request name = (case map_of (hqHeader request) name of None \<Rightarrow> '''' | Some v \<Rightarrow> v)"

definition headerSet :: "httpRequest \<Rightarrow> string \<Rightarrow> string \<Rightarrow> httpRequest" where
  "headerSet request name v = request\<lparr>hqHeader := jput name v (hqHeader request)\<rparr>"

fun enrichHeaders :: "'w k8s \<Rightarrow> 'w env \<Rightarrow> webhookAbstract \<Rightarrow> httpRequest \<Rightarrow> unstructured \<Rightarrow> ('w, httpRequest) state" where
  "enrichHeaders K E webhookExecutorPlain request rootObj = State_Monad.return request"
| "enrichHeaders K E (webhookExecutorEtag i) request rootObj =
     do { entry \<leftarrow> EtagCacheGet E i (getKeyFromObject K rootObj);
          State_Monad.return (case entry of
              None \<Rightarrow> request
            | Some (etag, _) \<Rightarrow> headerSet request ''If-None-Match'' etag) }"

fun isStatusSupported :: "webhookAbstract \<Rightarrow> httpRequest \<Rightarrow> httpResponse \<Rightarrow> bool" where
  "isStatusSupported webhookExecutorPlain request response \<longleftrightarrow> hpStatusCode response = 200"
| "isStatusSupported (webhookExecutorEtag i) request response \<longleftrightarrow>
     (if hpStatusCode response = 200 then True
      else if hpStatusCode response = 304 \<or> hpStatusCode response = 412 then headerGet request ''If-None-Match'' \<noteq> ''''
      else False)"

fun adjustResponse :: "'w k8s \<Rightarrow> 'w env \<Rightarrow> webhookAbstract \<Rightarrow> httpRequest \<Rightarrow> unstructured \<Rightarrow> string \<Rightarrow> httpResponse \<Rightarrow> ('w, err + string) state" where
  "adjustResponse K E webhookExecutorPlain request rootObj responseBody response = State_Monad.return (Inr responseBody)"
| "adjustResponse K E (webhookExecutorEtag i) request rootObj responseBody response =
     (let cacheKey = getKeyFromObject K rootObj in
      if headerGet request ''If-None-Match'' \<noteq> '''' \<and> (hpStatusCode response = 304 \<or> hpStatusCode response = 412) then
        do { entry \<leftarrow> EtagCacheGet E i cacheKey;
             State_Monad.return (case entry of
                 None \<Rightarrow> Inl (Errorf (''cannot find cached response for cache key: {'' @ fst cacheKey @ '' '' @ fst (snd cacheKey) @ '' '' @ snd (snd cacheKey) @ ''}'') None)
               | Some (_, body) \<Rightarrow> Inr body) }
      else if hpHeader response ''ETag'' \<noteq> '''' then
        do { EtagCacheSet E i cacheKey (hpHeader response ''ETag'', responseBody); State_Monad.return (Inr responseBody) }
      else State_Monad.return (Inr responseBody))"

section \<open>The call\<close>

text \<open>How long to wait after \<^verbatim>\<open>429 Too Many Requests\<close>.\<close>

definition retryAfter :: "'w env \<Rightarrow> httpResponse \<Rightarrow> ('w, int) state" where
  "retryAfter E response =
     (let h = hpHeader response ''Retry-After'' in
      case ParseRFC1123 E h of
        Inl _ \<Rightarrow> State_Monad.return (Atoi h)
      | Inr nextTime \<Rightarrow> do { now \<leftarrow> Now E; State_Monad.return (- ((now - nextTime) div 10 ^ 9)) })"

definition decodeResponse :: "'w k8s \<Rightarrow> webhookExecutor \<Rightarrow> (string \<Rightarrow> err + 'r \<times> err list) \<Rightarrow> string \<Rightarrow> err + 'r" where
  "decodeResponse K w decode body =
     (case decode body of
        Inl e \<Rightarrow> Inl (wrapErr (''can't unmarshal webhookResponse (version: '' @ effectiveHookVersion w @ '', type: '' @ weHookType w @ '')'') e)
      | Inr (r, strictErrs) \<Rightarrow>
          (case NewAggregate K strictErrs of
             None \<Rightarrow> Inr r
           | Some e \<Rightarrow>
               if shouldReportStrictErrors w then
                 Inl (wrapErr (''strict validation failed for '' @ effectiveHookVersion w @ '' webhookResponse (type: '' @ weHookType w @
                   '', mode: '' @ weResponseUnmarshallMode w @ '')'') e)
               else Inr r))"

definition handleResponse :: "'w k8s \<Rightarrow> 'w env \<Rightarrow> webhookExecutor \<Rightarrow> (string \<Rightarrow> err + 'r \<times> err list) \<Rightarrow> httpRequest \<Rightarrow> unstructured
    \<Rightarrow> httpResponse \<Rightarrow> ('w, err + 'r) state" where
  "handleResponse K E w decode request rootObj response =
     (if hpStatusCode response = 429 then
        do { afterSecond \<leftarrow> retryAfter E response; State_Monad.return (Inl (TooManyRequestError afterSecond)) }
      else
        (case hpBody response of
           Inl e \<Rightarrow> State_Monad.return (Inl (wrapErr ''can't read response body'' e))
         | Inr responseBody \<Rightarrow>
             if \<not> isStatusSupported (weAbstract w) request response then
               State_Monad.return (Inl (Errorf (''unsupported status code: '' @ showInt (hpStatusCode response) @ '' body: '' @ responseBody) None))
             else
               do { r \<leftarrow> adjustResponse K E (weAbstract w) request rootObj responseBody response;
                    State_Monad.return (case r of Inl e \<Rightarrow> Inl e | Inr body \<Rightarrow> decodeResponse K w decode body) }))"

definition webhookExecutor_Call :: "'w k8s \<Rightarrow> 'w env \<Rightarrow> webhookExecutor \<Rightarrow> (string \<Rightarrow> err + 'r \<times> err list) \<Rightarrow> json \<Rightarrow> unstructured
    \<Rightarrow> ('w, err + 'r) state" where
  "webhookExecutor_Call K E w decode webhookRequest rootObj =
     (case Marshal K webhookRequest of
        Inl e \<Rightarrow> State_Monad.return (Inl (wrapErr ''can't marshal request'' e))
      | Inr requestBody \<Rightarrow>
          (case NewRequest E (weURL w) of
             Some e \<Rightarrow> State_Monad.return (Inl e)
           | None \<Rightarrow>
               (let request = headerSet \<lparr>hqURL = weURL w, hqHeader = [], hqBody = requestBody\<rparr> ''Content-Type'' ''application/json'';
                    request = (if weAuthHeader w \<noteq> '''' then headerSet request ''Authorization'' (weAuthHeader w) else request)
                in do { request \<leftarrow> enrichHeaders K E (weAbstract w) request rootObj;
                        r \<leftarrow> HttpDo E (weClient w) request;
                        case r of
                          Inl e \<Rightarrow> State_Monad.return (Inl (wrapErr ''http error'' e))
                        | Inr response \<Rightarrow> handleResponse K E w decode request rootObj response })))"

section \<open>Hooks\<close>

text \<open>A hook without executor is disabled; calling it would dereference a nil interface.\<close>

record hookExecutorImpl =
  heExecutor :: "webhookExecutor option"

definition NewHook :: "'w env \<Rightarrow> Hook option \<Rightarrow> string \<Rightarrow> string \<Rightarrow> string \<Rightarrow> ResolvedEndpointConfig option \<Rightarrow> ('w, err + hookExecutorImpl) state" where
  "NewHook E hook controllerName controllerType hookType conn =
     (case hook of
        None \<Rightarrow> State_Monad.return (Inr \<lparr>heExecutor = None\<rparr>)
      | Some h \<Rightarrow>
          do { r \<leftarrow> NewWebhookExecutor E (hkWebhook h) (hkVersion h) controllerName controllerType hookType conn;
               State_Monad.return (case r of Inl e \<Rightarrow> Inl e | Inr executor \<Rightarrow> Inr \<lparr>heExecutor = executor\<rparr>) })"

definition Hook_IsEnabled :: "hookExecutorImpl \<Rightarrow> bool" where
  "Hook_IsEnabled h \<longleftrightarrow> heExecutor h \<noteq> None"

definition hookExecutor_GetVersion :: "hookExecutorImpl \<Rightarrow> HookVersion" where
  "hookExecutor_GetVersion h =
     (case heExecutor h of None \<Rightarrow> HookVersionV1 | Some w \<Rightarrow> webhookExecutor_GetVersion w)"

definition Hook_Call :: "'w k8s \<Rightarrow> 'w env \<Rightarrow> hookExecutorImpl \<Rightarrow> (string \<Rightarrow> err + 'r \<times> err list) \<Rightarrow> json \<Rightarrow> unstructured \<Rightarrow> ('w, err + 'r) state" where
  "Hook_Call K E h decode request rootObj =
     (case heExecutor h of
        None \<Rightarrow> State_Monad.return (Inl GoPanic)
      | Some w \<Rightarrow> webhookExecutor_Call K E w decode request rootObj)"

section \<open>Lemmas\<close>

lemma headerGet_headerSet [simp]: "headerGet (headerSet request n v) m = (if m = n then v else headerGet request m)"
  by (simp add: headerGet_def headerSet_def)

lemma enrichHeaders_keeps:
  "run_state (enrichHeaders K E a request rootObj) s = (request', s') \<Longrightarrow> name \<noteq> ''If-None-Match'' \<Longrightarrow> headerGet request' name = headerGet request name"
  by (cases a) (auto simp: case_prod_beta split: option.splits)

lemma decodeResponse_Inr:
  assumes "aggregate_law K" "decodeResponse K w decode body = Inr r"
  shows "\<exists>strictErrs. decode body = Inr (r, strictErrs) \<and> (strictErrs = [] \<or> weResponseUnmarshallMode w \<noteq> ''strict'')"
  using assms
  by (auto simp: decodeResponse_def aggregate_law_def shouldReportStrictErrors_def split: sum.splits option.splits prod.splits if_splits)

text \<open>The body a response is decoded from: what was sent with status 200, or what the cache holds.\<close>

definition bodySource :: "'w k8s \<Rightarrow> 'w env \<Rightarrow> webhookExecutor \<Rightarrow> httpRequest \<Rightarrow> unstructured \<Rightarrow> httpResponse \<Rightarrow> 'w \<Rightarrow> string \<Rightarrow> bool" where
  "bodySource K E w request rootObj response s body \<longleftrightarrow>
     hpStatusCode response = 200 \<and> hpBody response = Inr body \<or>
     (\<exists>i etag. weAbstract w = webhookExecutorEtag i \<and> hpStatusCode response \<in> {304, 412} \<and> headerGet request ''If-None-Match'' \<noteq> '''' \<and>
        fst (run_state (EtagCacheGet E i (getKeyFromObject K rootObj)) s) = Some (etag, body))"

lemma adjustResponse_body:
  assumes "isStatusSupported (weAbstract w) request response" "hpBody response = Inr responseBody"
    and "run_state (adjustResponse K E (weAbstract w) request rootObj responseBody response) s = (Inr body, s')"
  shows "bodySource K E w request rootObj response s body"
proof (cases "weAbstract w")
  case (webhookExecutorEtag i)
  obtain entry s1 where get: "run_state (EtagCacheGet E i (getKeyFromObject K rootObj)) s = (entry, s1)" by (metis surj_pair)
  show ?thesis
    using assms get unfolding bodySource_def webhookExecutorEtag by (cases entry) (auto simp: Let_def case_prod_beta split: if_splits)
qed (use assms in \<open>auto simp: bodySource_def\<close>)

lemma handleResponse_Inr:
  assumes "aggregate_law K" "run_state (handleResponse K E w decode request rootObj response) s = (Inr r, s')"
  shows "\<exists>body strictErrs. decode body = Inr (r, strictErrs) \<and> (strictErrs = [] \<or> weResponseUnmarshallMode w \<noteq> ''strict'') \<and>
     bodySource K E w request rootObj response s body"
proof -
  obtain responseBody where rb: "hpStatusCode response \<noteq> 429" "hpBody response = Inr responseBody" "isStatusSupported (weAbstract w) request response"
    using assms(2) by (auto simp: handleResponse_def case_prod_beta split: if_splits sum.splits)
  obtain x s1 where x: "run_state (adjustResponse K E (weAbstract w) request rootObj responseBody response) s = (x, s1)" by (metis surj_pair)
  obtain body where "x = Inr body" "decodeResponse K w decode body = Inr r"
    using assms(2) rb x by (auto simp: handleResponse_def split: sum.splits)
  then show ?thesis
    using decodeResponse_Inr [OF assms(1), of w decode body r] adjustResponse_body [OF rb(3,2), of K E rootObj s body s1] x by auto
qed

section \<open>Properties\<close>


definition plainExecutor :: webhookExecutor where
  "plainExecutor = \<lparr>weClient = \<lparr>hcTimeout = 0, hcRootCAs = None, hcCertificate = None, hcMetrics = None\<rparr>, weURL = ''http://h'', weHookType = ''sync'',
     weHookVersion = None, weAbstract = webhookExecutorPlain, weResponseUnmarshallMode = ''loose'', weAuthHeader = ''Bearer t''\<rparr>"

definition emptyWorld :: world where
  "emptyWorld = \<lparr>wObjects = [], wLog = [], wRevisions = [], wGroups = []\<rparr>"

definition okEnv :: "world env" where
  "okEnv = refEnv \<lparr>hpStatusCode = 200, hpHeader = (\<lambda>_. ''''), hpBody = Inr ''{}''\<rparr>
     \<lparr>chrStatus = None, chrChildren = [], chrResyncAfterSeconds = 0, chrFinalized = False\<rparr>"


text \<open>With a cache timeout and no cleanup interval, creating the executor of a hook with ETags panics.\<close>

lemma etag_cleanup_panics:
  assumes "whEtag wh = Some e" "weEnabled e = Some True" "weCacheTimeoutSeconds e = Some t" "weCacheCleanupSeconds e = None"
  shows "run_state (newAbstract E wh) w = (Inl GoPanic, w)"
  using assms by (simp add: newAbstract_def isEtagEnabled_def)

end
