(* ===== verification/Customize.thy ===== *)
theory Customize
  imports Process Hooks
begin

text \<open>
  Related objects, \<^verbatim>\<open>pkg/controller/common/customize\<close>: the manager that asks the customize hook which other objects a
  parent depends on, finds them in the caches, and queues the parents of a related object that changes.
  The informers it opens on demand are the component \<open>pcRelated\<close> of the process; \<^verbatim>\<open>enqueueParent\<close> is the
  controller's, a parameter.  Of \<^verbatim>\<open>%#v\<close> in an error only the text before it is kept.
\<close>

section \<open>The manager\<close>

datatype CustomizableController = Composite CompositeController | Decorator DecoratorController

fun GetCustomizeHook :: "CustomizableController \<Rightarrow> Hook option" where
  "GetCustomizeHook (Composite cc) = CompositeController_GetCustomizeHook cc"
| "GetCustomizeHook (Decorator dc) = DecoratorController_GetCustomizeHook dc"

fun GetEndpointConfigs :: "CustomizableController \<Rightarrow> EndpointConfig list" where
  "GetEndpointConfigs (Composite cc) = CompositeController_GetEndpointConfigs cc"
| "GetEndpointConfigs (Decorator dc) = DecoratorController_GetEndpointConfigs dc"

fun encodeController :: "'w env \<Rightarrow> CustomizableController \<Rightarrow> json" where
  "encodeController E (Composite cc) = EncodeComposite E cc"
| "encodeController E (Decorator dc) = EncodeDecorator E dc"

text \<open>\<^verbatim>\<open>mgId\<close> stands for the manager's identity, under which the process keeps its informers.  \<^verbatim>\<open>ctx\<close> is never nil in a manager made by \<^verbatim>\<open>NewCustomizeManager\<close>; the flag says whether it is set.\<close>

record Manager =
  mgId :: string
  mgName :: string
  mgController :: CustomizableController
  mgParentKinds :: GroupKindMap
  mgDynClient :: Clientset
  mgParentInformers :: InformerMap
  mgNsInformer :: "ResourceInformer option"
  mgCustomizeCache :: nat
  mgCustomizeHook :: "hookExecutorImpl option"
  mgCtx :: bool

definition newResponseCache :: "'w env \<Rightarrow> ('w, nat) state" where
  "newResponseCache E = NewCustomizeCache E (20 * 60 * 10 ^ 9) (10 * 60 * 10 ^ 9)"

definition newCustomizeHook :: "'w env \<Rightarrow> string \<Rightarrow> CustomizableController \<Rightarrow> string \<Rightarrow> ('w, err + hookExecutorImpl option) state" where
  "newCustomizeHook E name controller controllerType =
     (case GetCustomizeHook controller of
        None \<Rightarrow> State_Monad.return (Inr None)
      | Some customizeHook \<Rightarrow>
          do { cfg \<leftarrow> ResolveEndpointConfig E (hkWebhook customizeHook) (GetEndpointConfigs controller);
               case cfg of
                 Inl e \<Rightarrow> State_Monad.return (Inl (wrapErr ''can't resolve endpoint config for customize hook'' e))
               | Inr cfg \<Rightarrow>
                   do { hook \<leftarrow> NewHook E (Some customizeHook) name controllerType ''customize'' cfg;
                        State_Monad.return (case hook of Inl e \<Rightarrow> Inl e | Inr h \<Rightarrow> Inr (Some h)) } })"

definition NewCustomizeManager :: "'w k8s \<Rightarrow> 'w env \<Rightarrow> string \<Rightarrow> CustomizableController \<Rightarrow> Clientset \<Rightarrow> InformerMap \<Rightarrow> GroupKindMap \<Rightarrow> string
    \<Rightarrow> ('w, err + Manager) pstate" where
  "NewCustomizeManager K E name controller dynClient parentInformers parentKinds controllerType =
     do { hook \<leftarrow> liftFst (newCustomizeHook E name controller controllerType);
          case hook of
            Inl e \<Rightarrow> State_Monad.return (Inl e)
          | Inr hook \<Rightarrow>
              do { fc \<leftarrow> liftFactory getFactory;
                   ns \<leftarrow> (if IsInitialized (Some fc)
                          then do { r \<leftarrow> liftFactory (Factory_Resource K E ''v1'' ''namespaces'');
                                    State_Monad.return (case r of
                                        Inl e \<Rightarrow> Inl (wrapErr ''can't create namespace informer for customize manager'' e)
                                      | Inr ri \<Rightarrow> Inr (Some ri)) }
                          else State_Monad.return (Inr None));
                   case ns of
                     Inl e \<Rightarrow> State_Monad.return (Inl e)
                   | Inr nsInformer \<Rightarrow>
                       do { cache \<leftarrow> liftFst (newResponseCache E);
                            setRelated (controllerType @ ''/'' @ name) [];
                            State_Monad.return (Inr \<lparr>mgId = controllerType @ ''/'' @ name, mgName = name, mgController = controller, mgParentKinds = parentKinds,
                              mgDynClient = dynClient, mgParentInformers = parentInformers, mgNsInformer = nsInformer,
                              mgCustomizeCache = cache, mgCustomizeHook = hook, mgCtx = True\<rparr>) } } }"

definition Manager_IsEnabled :: "Manager \<Rightarrow> bool" where
  "Manager_IsEnabled rm \<longleftrightarrow> (case mgCustomizeHook rm of None \<Rightarrow> False | Some h \<Rightarrow> Hook_IsEnabled h)"

definition Manager_Start :: "Manager \<Rightarrow> Manager" where
  "Manager_Start rm = rm\<lparr>mgCtx := True\<rparr>"

definition Manager_Stop :: "'w env \<Rightarrow> Manager \<Rightarrow> ('w, err option) pstate" where
  "Manager_Stop E rm =
     do { related \<leftarrow> getRelated (mgId rm);
          r \<leftarrow> closeInformers E unsubscribeHandlers (map snd related);
          case r of
            Some e \<Rightarrow> State_Monad.return (Some e)
          | None \<Rightarrow>
              (case mgNsInformer rm of
                 None \<Rightarrow> State_Monad.return None
               | Some ri \<Rightarrow> liftFactory (ResourceInformer_Close E ri)) }"

section \<open>The customize hook\<close>

definition customizeKey :: "'w k8s \<Rightarrow> unstructured \<Rightarrow> string \<times> int" where
  "customizeKey K parent = (GetUID K parent, GetGeneration K parent)"

definition getCachedCustomizeHookResponse :: "'w k8s \<Rightarrow> 'w env \<Rightarrow> Manager \<Rightarrow> unstructured \<Rightarrow> ('w, CustomizeHookResponse option) state" where
  "getCachedCustomizeHookResponse K E rm parent = CustomizeCacheGet E (mgCustomizeCache rm) (customizeKey K parent)"

text \<open>The requests of both versions have the same fields.\<close>

definition customizeRequest :: "'w env \<Rightarrow> CustomizableController \<Rightarrow> unstructured \<Rightarrow> json" where
  "customizeRequest E controller parent =
     JObj [(''controller'', encodeController E controller), (''parent'', JObj parent)]"

definition getCustomizeHookResponse :: "'w k8s \<Rightarrow> 'w env \<Rightarrow> Manager \<Rightarrow> unstructured \<Rightarrow> ('w, err + CustomizeHookResponse option) state" where
  "getCustomizeHookResponse K E rm parent =
     (if \<not> Manager_IsEnabled rm then State_Monad.return (Inr None)
      else
        do { cached \<leftarrow> getCachedCustomizeHookResponse K E rm parent;
             case cached of
               Some r \<Rightarrow> State_Monad.return (Inr (Some r))
             | None \<Rightarrow>
                 (case mgCustomizeHook rm of
                    None \<Rightarrow> State_Monad.return (Inl GoPanic)
                  | Some hook \<Rightarrow>
                      do { r \<leftarrow> Hook_Call K E hook (DecodeCustomize E) (customizeRequest E (mgController rm) parent) parent;
                           case r of
                             Inl e \<Rightarrow> State_Monad.return (Inl e)
                           | Inr rules \<Rightarrow>
                               (let v1Response = \<lparr>cuVersion = hookExecutor_GetVersion hook, cuRelatedResourceRules = rules\<rparr> in
                                do { CustomizeCacheSet E (mgCustomizeCache rm) (customizeKey K parent) v1Response;
                                     State_Monad.return (Inr (Some v1Response)) }) }) })"

section \<open>Selection\<close>

datatype relatedObjectsSelectionType = selectByLabels | selectByNamespaceAndNames | selectByNamespaceAndLabels | selectByNamespaceSelector

definition determineSelectionType :: "RelatedResourceRule \<Rightarrow> err + relatedObjectsSelectionType" where
  "determineSelectionType relatedRule =
     (let hasLabelSelector = rlLabelSelector relatedRule \<noteq> None;
          hasNamespaceSelector = rlNamespaceSelector relatedRule \<noteq> None;
          hasNamespace = rlNamespace relatedRule \<noteq> '''';
          hasNames = rlNames relatedRule \<noteq> []
      in if hasNames \<and> (hasLabelSelector \<or> hasNamespaceSelector) then
           Inl (Errorf ''related rule cannot have both names and labelSelector/namespaceSelector specified'' None)
         else if hasNamespace \<and> hasNamespaceSelector then
           Inl (Errorf ''related rule cannot have both namespace and namespaceSelector specified'' None)
         else if hasNamespaceSelector then Inr selectByNamespaceSelector
         else if hasLabelSelector \<and> hasNamespace then Inr selectByNamespaceAndLabels
         else if hasNamespace \<or> hasNames then Inr selectByNamespaceAndNames
         else Inr selectByLabels)"

fun stringInArray :: "string \<Rightarrow> string list \<Rightarrow> bool" where
  "stringInArray toMatch [] = False"
| "stringInArray toMatch (element # array) = (if toMatch = element then True else stringInArray toMatch array)"

definition toSelector :: "'w k8s \<Rightarrow> LabelSelector option \<Rightarrow> err + selector" where
  "toSelector K labelSelector =
     (case labelSelector of None \<Rightarrow> Inr (Everything K) | Some s \<Rightarrow> LabelSelectorAsSelector K s)"

definition wrongNamespace :: "'w k8s \<Rightarrow> unstructured \<Rightarrow> RelatedResourceRule \<Rightarrow> err" where
  "wrongNamespace K parent relatedRule =
     Errorf (GetKind K parent @ '': Namespace of parent '' @ GetName K parent @ '' does not match with namespace '' @
       rlNamespace relatedRule @ '' of related rule for '' @ rrAPIVersion relatedRule @ ''/'' @ rrResource relatedRule) None"

text \<open>The lookup of the namespace of a related object; a lister never returns a nil object without an error.\<close>

definition matchesNamespaceSelector :: "'w k8s \<Rightarrow> 'w env \<Rightarrow> Manager \<Rightarrow> unstructured \<Rightarrow> RelatedResourceRule \<Rightarrow> ('w, err + bool) state" where
  "matchesNamespaceSelector K E rm related relatedRule =
     (case mgNsInformer rm of
        None \<Rightarrow> State_Monad.return (Inl (Errorf ''namespace informer is not initialized, cannot use namespaceSelector'' None))
      | Some ns \<Rightarrow>
          do { synced \<leftarrow> InformerHasSynced E (sriInformer (riShared ns));
               if \<not> synced then State_Monad.return (Inl ErrRelatedInformerNotSynced)
               else
                 do { r \<leftarrow> ListerGet E (sriInformer (riShared ns)) '''' (GetNamespace K related);
                      State_Monad.return (case r of
                          Inl e \<Rightarrow> if IsNotFound K e then Inr False else Inl e
                        | Inr nsObj \<Rightarrow>
                            (case toSelector K (rlNamespaceSelector relatedRule) of
                               Inl e \<Rightarrow> Inl e
                             | Inr nsSelector \<Rightarrow> Inr (Matches nsSelector (GetLabels K nsObj)))) } })"

definition matchesRelatedRule :: "'w k8s \<Rightarrow> 'w env \<Rightarrow> Manager \<Rightarrow> HookVersion \<Rightarrow> bool \<Rightarrow> unstructured \<Rightarrow> unstructured \<Rightarrow> RelatedResourceRule
    \<Rightarrow> string \<Rightarrow> bool \<Rightarrow> ('w, err + bool) state" where
  "matchesRelatedRule K E rm hookVersion parentIsNamespaced parent related relatedRule relatedRuleKind relatedIsNamespaced =
     (if GetAPIVersion K related \<noteq> rrAPIVersion relatedRule \<or> GetKind K related \<noteq> relatedRuleKind then State_Monad.return (Inr False)
      else case determineSelectionType relatedRule of
        Inl e \<Rightarrow> State_Monad.return (Inl e)
      | Inr selectByLabels \<Rightarrow>
          State_Monad.return (case toSelector K (rlLabelSelector relatedRule) of
              Inl e \<Rightarrow> Inl e
            | Inr selector \<Rightarrow>
                if \<not> Matches selector (GetLabels K related) then Inr False
                else if hookVersion = HookVersionV1 \<and> parentIsNamespaced \<and> relatedIsNamespaced \<and> GetNamespace K parent \<noteq> GetNamespace K related
                then Inr False
                else Inr True)
      | Inr selectByNamespaceAndLabels \<Rightarrow>
          State_Monad.return
            (if hookVersion = HookVersionV1 \<and> parentIsNamespaced \<and> rlNamespace relatedRule \<noteq> '''' \<and> GetNamespace K parent \<noteq> rlNamespace relatedRule
             then Inl (wrongNamespace K parent relatedRule)
             else if hookVersion = HookVersionV1 \<and> parentIsNamespaced \<and> relatedIsNamespaced \<and> GetNamespace K parent \<noteq> GetNamespace K related
             then Inr False
             else case toSelector K (rlLabelSelector relatedRule) of
               Inl e \<Rightarrow> Inl e
             | Inr selector \<Rightarrow>
                 if \<not> Matches selector (GetLabels K related) then Inr False
                 else if relatedIsNamespaced \<and> GetNamespace K related \<noteq> rlNamespace relatedRule then Inr False
                 else Inr True)
      | Inr selectByNamespaceSelector \<Rightarrow>
          (if hookVersion = HookVersionV1 \<and> parentIsNamespaced
           then State_Monad.return (Inl (Errorf ''namespaceSelector cannot be used by namespaced parent in v1 hook'' None))
           else if \<not> relatedIsNamespaced
           then State_Monad.return (Inl (Errorf ''namespaceSelector is only supported for namespaced related resources'' None))
           else case toSelector K (rlLabelSelector relatedRule) of
             Inl e \<Rightarrow> State_Monad.return (Inl e)
           | Inr selector \<Rightarrow>
               if \<not> Matches selector (GetLabels K related) then State_Monad.return (Inr False)
               else matchesNamespaceSelector K E rm related relatedRule)
      | Inr selectByNamespaceAndNames \<Rightarrow>
          State_Monad.return
            (if hookVersion = HookVersionV1 \<and> parentIsNamespaced \<and> rlNamespace relatedRule \<noteq> '''' \<and> GetNamespace K parent \<noteq> rlNamespace relatedRule
             then Inl (wrongNamespace K parent relatedRule)
             else if hookVersion = HookVersionV1 \<and> parentIsNamespaced \<and> relatedIsNamespaced \<and> GetNamespace K parent \<noteq> GetNamespace K related
             then Inr False
             else if \<not> (hookVersion = HookVersionV1 \<and> parentIsNamespaced) \<and> relatedIsNamespaced \<and> rlNamespace relatedRule \<noteq> '''' \<and>
               GetNamespace K related \<noteq> rlNamespace relatedRule
             then Inr False
             else if rlNames relatedRule \<noteq> [] then Inr (stringInArray (GetName K related) (rlNames relatedRule))
             else Inr True))"

section \<open>Events of related objects\<close>

text \<open>Whether a rule of a parent matches one of the objects: the two inner loops, left at the first match.  An error is
  reported and the next object tried.\<close>

fun anyRelated :: "(RelatedResourceRule \<Rightarrow> unstructured \<Rightarrow> ('w, err + bool) state) \<Rightarrow> (RelatedResourceRule \<times> unstructured) list \<Rightarrow> ('w, bool) state" where
  "anyRelated f [] = State_Monad.return False"
| "anyRelated f ((rule, related) # ps) =
     do { r \<leftarrow> f rule related;
          if r = Inr True then State_Monad.return True else anyRelated f ps }"

definition parentMatches :: "'w k8s \<Rightarrow> 'w env \<Rightarrow> Manager \<Rightarrow> unstructured list \<Rightarrow> unstructured \<Rightarrow> ('w, bool) state" where
  "parentMatches K E rm relatedSlice parent =
     do { r \<leftarrow> getCustomizeHookResponse K E rm parent;
          case r of
            Inl _ \<Rightarrow> State_Monad.return False
          | Inr None \<Rightarrow> State_Monad.return False
          | Inr (Some response) \<Rightarrow>
              anyRelated (\<lambda>relatedRule related.
                  let group = (case ParseGroupVersion K (GetAPIVersion K parent) of Inl _ \<Rightarrow> '''' | Inr (g, _) \<Rightarrow> g) in
                  case SyncMap_Get (mgParentKinds rm) (group, GetKind K parent) of
                    None \<Rightarrow> State_Monad.return (Inr False)
                  | Some parentResource \<Rightarrow>
                      (case Clientset_Resource K (mgDynClient rm) (rrAPIVersion relatedRule) (rrResource relatedRule) of
                         Inl _ \<Rightarrow> State_Monad.return (Inr False)
                       | Inr relatedRuleClient \<Rightarrow>
                           matchesRelatedRule K E rm (cuVersion response) (arNamespaced parentResource) parent related relatedRule
                             (arKind (rcAPIResource relatedRuleClient)) (arNamespaced (rcAPIResource relatedRuleClient))))
                (List.product (cuRelatedResourceRules response) relatedSlice) }"

fun filterM :: "('a \<Rightarrow> ('w, bool) state) \<Rightarrow> 'a list \<Rightarrow> ('w, 'a list) state" where
  "filterM f [] = State_Monad.return []"
| "filterM f (x # xs) = do { b \<leftarrow> f x; ys \<leftarrow> filterM f xs; State_Monad.return (if b then x # ys else ys) }"

fun findRelatedIn :: "'w k8s \<Rightarrow> 'w env \<Rightarrow> Manager \<Rightarrow> unstructured list \<Rightarrow> InformerMap \<Rightarrow> ('w, unstructured list) state" where
  "findRelatedIn K E rm relatedSlice [] = State_Monad.return []"
| "findRelatedIn K E rm relatedSlice ((_, parentInformer) # m) =
     do { r \<leftarrow> ListerList E (sriInformer (riShared parentInformer)) '''' (Everything K);
          ps \<leftarrow> (case r of
                   Inl _ \<Rightarrow> State_Monad.return []
                 | Inr parents \<Rightarrow> filterM (parentMatches K E rm relatedSlice) parents);
          qs \<leftarrow> findRelatedIn K E rm relatedSlice m;
          State_Monad.return (ps @ qs) }"

definition findRelatedParents :: "'w k8s \<Rightarrow> 'w env \<Rightarrow> Manager \<Rightarrow> unstructured list \<Rightarrow> ('w, unstructured list) state" where
  "findRelatedParents K E rm relatedSlice = findRelatedIn K E rm relatedSlice (mgParentInformers rm)"

definition notifyRelatedParents :: "'w k8s \<Rightarrow> 'w env \<Rightarrow> (eventObj \<Rightarrow> ('w, unit) state) \<Rightarrow> Manager \<Rightarrow> unstructured list \<Rightarrow> ('w, unit) state" where
  "notifyRelatedParents K E enqueueParent rm related =
     do { parents \<leftarrow> findRelatedParents K E rm related;
          forAll (\<lambda>parent. enqueueParent (EvObject parent)) parents }"

text \<open>\<^verbatim>\<open>utilruntime.HandleError\<close> only reports.\<close>

fun onRelatedDelete :: "'w k8s \<Rightarrow> 'w env \<Rightarrow> (eventObj \<Rightarrow> ('w, unit) state) \<Rightarrow> Manager \<Rightarrow> eventObj \<Rightarrow> ('w, unit) state" where
  "onRelatedDelete K E enqueueParent rm (EvObject related) = notifyRelatedParents K E enqueueParent rm [related]"
| "onRelatedDelete K E enqueueParent rm (EvTombstone _ (Some related)) = notifyRelatedParents K E enqueueParent rm [related]"
| "onRelatedDelete K E enqueueParent rm (EvTombstone _ None) = State_Monad.return ()"
| "onRelatedDelete K E enqueueParent rm EvOther = State_Monad.return ()"

definition onRelatedAdd :: "'w k8s \<Rightarrow> 'w env \<Rightarrow> (eventObj \<Rightarrow> ('w, unit) state) \<Rightarrow> Manager \<Rightarrow> unstructured \<Rightarrow> ('w, unit) state" where
  "onRelatedAdd K E enqueueParent rm related =
     (if GetDeletionTimestamp K related \<noteq> None then onRelatedDelete K E enqueueParent rm (EvObject related)
      else notifyRelatedParents K E enqueueParent rm [related])"

definition onRelatedUpdate :: "'w k8s \<Rightarrow> 'w env \<Rightarrow> (eventObj \<Rightarrow> ('w, unit) state) \<Rightarrow> Manager \<Rightarrow> unstructured \<Rightarrow> unstructured \<Rightarrow> ('w, unit) state" where
  "onRelatedUpdate K E enqueueParent rm oldRelated curRelated =
     (if GetResourceVersion K oldRelated = GetResourceVersion K curRelated then State_Monad.return ()
      else notifyRelatedParents K E enqueueParent rm [oldRelated, curRelated])"

fun relatedHandler :: "'w k8s \<Rightarrow> 'w env \<Rightarrow> (eventObj \<Rightarrow> ('w, unit) state) \<Rightarrow> Manager \<Rightarrow> informerEvent \<Rightarrow> ('w, unit) state" where
  "relatedHandler K E enqueueParent rm (OnAdd obj _) = onRelatedAdd K E enqueueParent rm obj"
| "relatedHandler K E enqueueParent rm (OnUpdate old cur) = onRelatedUpdate K E enqueueParent rm old cur"
| "relatedHandler K E enqueueParent rm (OnDelete obj) = onRelatedDelete K E enqueueParent rm obj"

section \<open>Informers of related resources\<close>

text \<open>The map is read again before storing, as \<^verbatim>\<open>GetOrCreate\<close> does.  Adding event handlers never fails.\<close>

definition getOrCreateRelatedInformer :: "'w k8s \<Rightarrow> 'w env \<Rightarrow> (eventObj \<Rightarrow> ('w, unit) state) \<Rightarrow> Manager \<Rightarrow> string \<Rightarrow> string \<Rightarrow> gvr
    \<Rightarrow> ('w, err + ResourceInformer) pstate" where
  "getOrCreateRelatedInformer K E enqueueParent rm apiVersion resource g =
     do { m \<leftarrow> getRelated (mgId rm);
          case SyncMap_Get m g of
            Some informer \<Rightarrow> State_Monad.return (Inr informer)
          | None \<Rightarrow>
              do { r \<leftarrow> liftFactory (Factory_Resource K E apiVersion resource);
                   case r of
                     Inl e \<Rightarrow> State_Monad.return (Inl (wrapErr ''can't create informer for related resource'' e))
                   | Inr informer \<Rightarrow>
                       do { m \<leftarrow> getRelated (mgId rm);
                            case SyncMap_GetOrCreate m g informer of
                              (actual, True, _) \<Rightarrow>
                                do { c \<leftarrow> liftFactory (ResourceInformer_Close E informer);
                                     State_Monad.return (case c of Some e \<Rightarrow> Inl e | None \<Rightarrow> Inr actual) }
                            | (actual, False, m') \<Rightarrow>
                                do { setRelated (mgId rm) m';
                                     subscribeHandler K E (relatedHandler K E enqueueParent rm) actual (mgId rm, RelatedHandler) None;
                                     State_Monad.return (Inr actual) } } } }"

definition getRelatedClient :: "'w k8s \<Rightarrow> 'w env \<Rightarrow> (eventObj \<Rightarrow> ('w, unit) state) \<Rightarrow> Manager \<Rightarrow> string \<Rightarrow> string
    \<Rightarrow> ('w, err + ResourceClient \<times> ResourceInformer) pstate" where
  "getRelatedClient K E enqueueParent rm apiVersion resource =
     (if \<not> mgCtx rm then State_Monad.return (Inl (Errorf ''customize Manager not started'' None))
      else case Clientset_Resource K (mgDynClient rm) apiVersion resource of
        Inl e \<Rightarrow> State_Monad.return (Inl e)
      | Inr client \<Rightarrow>
          (let (g, v) = (case ParseGroupVersion K apiVersion of Inl _ \<Rightarrow> ('''', '''') | Inr gv \<Rightarrow> gv) in
           do { r \<leftarrow> getOrCreateRelatedInformer K E enqueueParent rm apiVersion resource \<lparr>gvrGroup = g, gvrVersion = v, gvrResource = resource\<rparr>;
                case r of
                  Inl e \<Rightarrow> State_Monad.return (Inl e)
                | Inr informer \<Rightarrow>
                    do { synced \<leftarrow> liftFst (InformerHasSynced E (sriInformer (riShared informer)));
                         State_Monad.return (if synced then Inr (client, informer) else Inl ErrRelatedInformerNotSynced) } }))"

section \<open>Related objects of a parent\<close>

definition listObjects :: "'w env \<Rightarrow> selector \<Rightarrow> string \<Rightarrow> ResourceInformer \<Rightarrow> bool \<Rightarrow> ('w, err + unstructured list) state" where
  "listObjects E selector namespace informer namespaced =
     (if namespaced \<and> namespace \<noteq> '''' then ListerList E (sriInformer (riShared informer)) namespace selector
      else ListerList E (sriInformer (riShared informer)) '''' selector)"

text \<open>Every case ends by adding what it listed under the group of the related kind.\<close>

definition insertRelated :: "'w k8s \<Rightarrow> unstructured \<Rightarrow> ResourceClient \<Rightarrow> objectMap \<Rightarrow> unstructured list \<Rightarrow> err + objectMap" where
  "insertRelated K parent relatedClient childMap objs =
     (case APIResource_GroupVersionKind K (rcAPIResource relatedClient) of
        Inl e \<Rightarrow> Inl e
      | Inr g \<Rightarrow> Inr (UniformObjectMap_InsertAll K (metaU K parent) (UniformObjectMap_InitGroup childMap g) objs))"

fun listNamespaces :: "'w k8s \<Rightarrow> 'w env \<Rightarrow> ResourceClient \<Rightarrow> ResourceInformer \<Rightarrow> selector \<Rightarrow> unstructured list \<Rightarrow> ('w, err + unstructured list) state" where
  "listNamespaces K E relatedClient informer labelSelector [] = State_Monad.return (Inr [])"
| "listNamespaces K E relatedClient informer labelSelector (ns # nss) =
     do { r \<leftarrow> listObjects E labelSelector (GetName K ns) informer (arNamespaced (rcAPIResource relatedClient));
          case r of
            Inl e \<Rightarrow> State_Monad.return (Inl (wrapErr (''can't list '' @ arKind (rcAPIResource relatedClient) @ '' related objects in namespace '' @ GetName K ns) e))
          | Inr all \<Rightarrow>
              do { rest \<leftarrow> listNamespaces K E relatedClient informer labelSelector nss;
                   State_Monad.return (case rest of Inl e \<Rightarrow> Inl e | Inr objs \<Rightarrow> Inr (all @ objs)) } }"

definition relatedByNamespaceSelector :: "'w k8s \<Rightarrow> 'w env \<Rightarrow> Manager \<Rightarrow> RelatedResourceRule \<Rightarrow> ResourceClient \<Rightarrow> ResourceInformer
    \<Rightarrow> ('w, err + unstructured list) state" where
  "relatedByNamespaceSelector K E rm relatedRule relatedClient informer =
     (if \<not> arNamespaced (rcAPIResource relatedClient)
      then State_Monad.return (Inl (Errorf ''namespaceSelector is only supported for namespaced related resources'' None))
      else case mgNsInformer rm of
        None \<Rightarrow> State_Monad.return (Inl (Errorf ''namespace informer is not initialized, cannot use namespaceSelector'' None))
      | Some ns \<Rightarrow>
          do { synced \<leftarrow> InformerHasSynced E (sriInformer (riShared ns));
               if \<not> synced then State_Monad.return (Inl ErrRelatedInformerNotSynced)
               else case toSelector K (rlNamespaceSelector relatedRule) of
                 Inl e \<Rightarrow> State_Monad.return (Inl e)
               | Inr nsSelector \<Rightarrow>
                   do { r \<leftarrow> ListerList E (sriInformer (riShared ns)) '''' nsSelector;
                        case r of
                          Inl e \<Rightarrow> State_Monad.return (Inl (wrapErr ''can't list namespaces for namespaceSelector'' e))
                        | Inr matchingNamespaces \<Rightarrow>
                            (case toSelector K (rlLabelSelector relatedRule) of
                               Inl e \<Rightarrow> State_Monad.return (Inl e)
                             | Inr labelSelector \<Rightarrow> listNamespaces K E relatedClient informer labelSelector matchingNamespaces) } })"

text \<open>What a rule selects for a parent.\<close>

definition relatedByRule :: "'w k8s \<Rightarrow> 'w env \<Rightarrow> Manager \<Rightarrow> HookVersion \<Rightarrow> bool \<Rightarrow> unstructured \<Rightarrow> RelatedResourceRule \<Rightarrow> ResourceClient
    \<Rightarrow> ResourceInformer \<Rightarrow> ('w, err + unstructured list) state" where
  "relatedByRule K E rm version parentNamespaced parent relatedRule relatedClient informer =
     (let parentNamespace = GetNamespace K parent;
          confined = (version = HookVersionV1 \<and> parentNamespaced \<and> arNamespaced (rcAPIResource relatedClient));
          listErr = (\<lambda>r. case r of
             Inl e \<Rightarrow> Inl (wrapErr (''can't list '' @ arKind (rcAPIResource relatedClient) @ '' related objects'') e) | Inr all \<Rightarrow> Inr all);
          differs = Errorf (''requested related object namespace '' @ rlNamespace relatedRule @ '' differs from parent object namespace '' @ parentNamespace) None
      in case determineSelectionType relatedRule of
        Inl e \<Rightarrow> State_Monad.return (Inl e)
      | Inr selectByLabels \<Rightarrow>
          (case toSelector K (rlLabelSelector relatedRule) of
             Inl e \<Rightarrow> State_Monad.return (Inl e)
           | Inr selector \<Rightarrow>
               do { r \<leftarrow> ListerList E (sriInformer (riShared informer)) (if confined then parentNamespace else '''') selector;
                    State_Monad.return (listErr r) })
      | Inr selectByNamespaceAndLabels \<Rightarrow>
          (if confined \<and> rlNamespace relatedRule \<noteq> '''' \<and> parentNamespace \<noteq> rlNamespace relatedRule then State_Monad.return (Inl differs)
           else case toSelector K (rlLabelSelector relatedRule) of
             Inl e \<Rightarrow> State_Monad.return (Inl e)
           | Inr selector \<Rightarrow>
               do { r \<leftarrow> listObjects E selector (rlNamespace relatedRule) informer (arNamespaced (rcAPIResource relatedClient));
                    State_Monad.return (listErr r) })
      | Inr selectByNamespaceSelector \<Rightarrow>
          (if confined then State_Monad.return (Inl (Errorf ''namespaceSelector is not supported for namespaced parent in v1 hook version'' None))
           else relatedByNamespaceSelector K E rm relatedRule relatedClient informer)
      | Inr selectByNamespaceAndNames \<Rightarrow>
          (if confined \<and> rlNamespace relatedRule \<noteq> '''' \<and> parentNamespace \<noteq> rlNamespace relatedRule then State_Monad.return (Inl differs)
           else
             do { r \<leftarrow> listObjects E (Everything K) (rlNamespace relatedRule) informer (arNamespaced (rcAPIResource relatedClient));
                  State_Monad.return (case listErr r of
                      Inl e \<Rightarrow> Inl e
                    | Inr all \<Rightarrow> Inr (if rlNames relatedRule = [] then all
                                       else filter (\<lambda>obj. stringInArray (GetName K obj) (rlNames relatedRule)) all)) }))"

fun relatedByRules :: "'w k8s \<Rightarrow> 'w env \<Rightarrow> (eventObj \<Rightarrow> ('w, unit) state) \<Rightarrow> Manager \<Rightarrow> HookVersion \<Rightarrow> bool \<Rightarrow> unstructured
    \<Rightarrow> objectMap \<Rightarrow> RelatedResourceRule list \<Rightarrow> ('w, err + objectMap) pstate" where
  "relatedByRules K E enqueueParent rm version parentNamespaced parent childMap [] = State_Monad.return (Inr childMap)"
| "relatedByRules K E enqueueParent rm version parentNamespaced parent childMap (relatedRule # rules) =
     do { c \<leftarrow> getRelatedClient K E enqueueParent rm (rrAPIVersion relatedRule) (rrResource relatedRule);
          case c of
            Inl e \<Rightarrow> State_Monad.return (Inl e)
          | Inr (relatedClient, informer) \<Rightarrow>
              do { r \<leftarrow> liftFst (relatedByRule K E rm version parentNamespaced parent relatedRule relatedClient informer);
                   case r of
                     Inl e \<Rightarrow> State_Monad.return (Inl e)
                   | Inr objs \<Rightarrow>
                       (case insertRelated K parent relatedClient childMap objs of
                          Inl e \<Rightarrow> State_Monad.return (Inl e)
                        | Inr childMap' \<Rightarrow> relatedByRules K E enqueueParent rm version parentNamespaced parent childMap' rules) } }"

definition GetRelatedObjects :: "'w k8s \<Rightarrow> 'w env \<Rightarrow> (eventObj \<Rightarrow> ('w, unit) state) \<Rightarrow> Manager \<Rightarrow> unstructured \<Rightarrow> ('w, err + objectMap) pstate" where
  "GetRelatedObjects K E enqueueParent rm parent =
     (if \<not> Manager_IsEnabled rm then State_Monad.return (Inr [])
      else
        (let group = (case ParseGroupVersion K (GetAPIVersion K parent) of Inl _ \<Rightarrow> '''' | Inr (g, _) \<Rightarrow> g) in
         case SyncMap_Get (mgParentKinds rm) (group, GetKind K parent) of
           None \<Rightarrow> State_Monad.return (Inl (Errorf (''unknown parent '' @ GetAPIVersion K parent @ ''/'' @ GetKind K parent) None))
         | Some parentResource \<Rightarrow>
             do { r \<leftarrow> liftFst (getCustomizeHookResponse K E rm parent);
                  case r of
                    Inl e \<Rightarrow> State_Monad.return (Inl e)
                  | Inr None \<Rightarrow> State_Monad.return (Inl GoPanic)
                  | Inr (Some response) \<Rightarrow>
                      relatedByRules K E enqueueParent rm (cuVersion response) (arNamespaced parentResource) parent []
                        (cuRelatedResourceRules response) }))"

section \<open>What the caches show\<close>

text \<open>An informer's lister filters its cache by namespace and labels; the lister of namespaces finds one by name.\<close>

definition lister_shows :: "'w k8s \<Rightarrow> 'w env \<Rightarrow> nat \<Rightarrow> 'w \<Rightarrow> unstructured list \<Rightarrow> bool" where
  "lister_shows K E i w cached \<longleftrightarrow>
     (\<forall>ns s. run_state (ListerList E i ns s) w =
        (Inr (filter (\<lambda>obj. Matches s (GetLabels K obj) \<and> (ns = '''' \<or> GetNamespace K obj = ns)) cached), w))"

definition namespaces_shown :: "'w k8s \<Rightarrow> 'w env \<Rightarrow> nat \<Rightarrow> 'w \<Rightarrow> unstructured list \<Rightarrow> bool" where
  "namespaces_shown K E i w nss \<longleftrightarrow>
     lister_shows K E i w nss \<and> distinct (map (GetName K) nss) \<and> '''' \<notin> GetName K ` set nss \<and>
     run_state (InformerHasSynced E i) w = (True, w) \<and>
     (\<forall>name. \<exists>e. IsNotFound K e \<and> run_state (ListerGet E i '''' name) w =
        (case find (\<lambda>ns. GetName K ns = name) nss of None \<Rightarrow> Inl e | Some ns \<Rightarrow> Inr ns, w))"

definition everything_law :: "'w k8s \<Rightarrow> bool" where
  "everything_law K \<longleftrightarrow> (\<forall>l. Matches (Everything K) l)"

lemma stringInArray_iff: "stringInArray s xs \<longleftrightarrow> s \<in> set xs"
  by (induction xs) auto

lemma listObjects_run:
  "lister_shows K E (sriInformer (riShared informer)) w cached \<Longrightarrow>
   run_state (listObjects E s namespace informer namespaced) w =
     (Inr (filter (\<lambda>obj. Matches s (GetLabels K obj) \<and> (namespaced \<longrightarrow> namespace \<noteq> '''' \<longrightarrow> GetNamespace K obj = namespace)) cached), w)"
  by (auto simp: listObjects_def lister_shows_def intro!: filter_cong)

lemma listNamespaces_run:
  assumes "lister_shows K E (sriInformer (riShared informer)) w cached" "'''' \<notin> GetName K ` set nss" "arNamespaced (rcAPIResource client)"
  shows "run_state (listNamespaces K E client informer s nss) w =
     (Inr (concat (map (\<lambda>ns. filter (\<lambda>obj. Matches s (GetLabels K obj) \<and> GetNamespace K obj = GetName K ns) cached) nss)), w)"
  using assms by (induction nss) (auto simp: listObjects_run)

lemma find_name:
  assumes "distinct (map f xs)" "x \<in> set xs"
  shows "find (\<lambda>y. f y = f x) xs = Some x"
  using assms by (induction xs) (auto simp: image_iff)

lemma relatedByNamespaceSelector_selector:
  "run_state (relatedByNamespaceSelector K E rm rule client informer) w = (Inr objs, w') \<Longrightarrow> \<exists>s. toSelector K (rlLabelSelector rule) = Inr s"
  by (auto simp: relatedByNamespaceSelector_def case_prod_beta split: option.splits sum.splits if_splits)

text \<open>Selection through the namespaces that match agrees with looking up the namespace of an object.\<close>

lemma relatedByNamespaceSelector_agrees:
  assumes "run_state (relatedByNamespaceSelector K E rm rule client informer) w = (Inr objs, w')"
    and "lister_shows K E (sriInformer (riShared informer)) w cached"
    and "\<And>ns. mgNsInformer rm = Some ns \<Longrightarrow> namespaces_shown K E (sriInformer (riShared ns)) w nss"
    and "related \<in> set cached" "toSelector K (rlLabelSelector rule) = Inr s"
  shows "arNamespaced (rcAPIResource client) \<and>
     (related \<in> set objs \<longrightarrow> Matches s (GetLabels K related)) \<and>
     (Matches s (GetLabels K related) \<longrightarrow> run_state (matchesNamespaceSelector K E rm related rule) w = (Inr (related \<in> set objs), w))"
proof -
  obtain ns nsSelector where ns: "mgNsInformer rm = Some ns" and nsel: "toSelector K (rlNamespaceSelector rule) = Inr nsSelector"
    and namespaced: "arNamespaced (rcAPIResource client)"
    using assms(1,3) unfolding relatedByNamespaceSelector_def namespaces_shown_def by (auto split: option.splits sum.splits if_splits)
  have shown: "namespaces_shown K E (sriInformer (riShared ns)) w nss" using assms(3) ns by blast
  let ?nss = "filter (\<lambda>obj. Matches nsSelector (GetLabels K obj)) nss"
  have "'''' \<notin> GetName K ` set ?nss" using shown by (auto simp: namespaces_shown_def)
  then have objs: "objs = concat (map (\<lambda>n. filter (\<lambda>obj. Matches s (GetLabels K obj) \<and> GetNamespace K obj = GetName K n) cached) ?nss)"
    using assms(1,5) ns nsel namespaced shown
    by (simp add: relatedByNamespaceSelector_def namespaces_shown_def lister_shows_def listNamespaces_run [OF assms(2) _ namespaced])
  then have mem: "related \<in> set objs \<longleftrightarrow> Matches s (GetLabels K related) \<and> (\<exists>n \<in> set nss. Matches nsSelector (GetLabels K n) \<and> GetNamespace K related = GetName K n)"
    using assms(4) by auto
  have "run_state (matchesNamespaceSelector K E rm related rule) w = (Inr (related \<in> set objs), w)" if "Matches s (GetLabels K related)"
  proof (cases "\<exists>n \<in> set nss. GetName K n = GetNamespace K related")
    case True
    then obtain n where n: "n \<in> set nss" "GetName K n = GetNamespace K related" by blast
    have d: "distinct (map (GetName K) nss)" using shown by (simp add: namespaces_shown_def)
    have "related \<in> set objs \<longleftrightarrow> Matches nsSelector (GetLabels K n)"
      using mem that n d by (metis find_name option.inject)
    moreover have "find (\<lambda>m. GetName K m = GetNamespace K related) nss = Some n"
      using find_name [OF d n(1)] n(2) by simp
    then have "run_state (ListerGet E (sriInformer (riShared ns)) '''' (GetNamespace K related)) w = (Inr n, w)"
      using shown unfolding namespaces_shown_def by (metis option.simps(5))
    ultimately show ?thesis using ns nsel shown by (simp add: matchesNamespaceSelector_def namespaces_shown_def)
  next
    case False
    then have "find (\<lambda>m. GetName K m = GetNamespace K related) nss = None" by (auto simp: find_None_iff)
    then obtain e where "IsNotFound K e" "run_state (ListerGet E (sriInformer (riShared ns)) '''' (GetNamespace K related)) w = (Inl e, w)"
      using shown unfolding namespaces_shown_def by (metis option.simps(4))
    moreover have "related \<notin> set objs" using mem False by auto
    ultimately show ?thesis using ns shown by (simp add: matchesNamespaceSelector_def namespaces_shown_def)
  qed
  with mem namespaced show ?thesis by blast
qed

lemma related_rule_selector:
  assumes "run_state (relatedByRule K E rm version parentNamespaced parent rule client informer) w = (Inr objs, w')"
    and "lister_shows K E (sriInformer (riShared informer)) w cached"
    and "\<And>ns. mgNsInformer rm = Some ns \<Longrightarrow> namespaces_shown K E (sriInformer (riShared ns)) w nss"
    and "version \<noteq> HookVersionV1 \<or> \<not> parentNamespaced \<or>
      arNamespaced (rcAPIResource client) \<and> GetNamespace K parent \<noteq> '''' \<and> (rlNamespace rule \<noteq> '''' \<or> rlNames rule = [])"
    and "related \<in> set cached" "GetAPIVersion K related = rrAPIVersion rule" "GetKind K related = arKind (rcAPIResource client)"
    and "determineSelectionType rule = Inr selectByNamespaceSelector"
  shows "run_state (matchesRelatedRule K E rm version parentNamespaced parent related rule
      (arKind (rcAPIResource client)) (arNamespaced (rcAPIResource client))) w = (Inr (related \<in> set objs), w)"
proof -
  have run: "run_state (relatedByNamespaceSelector K E rm rule client informer) w = (Inr objs, w')"
    and v: "version \<noteq> HookVersionV1 \<or> \<not> parentNamespaced"
    using assms(1,4,8) by (auto simp: relatedByRule_def Let_def split: if_splits)
  obtain s where s: "toSelector K (rlLabelSelector rule) = Inr s"
    using relatedByNamespaceSelector_selector [OF run] by blast
  have agrees: "arNamespaced (rcAPIResource client)" "related \<in> set objs \<Longrightarrow> Matches s (GetLabels K related)"
      "Matches s (GetLabels K related) \<Longrightarrow> run_state (matchesNamespaceSelector K E rm related rule) w = (Inr (related \<in> set objs), w)"
    using relatedByNamespaceSelector_agrees [OF run assms(2,3,5) s] by blast+
  show ?thesis
  proof (cases "Matches s (GetLabels K related)")
    case True
    then show ?thesis using agrees(1,3) assms(6-8) s v by (simp add: matchesRelatedRule_def)
  next
    case False
    then have "related \<notin> set objs" using agrees(2) by blast
    then show ?thesis using agrees(1) False assms(6-8) s v by (simp add: matchesRelatedRule_def)
  qed
qed

lemma related_rule_names:
  assumes "run_state (relatedByRule K E rm version parentNamespaced parent rule client informer) w = (Inr objs, w')"
    and "lister_shows K E (sriInformer (riShared informer)) w cached" "everything_law K"
    and "version \<noteq> HookVersionV1 \<or> \<not> parentNamespaced \<or>
      arNamespaced (rcAPIResource client) \<and> GetNamespace K parent \<noteq> '''' \<and> (rlNamespace rule \<noteq> '''' \<or> rlNames rule = [])"
    and "related \<in> set cached" "GetAPIVersion K related = rrAPIVersion rule" "GetKind K related = arKind (rcAPIResource client)"
    and "determineSelectionType rule = Inr selectByNamespaceAndNames"
  shows "run_state (matchesRelatedRule K E rm version parentNamespaced parent related rule
      (arKind (rcAPIResource client)) (arNamespaced (rcAPIResource client))) w = (Inr (related \<in> set objs), w)"
proof -
  define P where "P obj \<longleftrightarrow> (arNamespaced (rcAPIResource client) \<longrightarrow> rlNamespace rule \<noteq> '''' \<longrightarrow> GetNamespace K obj = rlNamespace rule) \<and>
    (rlNames rule = [] \<or> GetName K obj \<in> set (rlNames rule))" for obj
  have "objs = filter P cached"
    using assms(1,3,8)
    by (auto simp: relatedByRule_def Let_def listObjects_run [OF assms(2)] stringInArray_iff everything_law_def P_def split: if_splits intro: filter_cong)
  moreover have "\<not> (version = HookVersionV1 \<and> parentNamespaced \<and> arNamespaced (rcAPIResource client) \<and> rlNamespace rule \<noteq> '''' \<and> GetNamespace K parent \<noteq> rlNamespace rule)"
    using assms(1,8) by (auto simp: relatedByRule_def Let_def split: if_splits)
  moreover have "rlNamespace rule \<noteq> '''' \<or> rlNames rule \<noteq> []"
    using assms(8) by (auto simp: determineSelectionType_def Let_def split: if_splits)
  ultimately show ?thesis
    using assms(4-8) by (auto simp: matchesRelatedRule_def stringInArray_iff P_def)
qed

section \<open>Properties\<close>

text \<open>C12: The two readings of a rule agree: an object of the related kind is among those \<^verbatim>\<open>GetRelatedObjects\<close> hands to the hook of a parent
  exactly when a change of that object makes \<^verbatim>\<open>matchesRelatedRule\<close> queue that parent.  For a namespaced parent of a hook of version 1
  this needs a namespaced related resource and, with names, a namespace in the rule.\<close>

theorem related_rule_agrees:
  assumes "run_state (relatedByRule K E rm version parentNamespaced parent rule client informer) w = (Inr objs, w')"
    and "lister_shows K E (sriInformer (riShared informer)) w cached" "everything_law K"
    and "\<And>ns. mgNsInformer rm = Some ns \<Longrightarrow> namespaces_shown K E (sriInformer (riShared ns)) w nss"
    and "version \<noteq> HookVersionV1 \<or> \<not> parentNamespaced \<or>
      arNamespaced (rcAPIResource client) \<and> GetNamespace K parent \<noteq> '''' \<and> (rlNamespace rule \<noteq> '''' \<or> rlNames rule = [])"
    and "related \<in> set cached" "GetAPIVersion K related = rrAPIVersion rule" "GetKind K related = arKind (rcAPIResource client)"
  shows "run_state (matchesRelatedRule K E rm version parentNamespaced parent related rule
      (arKind (rcAPIResource client)) (arNamespaced (rcAPIResource client))) w = (Inr (related \<in> set objs), w)"
proof (cases "determineSelectionType rule")
  case (Inl e)
  then show ?thesis using assms(1) by (simp add: relatedByRule_def Let_def)
next
  case (Inr t)
  note L = assms(2) [unfolded lister_shows_def, rule_format]
  show ?thesis
  proof (cases t)
    case selectByLabels
    then show ?thesis
      using assms Inr by (auto simp: relatedByRule_def matchesRelatedRule_def Let_def L split: sum.splits if_splits)
  next
    case selectByNamespaceAndLabels
    then have "rlNamespace rule \<noteq> ''''" using Inr by (auto simp: determineSelectionType_def Let_def split: if_splits)
    then show ?thesis
      using assms(1,3,5-8) Inr selectByNamespaceAndLabels
      by (auto simp: relatedByRule_def matchesRelatedRule_def Let_def listObjects_run [OF assms(2)] split: sum.splits if_splits)
  next
    case selectByNamespaceSelector
    then show ?thesis using related_rule_selector [OF assms(1,2,4-8)] Inr by simp
  next
    case selectByNamespaceAndNames
    then show ?thesis using related_rule_names [OF assms(1-3,5-8)] Inr by simp
  qed
qed

definition relatedEnv :: "world env" where
  "relatedEnv = okEnv\<lparr>ListerList := (\<lambda>i ns s. State (\<lambda>w. (Inr (filter (\<lambda>obj. Matches s (GetLabels refK obj) \<and> (ns = '''' \<or> GetNamespace refK obj = ns))
       (if i = 0 then [podObj ''ns''] else [podObj ''p''])), w))),
     ListerGet := (\<lambda>i ns name. State (\<lambda>w. (if name = ''ns'' then Inr (podObj ''ns'') else Inl (LibErr ''NotFound''), w)))\<rparr>"

definition podInformer :: "nat \<Rightarrow> ResourceInformer" where
  "podInformer i = \<lparr>riShared = \<lparr>sriInformer = i, sriKey = '''', sriDefaultResyncPeriod = 0\<rparr>, riWrapper = 0\<rparr>"

definition relatedManager :: Manager where
  "relatedManager = \<lparr>mgId = ''DecoratorController/m'', mgName = ''m'', mgController = Decorator \<lparr>dcName = ''d'', dcSpec = \<lparr>dcsResources = [], dcsAttachments = [],
       dcsHooks = None, dcsEndpointConfigs = [], dcsResyncPeriodSeconds = None\<rparr>\<rparr>, mgParentKinds = [], mgDynClient = podClientset, mgParentInformers = [],
     mgNsInformer = Some (podInformer 0), mgCustomizeCache = 0, mgCustomizeHook = None, mgCtx = True\<rparr>"

definition podRule :: RelatedResourceRule where
  "podRule = \<lparr>rrAPIVersion = ''v1'', rrResource = ''pods'', rlLabelSelector = None,
     rlNamespaceSelector = Some \<lparr>MatchLabels = [], MatchExpressions = []\<rparr>, rlNamespace = '''', rlNames = []\<rparr>"


theorem related_rule_agrees_witness:
  "run_state (relatedByRule refK relatedEnv relatedManager HookVersionV2 True (podObj ''q'') podRule podClient (podInformer 1)) emptyWorld = (Inr [podObj ''p''], emptyWorld) \<and>
   run_state (matchesRelatedRule refK relatedEnv relatedManager HookVersionV2 True (podObj ''q'') (podObj ''p'') podRule ''Pod'' True) emptyWorld = (Inr True, emptyWorld)"
proof -
  have shown: "lister_shows refK relatedEnv 1 w [podObj ''p'']" "namespaces_shown refK relatedEnv 0 w [podObj ''ns'']" for w
    by (auto simp: lister_shows_def namespaces_shown_def relatedEnv_def okEnv_def refEnv_simps refK_simps refName_def metaOf_def podObj_def)
  have run: "run_state (relatedByRule refK relatedEnv relatedManager HookVersionV2 True (podObj ''q'') podRule podClient (podInformer 1)) emptyWorld = (Inr [podObj ''p''], emptyWorld)"
    by (simp add: relatedByRule_def determineSelectionType_def podRule_def Let_def relatedByNamespaceSelector_def relatedManager_def podInformer_def
        podClient_def toSelector_def refK_simps relatedEnv_def okEnv_def refEnv_simps listObjects_def refSelector_def refName_def metaOf_def podObj_def)
  have "run_state (matchesRelatedRule refK relatedEnv relatedManager HookVersionV2 True (podObj ''q'') (podObj ''p'') podRule
      (arKind (rcAPIResource podClient)) (arNamespaced (rcAPIResource podClient))) emptyWorld = (Inr (podObj ''p'' \<in> set [podObj ''p'']), emptyWorld)"
    by (rule related_rule_agrees [OF run, where cached = "[podObj ''p'']" and nss = "[podObj ''ns'']"])
      (use shown in \<open>simp_all add: podInformer_def relatedManager_def everything_law_def refK_simps podRule_def podClient_def podObj_def\<close>)
  with run show ?thesis by (simp add: podClient_def)
qed

text \<open>With names and no namespace the rule of a namespaced parent is read differently for a hook of version 1: every
  object of that name, in any namespace, is handed to the hook, while only those beside the parent would queue it.\<close>

lemma related_names_any_namespace:
  assumes "rlLabelSelector rule = None" "rlNamespaceSelector rule = None" "rlNamespace rule = ''''" "rlNames rule \<noteq> []"
    and "lister_shows K E (sriInformer (riShared informer)) w cached" "everything_law K"
    and "related \<in> set cached" "GetName K related \<in> set (rlNames rule)" "GetNamespace K related \<noteq> GetNamespace K parent"
    and "GetAPIVersion K related = rrAPIVersion rule" "GetKind K related = arKind (rcAPIResource client)" "arNamespaced (rcAPIResource client)"
  shows "\<exists>objs. run_state (relatedByRule K E rm HookVersionV1 True parent rule client informer) w = (Inr objs, w) \<and> related \<in> set objs"
    and "run_state (matchesRelatedRule K E rm HookVersionV1 True parent related rule (arKind (rcAPIResource client)) True) w = (Inr False, w)"
  using assms by (simp_all add: relatedByRule_def matchesRelatedRule_def determineSelectionType_def Let_def listObjects_run everything_law_def stringInArray_iff)

end
