(* ===== verification/Quiet.thy ===== *)
theory Quiet
  imports Customize
begin

text \<open>
  What the helpers of a sync leave alone: a property of the world that reading caches and the API server, calling
  webhooks, queueing and opening informers keep is kept by hook calls and by the search for related objects.
  The lemmas carry the confinement proofs of both controllers.
\<close>

text \<open>Case distinctions, for goals too large to split.\<close>

lemma preserves_cases:
  "preserves P c1 \<Longrightarrow> preserves P c2 \<Longrightarrow> preserves P (if b then c1 else c2)"
  "(\<And>x. preserves P (f x)) \<Longrightarrow> (\<And>y. preserves P (g y)) \<Longrightarrow> preserves P (case s of Inl x \<Rightarrow> f x | Inr y \<Rightarrow> g y)"
  "preserves P c1 \<Longrightarrow> (\<And>y. preserves P (g y)) \<Longrightarrow> preserves P (case z of None \<Rightarrow> c1 | Some y \<Rightarrow> g y)"
  "preserves P c1 \<Longrightarrow> preserves P c2 \<Longrightarrow> preserves P c3 \<Longrightarrow> preserves P c4 \<Longrightarrow>
   preserves P (case t of selectByLabels \<Rightarrow> c1 | selectByNamespaceAndNames \<Rightarrow> c2 | selectByNamespaceAndLabels \<Rightarrow> c3 | selectByNamespaceSelector \<Rightarrow> c4)"
  by (auto split: sum.split option.split relatedObjectsSelectionType.split)

definition quiet :: "('w \<Rightarrow> bool) \<Rightarrow> 'w k8s \<Rightarrow> 'w env \<Rightarrow> bool" where
  "quiet P K E \<longleftrightarrow>
     preserves P (CtxErr K) \<and> (\<forall>ri n. preserves P (ApiGet K ri n)) \<and>
     (\<forall>r. preserves P (NewSharedIndexInformer E r)) \<and> (\<forall>i. preserves P (InformerAddEventHandler E i)) \<and>
     (\<forall>i. preserves P (InformerRun E i)) \<and> (\<forall>i. preserves P (InformerStop E i)) \<and> (\<forall>i. preserves P (InformerHasSynced E i)) \<and>
     (\<forall>i ns n. preserves P (ListerGet E i ns n)) \<and> (\<forall>i ns s. preserves P (ListerList E i ns s)) \<and>
     (\<forall>i n k. preserves P (IndexerByIndex E i n k)) \<and> (\<forall>ns. preserves P (RevisionList E ns)) \<and>
     (\<forall>q k. preserves P (QueueAdd E q k)) \<and> (\<forall>q k d. preserves P (QueueAddAfter E q k d)) \<and>
     (\<forall>c r. preserves P (HttpDo E c r)) \<and> preserves P (Now E) \<and>
     (\<forall>i k. preserves P (EtagCacheGet E i k)) \<and> (\<forall>i k v. preserves P (EtagCacheSet E i k v)) \<and>
     (\<forall>i k. preserves P (CustomizeCacheGet E i k)) \<and> (\<forall>i k v. preserves P (CustomizeCacheSet E i k v))"

lemma quiet_pres [pres]:
  assumes "quiet P K E"
  shows "preserves P (CtxErr K)" "preserves P (ApiGet K ri n)" "preserves P (NewSharedIndexInformer E r)" "preserves P (InformerAddEventHandler E i)"
    "preserves P (InformerRun E i)" "preserves P (InformerStop E i)" "preserves P (InformerHasSynced E i)" "preserves P (ListerGet E i ns n)"
    "preserves P (ListerList E i ns s)" "preserves P (IndexerByIndex E i n k)" "preserves P (RevisionList E ns)" "preserves P (QueueAdd E q k)"
    "preserves P (QueueAddAfter E q k d)" "preserves P (HttpDo E c rq)" "preserves P (Now E)" "preserves P (EtagCacheGet E i ek)"
    "preserves P (EtagCacheSet E i ek ev)" "preserves P (CustomizeCacheGet E i ck)" "preserves P (CustomizeCacheSet E i ck cv)"
  using assms unfolding quiet_def by (simp_all del: split_paired_All)

section \<open>Hooks\<close>

lemma quiet_Hook_Call [pres]:
  assumes "quiet P K E"
  shows "preserves P (Hook_Call K E h decode request rootObj)"
proof -
  have [pres]: "preserves P (enrichHeaders K E a rq rootObj)" "preserves P (adjustResponse K E a rq rootObj body rp)" for a rq body rp
    by (cases a; auto simp: Let_def intro!: pres assms split: option.split)+
  have [pres]: "preserves P (retryAfter E rp)" for rp
    using assms by (auto simp: retryAfter_def Let_def intro!: pres split: sum.split)
  have [pres]: "preserves P (handleResponse K E w decode rq rootObj rp)" for w rq rp
    by (auto simp: handleResponse_def intro!: pres split: sum.split)
  show ?thesis
    using assms by (auto simp: Hook_Call_def webhookExecutor_Call_def Let_def intro!: pres split: option.split sum.split)
qed

section \<open>Informers\<close>

lemma preserves_factory [pres]: "preserves (\<lambda>(w, s). P w) getFactory" "preserves (\<lambda>(w, s). P w) (modifyFactory f)"
  by (auto simp: preserves_def getFactory_def modifyFactory_def)

lemma quiet_Factory_Resource [pres]: "quiet P K E \<Longrightarrow> preserves (\<lambda>(w, s). P w) (Factory_Resource K E a r)"
  unfolding Factory_Resource_def Let_def newSharedResourceInformer_def newResourceInformer_def
  by (auto intro!: pres split: option.split sum.split)

lemma quiet_Close [pres]: "quiet P K E \<Longrightarrow> preserves (\<lambda>(w, s). P w) (ResourceInformer_Close E ri)"
  unfolding ResourceInformer_Close_def closeFn_def Let_def by (auto intro!: pres)

lemma quiet_subscribeHandler [pres]:
  assumes "quiet P K E" "\<And>ev. preserves P (h ev)"
  shows "preserves (\<lambda>(w, p). P w) (subscribeHandler K E h ri hid d)"
proof -
  have [pres]: "preserves P (addHandler K E (\<lambda>_. h) seh iw hid period)" for seh :: "handlerId sharedEventHandler" and iw period
    using assms by (auto simp: addHandler_def resync_def Let_def intro!: pres split: sum.split)
  have "preserves P (case d of None \<Rightarrow> AddEventHandler K E (\<lambda>_. h) ri seh hid
      | Some p \<Rightarrow> AddEventHandlerWithResyncPeriod K E (\<lambda>_. h) ri seh hid p)" for seh
    by (auto simp: AddEventHandler_def AddEventHandlerWithResyncPeriod_def intro!: pres split: option.split)
  then show ?thesis
    by (auto simp: preserves_def subscribeHandler_def case_prod_beta)
qed

section \<open>Related objects\<close>

lemma quiet_getCustomizeHookResponse [pres]: "quiet P K E \<Longrightarrow> preserves P (getCustomizeHookResponse K E rm parent)"
  unfolding getCustomizeHookResponse_def getCachedCustomizeHookResponse_def Let_def
  by (auto intro!: pres split: option.split sum.split)

lemma quiet_matchesNamespaceSelector: "quiet P K E \<Longrightarrow> preserves P (matchesNamespaceSelector K E rm related rule)"
  unfolding matchesNamespaceSelector_def by (auto intro!: pres split: option.split)

lemma quiet_matchesRelatedRule [pres]: "quiet P K E \<Longrightarrow> preserves P (matchesRelatedRule K E rm v pn parent related rule kind ns)"
  unfolding matchesRelatedRule_def
  by (intro preserves_cases preserves_return quiet_matchesNamespaceSelector)

lemma preserves_anyRelated [pres]: "(\<And>a b. preserves P (f a b)) \<Longrightarrow> preserves P (anyRelated f ps)"
  by (induction f ps rule: anyRelated.induct) (auto intro!: pres)

lemma preserves_filterM [pres]: "(\<And>x. preserves P (f x)) \<Longrightarrow> preserves P (filterM f xs)"
  by (induction xs) (auto intro!: pres)

lemma quiet_findRelatedParents [pres]:
  assumes "quiet P K E"
  shows "preserves P (findRelatedParents K E rm relatedSlice)"
proof -
  have [pres]: "preserves P (parentMatches K E rm relatedSlice parent)" for parent
    using assms unfolding parentMatches_def by (auto simp: Let_def intro!: pres split: sum.split option.split)
  have "preserves P (findRelatedIn K E rm relatedSlice m)" for m
    using assms by (induction m) (auto intro!: pres split: sum.split)
  then show ?thesis by (simp add: findRelatedParents_def)
qed

lemma quiet_relatedHandler [pres]:
  assumes "quiet P K E" "\<And>obj. preserves P (enqueue obj)"
  shows "preserves P (relatedHandler K E enqueue rm ev)"
proof -
  have [pres]: "preserves P (notifyRelatedParents K E enqueue rm related)" for related
    using assms unfolding notifyRelatedParents_def by (auto intro!: pres)
  have [pres]: "preserves P (onRelatedDelete K E enqueue rm obj)" for obj
    by (cases "(K, E, enqueue, rm, obj)" rule: onRelatedDelete.cases) (auto intro!: pres)
  show ?thesis
    by (cases ev) (auto simp: onRelatedAdd_def onRelatedUpdate_def intro!: pres)
qed

lemma quiet_getRelatedClient [pres]:
  "quiet P K E \<Longrightarrow> (\<And>obj. preserves P (enqueue obj)) \<Longrightarrow> preserves (\<lambda>(w, p). P w) (getRelatedClient K E enqueue rm a r)"
  unfolding getRelatedClient_def getOrCreateRelatedInformer_def Let_def
  by (auto intro!: pres split: option.split sum.split prod.split bool.split)

lemma quiet_relatedByRule [pres]:
  assumes "quiet P K E"
  shows "preserves P (relatedByRule K E rm v pn parent rule client informer)"
proof -
  have [pres]: "preserves P (listObjects E s ns informer b)" for s ns b
    using assms by (auto simp: listObjects_def intro!: pres)
  have [pres]: "preserves P (listNamespaces K E client informer s nss)" for s nss
    by (induction nss) (auto intro!: pres split: sum.split)
  have [pres]: "preserves P (relatedByNamespaceSelector K E rm rule client informer)"
    using assms unfolding relatedByNamespaceSelector_def by (auto intro!: pres split: option.split sum.split)
  show ?thesis
    using assms unfolding relatedByRule_def Let_def by (auto intro!: pres split: sum.split relatedObjectsSelectionType.split)
qed

lemma quiet_GetRelatedObjects [pres]:
  assumes "quiet P K E" "\<And>obj. preserves P (enqueue obj)"
  shows "preserves (\<lambda>(w, p). P w) (GetRelatedObjects K E enqueue rm parent)"
proof -
  have [pres]: "preserves (\<lambda>(w, p). P w) (relatedByRules K E enqueue rm v pn parent m rules)" for v pn m rules
    using assms by (induction rules arbitrary: m) (auto intro!: pres split: sum.split)
  show ?thesis
    using assms unfolding GetRelatedObjects_def Let_def by (auto intro!: pres split: option.split sum.split)
qed

end
