(* ===== verification/Subscriptions.thy ===== *)
theory Subscriptions
  imports Quiet "HOL-Library.Multiset"
begin

text \<open>
  Open subscriptions to shared informers, across the components that open and close them.  \<open>subscribed alloc M s\<close> says
  that in the state \<open>s\<close> exactly the subscriptions in the multiset \<open>M\<close> are open.  Pre- and postconditions over
  the state follow the programs.
\<close>

section \<open>Pre- and postconditions\<close>

definition hoare :: "('s \<Rightarrow> bool) \<Rightarrow> ('s, 'a) state \<Rightarrow> ('a \<Rightarrow> 's \<Rightarrow> bool) \<Rightarrow> bool" where
  "hoare P c Q \<longleftrightarrow> (\<forall>s. P s \<longrightarrow> Q (fst (run_state c s)) (snd (run_state c s)))"

lemma hoareD: "hoare P c Q \<Longrightarrow> P s \<Longrightarrow> run_state c s = (x, s') \<Longrightarrow> Q x s'"
  unfolding hoare_def by (metis fst_conv snd_conv)

lemma hoare_return: "(\<And>s. P s \<Longrightarrow> Q x s) \<Longrightarrow> hoare P (State_Monad.return x) Q"
  by (simp add: hoare_def)

lemma hoare_bind: "hoare P c R \<Longrightarrow> (\<And>x. hoare (R x) (f x) Q) \<Longrightarrow> hoare P (c \<bind> f) Q"
  by (simp add: hoare_def State_Monad.bind_def case_prod_beta)

lemma hoare_weaken: "hoare P c R \<Longrightarrow> (\<And>x s. R x s \<Longrightarrow> Q x s) \<Longrightarrow> hoare P c Q"
  by (simp add: hoare_def)

lemma hoare_strengthen: "hoare R c Q \<Longrightarrow> (\<And>s. P s \<Longrightarrow> R s) \<Longrightarrow> hoare P c Q"
  by (simp add: hoare_def)

lemma hoare_preserves: "preserves P c \<Longrightarrow> hoare P c (\<lambda>_. P)"
  by (simp add: hoare_def preserves_def)

lemma hoare_frame:
  "hoare P c Q \<Longrightarrow> (\<And>s. f (snd (run_state c s)) = f s) \<Longrightarrow> hoare (\<lambda>s. P s \<and> f s = v) c (\<lambda>x s. Q x s \<and> f s = v)"
  by (simp add: hoare_def)

lemma hoare_cases:
  "(\<And>x. s = Inl x \<Longrightarrow> hoare P (f x) Q) \<Longrightarrow> (\<And>y. s = Inr y \<Longrightarrow> hoare P (g y) Q) \<Longrightarrow> hoare P (case s of Inl x \<Rightarrow> f x | Inr y \<Rightarrow> g y) Q"
  "(z = None \<Longrightarrow> hoare P c Q) \<Longrightarrow> (\<And>y. z = Some y \<Longrightarrow> hoare P (h y) Q) \<Longrightarrow> hoare P (case z of None \<Rightarrow> c | Some y \<Rightarrow> h y) Q"
  "(\<And>a b. t = (a, b) \<Longrightarrow> hoare P (k a b) Q) \<Longrightarrow> hoare P (case t of (a, b) \<Rightarrow> k a b) Q"
  by (auto split: sum.split option.split prod.split)

section \<open>Subscriptions\<close>

definition subscribed :: "('w \<Rightarrow> nat set) \<Rightarrow> ResourceInformer multiset \<Rightarrow> 'w \<times> proc \<Rightarrow> bool" where
  "subscribed alloc M s \<longleftrightarrow> (\<exists>subs. mset subs = M \<and> factory_inv alloc (fst s, pcFactory (snd s)) subs)"

text \<open>Operations that hand out no informer identity twice and take none back.\<close>

definition growing :: "('w \<Rightarrow> nat set) \<Rightarrow> ('w, 'a) state \<Rightarrow> bool" where
  "growing alloc c \<longleftrightarrow> (\<forall>A. preserves (\<lambda>w. A \<subseteq> alloc w) c)"

definition growing_env :: "('w \<Rightarrow> nat set) \<Rightarrow> 'w env \<Rightarrow> bool" where
  "growing_env alloc E \<longleftrightarrow>
     (\<forall>ns n. growing alloc (GetSecret E ns n)) \<and> (\<forall>ns n. growing alloc (GetConfigMap E ns n)) \<and>
     (\<forall>key. growing alloc (MetricsCacheGet (Prometheus E) key)) \<and> (\<forall>key i. growing alloc (MetricsCacheSet (Prometheus E) key i)) \<and>
     (\<forall>cs. growing alloc (Register (Prometheus E) cs)) \<and> (\<forall>a b. growing alloc (NewEtagCache E a b)) \<and>
     (\<forall>a b. growing alloc (NewCustomizeCache E a b)) \<and> (\<forall>q. growing alloc (QueueShutDown E q))"

lemma subscribed_world:
  assumes "growing alloc c"
  shows "preserves (subscribed alloc M) (liftFst c)"
proof (rule preservesI)
  fix s :: "'a \<times> proc"
  assume "subscribed alloc M s"
  then obtain subs where "mset subs = M" "factory_inv alloc (fst s, pcFactory (snd s)) subs" by (auto simp: subscribed_def)
  moreover have "alloc (fst s) \<subseteq> alloc (snd (run_state c (fst s)))" using assms by (auto simp: growing_def preserves_def)
  ultimately show "subscribed alloc M (snd (run_state (liftFst c) s))"
    by (cases s) (auto simp: subscribed_def intro: factory_inv_mono)
qed

lemma subscribed_proc [pres]:
  "preserves (subscribed alloc M) (unsubscribeHandlers ri)"
  "preserves (subscribed alloc M) (getRelated c)" "preserves (subscribed alloc M) (setRelated c m)"
  "preserves (subscribed alloc M) (liftFactory getFactory)"
  by (auto simp: preserves_def subscribed_def unsubscribeHandlers_def getRelated_def setRelated_def getFactory_def)

lemma subscribed_open:
  assumes "fresh_law E alloc"
  shows "hoare (subscribed alloc M) (liftFactory (Factory_Resource K E a r))
     (\<lambda>x. subscribed alloc (case x of Inl _ \<Rightarrow> M | Inr ri \<Rightarrow> add_mset ri M))"
  unfolding hoare_def
proof (intro allI impI)
  fix s :: "'a \<times> proc"
  assume "subscribed alloc M s"
  then obtain subs where subs: "mset subs = M" "factory_inv alloc (fst s, pcFactory (snd s)) subs" by (auto simp: subscribed_def)
  obtain x w' f' where run: "run_state (Factory_Resource K E a r) (fst s, pcFactory (snd s)) = (x, (w', f'))" by (metis surj_pair)
  have "factory_inv alloc (w', f') (case x of Inl _ \<Rightarrow> subs | Inr ri \<Rightarrow> ri # subs)"
    using Factory_Resource_run [OF assms run] factory_inv_share [OF subs(2)] factory_inv_create [OF subs(2)] factory_inv_mono [OF subs(2)]
    by (auto split: sum.split)
  then show "subscribed alloc (case fst (run_state (liftFactory (Factory_Resource K E a r)) s) of Inl _ \<Rightarrow> M | Inr ri \<Rightarrow> add_mset ri M)
      (snd (run_state (liftFactory (Factory_Resource K E a r)) s))"
    using subs(1) run by (cases s; cases x) (auto simp: subscribed_def intro!: exI [of _ "case x of Inl _ \<Rightarrow> subs | Inr ri \<Rightarrow> ri # subs"])
qed

lemma subscribed_close:
  assumes "fresh_law E alloc" "ri \<in># M"
  shows "hoare (subscribed alloc M) (liftFactory (ResourceInformer_Close E ri)) (\<lambda>x s. x = None \<and> subscribed alloc (M - {#ri#}) s)"
  unfolding hoare_def
proof (intro allI impI)
  fix s :: "'a \<times> proc"
  assume "subscribed alloc M s"
  then obtain subs where subs: "mset subs = M" "factory_inv alloc (fst s, pcFactory (snd s)) subs" by (auto simp: subscribed_def)
  obtain x w' f' where run: "run_state (ResourceInformer_Close E ri) (fst s, pcFactory (snd s)) = (x, (w', f'))" by (metis surj_pair)
  have "ri \<in> set subs" using assms(2) subs(1) by auto
  from factory_inv_close [OF subs(2) this assms(1) run]
  show "fst (run_state (liftFactory (ResourceInformer_Close E ri)) s) = None \<and>
      subscribed alloc (M - {#ri#}) (snd (run_state (liftFactory (ResourceInformer_Close E ri)) s))"
    using subs(1) run by (cases s) (auto simp: subscribed_def intro!: exI [of _ "remove1 ri subs"])
qed

lemma subscribed_closeInformers:
  assumes "fresh_law E alloc" "\<And>ri M. preserves (subscribed alloc M) (before ri)"
  shows "mset ris \<subseteq># M \<Longrightarrow> hoare (subscribed alloc M) (closeInformers E before ris) (\<lambda>x s. x = None \<and> subscribed alloc (M - mset ris) s)"
proof (induction ris arbitrary: M)
  case Nil
  then show ?case by (auto intro!: hoare_return)
next
  case (Cons ri ris)
  have ri: "ri \<in># M" and rest: "mset ris \<subseteq># M - {#ri#}"
    using Cons.prems by (auto simp: insert_subset_eq_iff)
  have tail: "hoare (\<lambda>s. x = None \<and> subscribed alloc (M - {#ri#}) s)
      (case x of None \<Rightarrow> closeInformers E before ris | Some e \<Rightarrow> State_Monad.return (Some e))
      (\<lambda>x s. x = None \<and> subscribed alloc (M - {#ri#} - mset ris) s)" for x
    using Cons.IH [OF rest] by (cases x) (auto simp: hoare_def)
  have "M - {#ri#} - mset ris = M - mset (ri # ris)" by simp
  with tail show ?case
    by (simp only: closeInformers.simps)
      (intro hoare_bind [OF hoare_preserves [OF assms(2)]] hoare_bind [OF subscribed_close [OF assms(1) ri]], simp)
qed

lemma submultiset_split:
  assumes "A + B \<subseteq># M"
  shows "A \<subseteq># M" "B \<subseteq># M - A"
proof -
  show A: "A \<subseteq># M" using assms mset_subset_eq_add_left subset_mset.order_trans by blast
  show "B \<subseteq># M - A" using subset_mset.le_diff_conv2 [OF A, of B] assms by (simp add: add.commute)
qed

text \<open>Stopping a customize manager closes the informers it opened and the one for namespaces.\<close>

definition managerInformers :: "Customize.Manager \<Rightarrow> ResourceInformer list" where
  "managerInformers rm = (case mgNsInformer rm of None \<Rightarrow> [] | Some ri \<Rightarrow> [ri])"

definition relatedInformers :: "Customize.Manager \<Rightarrow> 'w \<times> proc \<Rightarrow> InformerMap" where
  "relatedInformers rm s = orNil (map_of (pcRelated (snd s)) (mgId rm))"

lemma hoare_Manager_Stop:
  assumes "fresh_law E alloc" "mset (map snd related @ managerInformers rm) \<subseteq># M"
  shows "hoare (\<lambda>s. subscribed alloc M s \<and> relatedInformers rm s = related) (Manager_Stop E rm)
     (\<lambda>x s. x = None \<and> subscribed alloc (M - mset (map snd related @ managerInformers rm)) s)"
proof -
  have rel: "hoare (\<lambda>s. subscribed alloc M s \<and> relatedInformers rm s = related) (getRelated (mgId rm)) (\<lambda>x s. x = related \<and> subscribed alloc M s)"
    by (auto simp: hoare_def getRelated_def relatedInformers_def case_prod_beta)
  have sub: "mset (map snd related) \<subseteq># M" "mset (managerInformers rm) \<subseteq># M - mset (map snd related)"
    using submultiset_split [of "mset (map snd related)" "mset (managerInformers rm)" M] assms(2) by simp_all
  have ns: "hoare (subscribed alloc (M - mset (map snd related))) (case mgNsInformer rm of None \<Rightarrow> State_Monad.return None | Some ri \<Rightarrow> liftFactory (ResourceInformer_Close E ri))
      (\<lambda>x s. x = None \<and> subscribed alloc (M - mset (map snd related @ managerInformers rm)) s)"
  proof (cases "mgNsInformer rm")
    case (Some ri)
    then have "ri \<in># M - mset (map snd related)" using sub(2) by (simp add: managerInformers_def)
    from subscribed_close [OF assms(1) this] show ?thesis using Some by (simp add: managerInformers_def)
  qed (simp add: managerInformers_def hoare_return)
  have "hoare (\<lambda>s. x = related \<and> subscribed alloc M s)
      (do { r \<leftarrow> closeInformers E unsubscribeHandlers (map snd x);
            case r of Some e \<Rightarrow> State_Monad.return (Some e)
              | None \<Rightarrow> (case mgNsInformer rm of None \<Rightarrow> State_Monad.return None | Some ri \<Rightarrow> liftFactory (ResourceInformer_Close E ri)) })
      (\<lambda>x s. x = None \<and> subscribed alloc (M - mset (map snd related @ managerInformers rm)) s)" for x
  proof (cases "x = related")
    case True
    show ?thesis
      unfolding True
      by (rule hoare_bind [OF hoare_strengthen [OF subscribed_closeInformers [OF assms(1) subscribed_proc(1) sub(1)]]], simp)
        (rule hoare_cases, use ns in \<open>auto simp: hoare_def\<close>)
  qed (simp add: hoare_def)
  then show ?thesis unfolding Manager_Stop_def by (rule hoare_bind [OF rel])
qed

section \<open>Hooks and managers\<close>

lemma growing_rules:
  "growing alloc (State_Monad.return x)"
  "growing alloc c \<Longrightarrow> (\<And>x. growing alloc (f x)) \<Longrightarrow> growing alloc (c \<bind> f)"
  by (simp_all add: growing_def preserves_return preserves_bind)

lemma growing_envD:
  assumes "growing_env alloc E"
  shows "growing alloc (GetSecret E ns n)" "growing alloc (GetConfigMap E ns n)" "growing alloc (MetricsCacheGet (Prometheus E) key)"
    "growing alloc (MetricsCacheSet (Prometheus E) key inst)" "growing alloc (Register (Prometheus E) cs)"
    "growing alloc (NewEtagCache E i j)" "growing alloc (NewCustomizeCache E i j)" "growing alloc (QueueShutDown E q)"
  using assms by (simp_all add: growing_env_def)

lemma growing_ResolveEndpointConfig:
  assumes "growing_env alloc E"
  shows "growing alloc (ResolveEndpointConfig E webhook configs)"
proof -
  note G = growing_rules growing_envD [OF assms]
  have "growing alloc (ResolveCABundle E ca)" for ca
    unfolding ResolveCABundle_def Let_def resolveFromSecret_def resolveFromConfigMap_def
    by (auto intro!: G split: option.split)
  moreover have "growing alloc (ResolveClientTLS E tls)" "growing alloc (resolveAuth E a b)" for tls a b
    unfolding ResolveClientTLS_def resolveAuth_def ResolveAuthorization_def ResolveBasicAuth_def Let_def
    by (auto intro!: G split: option.split)
  ultimately have "growing alloc (resolveFields E ca tls a b)" for ca tls a b
    unfolding resolveFields_def by (auto intro!: G split: sum.split)
  then show ?thesis
    unfolding ResolveEndpointConfig_def by (auto intro!: G split: option.split sum.split)
qed

lemma growing_NewHook:
  assumes "growing_env alloc E"
  shows "growing alloc (NewHook E hook name t h conn)"
proof -
  note G = growing_rules growing_envD [OF assms]
  have "growing alloc (newAbstract E wh)" for wh
    unfolding newAbstract_def by (auto intro!: G split: option.split)
  moreover have "growing alloc (InstrumentClientWithConstLabels (Prometheus E) n t h c url)" for n c url
    unfolding InstrumentClientWithConstLabels_def getOrCreateMetrics_def by (auto intro!: G split: option.split prod.split)
  ultimately have "growing alloc (NewWebhookExecutor E wh v name t h conn)" for wh v
    unfolding NewWebhookExecutor_def Let_def by (auto intro!: G split: option.split sum.split)
  then show ?thesis unfolding NewHook_def by (auto intro!: G split: option.split)
qed

text \<open>A customize manager that could be made holds one subscription, to the namespaces; one that could not be made, none.\<close>

lemma subscribed_NewCustomizeManager:
  assumes "fresh_law E alloc" "growing_env alloc E"
  shows "hoare (subscribed alloc M) (NewCustomizeManager K E name controller dyn infs kinds t)
     (\<lambda>x. subscribed alloc (case x of Inl _ \<Rightarrow> M | Inr rm \<Rightarrow> M + mset (managerInformers rm)))"
proof -
  have g: "growing alloc (newCustomizeHook E name controller t)"
    unfolding newCustomizeHook_def
    by (auto intro!: growing_rules growing_ResolveEndpointConfig growing_NewHook assms(2) split: option.split sum.split)
  have c: "growing alloc (newResponseCache E)" using assms(2) by (simp add: newResponseCache_def growing_envD)
  have tail: "hoare (subscribed alloc (case ns of Some ri \<Rightarrow> add_mset ri M | None \<Rightarrow> M))
      (do { cache \<leftarrow> liftFst (newResponseCache E); setRelated (t @ ''/'' @ name) []; State_Monad.return (Inr (m ns cache)) })
      (\<lambda>x. subscribed alloc (case x of Inl _ \<Rightarrow> M | Inr rm \<Rightarrow> M + mset (managerInformers rm)))"
    if "\<And>cache. mgNsInformer (m ns cache) = ns" for ns and m :: "ResourceInformer option \<Rightarrow> nat \<Rightarrow> Customize.Manager"
    using that
    by (intro hoare_bind [OF hoare_preserves [OF subscribed_world [OF c]]] hoare_bind [OF hoare_preserves [OF subscribed_proc(3)]] hoare_return)
      (auto simp: managerInformers_def split: option.split)
  have open': "hoare (subscribed alloc M)
      (do { r \<leftarrow> liftFactory (Factory_Resource K E ''v1'' ''namespaces'');
            State_Monad.return (case r of Inl e \<Rightarrow> Inl (wrapErr msg e) | Inr ri \<Rightarrow> Inr (Some ri)) })
      (\<lambda>x. subscribed alloc (case x of Inr (Some ri) \<Rightarrow> add_mset ri M | _ \<Rightarrow> M))" for msg
    by (rule hoare_bind [OF subscribed_open [OF assms(1)]], rule hoare_return) (auto split: sum.splits)
  have last: "hoare (subscribed alloc (case ns of Inr (Some ri) \<Rightarrow> add_mset ri M | _ \<Rightarrow> M))
      (case ns of Inl e \<Rightarrow> State_Monad.return (Inl e) | Inr nsInformer \<Rightarrow>
         do { cache \<leftarrow> liftFst (newResponseCache E); setRelated (t @ ''/'' @ name) []; State_Monad.return (Inr (m nsInformer cache)) })
      (\<lambda>x. subscribed alloc (case x of Inl _ \<Rightarrow> M | Inr rm \<Rightarrow> M + mset (managerInformers rm)))"
    if "\<And>ns cache. mgNsInformer (m ns cache) = ns" for ns and m :: "ResourceInformer option \<Rightarrow> nat \<Rightarrow> Customize.Manager"
  proof (cases ns)
    case (Inr x)
    then show ?thesis using tail [of m x, OF that] by simp
  qed (simp add: hoare_return)
  have body: "hoare (subscribed alloc M)
      (case hook of Inl e \<Rightarrow> State_Monad.return (Inl e) | Inr h \<Rightarrow> do { fc \<leftarrow> liftFactory getFactory; ns \<leftarrow> f fc; g h ns })
      (\<lambda>x. subscribed alloc (case x of Inl _ \<Rightarrow> M | Inr rm \<Rightarrow> M + mset (managerInformers rm)))"
    if "\<And>fc. hoare (subscribed alloc M) (f fc) (\<lambda>x. subscribed alloc (case x of Inr (Some ri) \<Rightarrow> add_mset ri M | _ \<Rightarrow> M))"
      "\<And>h ns. hoare (subscribed alloc (case ns of Inr (Some ri) \<Rightarrow> add_mset ri M | _ \<Rightarrow> M)) (g h ns)
        (\<lambda>x. subscribed alloc (case x of Inl _ \<Rightarrow> M | Inr rm \<Rightarrow> M + mset (managerInformers rm)))"
    for hook :: "err + hookExecutorImpl option" and f g
    using that by (cases hook) (auto intro!: hoare_return hoare_bind [OF hoare_preserves [OF subscribed_proc(4)]] hoare_bind)
  show ?thesis
    unfolding NewCustomizeManager_def IsInitialized_def
    by (rule hoare_bind [OF hoare_preserves [OF subscribed_world [OF g]]], rule body)
      (simp only: simp_thms if_True option.distinct not_False_eq_True, rule open', rule last, simp)
qed

end
