(* ===== verification/Finalizer.thy ===== *)
theory Finalizer
  imports Clientset
begin

text \<open>The finalizer manager, \<^verbatim>\<open>pkg/controller/common/finalizer/finalizer.go\<close>.\<close>

record Manager =
  fmName :: string
  fmEnabled :: bool

definition NewManager :: "string \<Rightarrow> bool \<Rightarrow> Manager" where
  "NewManager name enabled = \<lparr>fmName = name, fmEnabled = enabled\<rparr>"

definition SyncObject :: "'w k8s \<Rightarrow> Manager \<Rightarrow> ResourceClient \<Rightarrow> unstructured \<Rightarrow> ('w, err + unstructured) state" where
  "SyncObject K m client obj =
     (if ContainsFinalizer K obj (fmName m) = fmEnabled m then State_Monad.return (Inr obj)
      else if fmEnabled m then
        (if GetDeletionTimestamp K obj \<noteq> None then State_Monad.return (Inr obj)
         else AddFinalizer K (ResourceClient_Namespace client (GetNamespace K obj)) obj (fmName m))
      else RemoveFinalizer K (ResourceClient_Namespace client (GetNamespace K obj)) obj (fmName m))"

definition hasGCFinalizer :: "'w k8s \<Rightarrow> unstructured \<Rightarrow> bool" where
  "hasGCFinalizer K obj \<longleftrightarrow>
     list_ex (\<lambda>item. item = ''foregroundDeletion'' \<or> item = ''orphan'') (GetFinalizers K obj)"

definition ShouldFinalize :: "'w k8s \<Rightarrow> Manager \<Rightarrow> unstructured \<Rightarrow> bool" where
  "ShouldFinalize K m parent =
     (if hasGCFinalizer K parent then False
      else if \<not> ContainsFinalizer K parent (fmName m) then False
      else fmEnabled m)"

section \<open>Properties\<close>

text \<open>What the finalizer helpers of \<^verbatim>\<open>controllerutil\<close> promise.\<close>

definition finalizer_law :: "'w k8s \<Rightarrow> bool" where
  "finalizer_law K \<longleftrightarrow>
     (\<forall>obj f. ContainsFinalizer K (AddFinalizerTo K obj f) f \<and> \<not> ContainsFinalizer K (RemoveFinalizerFrom K obj f) f)"

lemma refK_finalizer: "finalizer_law refK"
  by (auto simp: finalizer_law_def refK_simps)

text \<open>Synchronising the finalizer writes to the API server only to add the finalizer, when it is
  enabled and the object is not being deleted, or to remove it, when it is disabled; and every
  object it writes has the finalizer exactly when it is enabled.\<close>

theorem SyncObject_confined:
  assumes "retry_law K" "finalizer_law K" "preserves P (CtxErr K)" "\<And>ri n. preserves P (ApiGet K ri n)"
    and "\<And>ri new. ContainsFinalizer K new (fmName m) = fmEnabled m \<Longrightarrow>
           ContainsFinalizer K obj (fmName m) \<noteq> fmEnabled m \<Longrightarrow>
           (fmEnabled m \<longrightarrow> GetDeletionTimestamp K obj = None) \<Longrightarrow> preserves P (ApiUpdate K ri new)"
  shows "preserves P (SyncObject K m client obj)"
proof -
  have "preserves P (AddFinalizer K rc obj (fmName m))"
    if "fmEnabled m" "\<not> ContainsFinalizer K obj (fmName m)" "GetDeletionTimestamp K obj = None" for rc
    unfolding AddFinalizer_def
    by (rule au.confined) (use assms that in \<open>auto simp: finalizer_law_def split: if_splits\<close>)
  moreover have "preserves P (RemoveFinalizer K rc obj (fmName m))"
    if "\<not> fmEnabled m" "ContainsFinalizer K obj (fmName m)" for rc
    unfolding RemoveFinalizer_def
    by (rule au.confined) (use assms that in \<open>auto simp: finalizer_law_def split: if_splits\<close>)
  ultimately show ?thesis
    by (auto simp: SyncObject_def intro: pres)
qed

theorem SyncObject_confined_witness:
  "preserves (\<lambda>w. (''create'', ''p'') \<notin> set (wLog w)) (SyncObject refK (NewManager ''f'' True) podClient (podObject ''u''))"
  by (rule SyncObject_confined [OF refK_retry refK_finalizer])
    (simp_all add: refK_simps refGet_def refPut_def preserves_def Let_def)

text \<open>The controller finalizes a parent exactly when finalizing is enabled, the parent still has
  the controller's finalizer and no garbage-collection finalizer is on it.\<close>

theorem ShouldFinalize_iff:
  "ShouldFinalize K m parent \<longleftrightarrow>
     fmEnabled m \<and> ContainsFinalizer K parent (fmName m) \<and>
     ''foregroundDeletion'' \<notin> set (GetFinalizers K parent) \<and> ''orphan'' \<notin> set (GetFinalizers K parent)"
  by (auto simp: ShouldFinalize_def hasGCFinalizer_def list_ex_iff)

end
