(* ===== verification/Requests.thy ===== *)
theory Requests
  imports ObjectMap
begin

text \<open>
  Requests to the hooks: the builders of \<^verbatim>\<open>controller/composite/api\<close> and \<^verbatim>\<open>controller/decorator/api\<close>, versions 1 and 2, and the JSON
  of the requests they build.  The four packages have the same builder, here one record over the type \<open>'c\<close> of the controller, and
  differ in the maps of the requests (relative names in version 1, qualified names in version 2) and in the fields of the requests.
\<close>

section \<open>Builders\<close>

record 'c requestBuilder =
  rbController :: "'c option"
  rbParent :: "unstructured option"
  rbChildren :: "ObjectMap option"
  rbRelated :: "ObjectMap option"
  rbFinalizing :: bool

definition NewRequestBuilder :: "'c requestBuilder" where
  "NewRequestBuilder = \<lparr>rbController = None, rbParent = None, rbChildren = None, rbRelated = None, rbFinalizing = False\<rparr>"

definition WithController :: "'c requestBuilder \<Rightarrow> 'c \<Rightarrow> 'c requestBuilder" where
  "WithController r controller = r\<lparr>rbController := Some controller\<rparr>"

definition WithParent :: "'c requestBuilder \<Rightarrow> unstructured \<Rightarrow> 'c requestBuilder" where
  "WithParent r parent = r\<lparr>rbParent := Some parent\<rparr>"

definition WithChildren :: "'c requestBuilder \<Rightarrow> ObjectMap \<Rightarrow> 'c requestBuilder" where
  "WithChildren r children = r\<lparr>rbChildren := Some children\<rparr>"

definition WithRelatedObjects :: "'c requestBuilder \<Rightarrow> ObjectMap \<Rightarrow> 'c requestBuilder" where
  "WithRelatedObjects r related = r\<lparr>rbRelated := Some related\<rparr>"

definition IsFinalizing :: "'c requestBuilder \<Rightarrow> 'c requestBuilder" where
  "IsFinalizing r = r\<lparr>rbFinalizing := True\<rparr>"

text \<open>A map that is missing, or any map without a parent, becomes the empty map.\<close>

fun toRelativeObjectMap :: "'w k8s \<Rightarrow> unstructured option \<Rightarrow> ObjectMap option \<Rightarrow> objectMap" where
  "toRelativeObjectMap K parent None = []"
| "toRelativeObjectMap K None (Some objMap) = []"
| "toRelativeObjectMap K (Some parent) (Some (RelativeObjectMap m)) = m"
| "toRelativeObjectMap K (Some parent) (Some (UniformObjectMap m)) = UniformObjectMap_Convert K (metaU K parent) m"

fun toUniformObjectMap :: "'w k8s \<Rightarrow> unstructured option \<Rightarrow> ObjectMap option \<Rightarrow> objectMap" where
  "toUniformObjectMap K parent None = []"
| "toUniformObjectMap K None (Some objMap) = []"
| "toUniformObjectMap K (Some parent) (Some (UniformObjectMap m)) = m"
| "toUniformObjectMap K (Some parent) (Some (RelativeObjectMap m)) = MakeUniformObjectMap K (metaU K parent) (RelativeObjectMap_List m)"

section \<open>Requests\<close>

record 'c hookRequest =
  hrController :: "'c option"
  hrParent :: "unstructured option"
  hrChildren :: objectMap
  hrRelated :: objectMap
  hrFinalizing :: bool

definition Build_v1 :: "'w k8s \<Rightarrow> 'c requestBuilder \<Rightarrow> 'c hookRequest" where
  "Build_v1 K r =
     \<lparr>hrController = rbController r, hrParent = rbParent r, hrChildren = toRelativeObjectMap K (rbParent r) (rbChildren r),
      hrRelated = toRelativeObjectMap K (rbParent r) (rbRelated r), hrFinalizing = rbFinalizing r\<rparr>"

definition Build_v2 :: "'w k8s \<Rightarrow> 'c requestBuilder \<Rightarrow> 'c hookRequest" where
  "Build_v2 K r =
     \<lparr>hrController = rbController r, hrParent = rbParent r, hrChildren = toUniformObjectMap K (rbParent r) (rbChildren r),
      hrRelated = toUniformObjectMap K (rbParent r) (rbRelated r), hrFinalizing = rbFinalizing r\<rparr>"

definition GetRootObject :: "'c hookRequest \<Rightarrow> unstructured option" where
  "GetRootObject r = hrParent r"

text \<open>The chain of calls of the composite controller.\<close>

definition buildRequest :: "'w k8s \<Rightarrow> bool \<Rightarrow> 'c \<Rightarrow> unstructured \<Rightarrow> ObjectMap \<Rightarrow> ObjectMap \<Rightarrow> bool \<Rightarrow> 'c hookRequest" where
  "buildRequest K v2 controller parent children related finalizing =
     (let b = WithRelatedObjects (WithChildren (WithParent (WithController NewRequestBuilder controller) parent) children) related;
          b = (if finalizing then IsFinalizing b else b)
      in if v2 then Build_v2 K b else Build_v1 K b)"

section \<open>JSON\<close>

text \<open>A map is an object from the texts of types to objects from names to objects; a nil pointer is null.\<close>

definition encodeGroup :: "objectGroup \<Rightarrow> jobj" where
  "encodeGroup grp = foldl (\<lambda>j q. jput (fst q) (JObj (snd q)) j) [] grp"

definition encodeObjectMap :: "objectMap \<Rightarrow> json" where
  "encodeObjectMap m = JObj (foldl (\<lambda>j p. jput (MarshalText (fst p)) (JObj (encodeGroup (snd p))) j) [] m)"

definition encodePointer :: "('a \<Rightarrow> json) \<Rightarrow> 'a option \<Rightarrow> json" where
  "encodePointer enc p = (case p of None \<Rightarrow> JNull | Some x \<Rightarrow> enc x)"

definition encodeCompositeRequest :: "('c \<Rightarrow> json) \<Rightarrow> 'c hookRequest \<Rightarrow> json" where
  "encodeCompositeRequest enc r =
     JObj [(''children'', encodeObjectMap (hrChildren r)), (''controller'', encodePointer enc (hrController r)), (''finalizing'', JBool (hrFinalizing r)),
           (''parent'', encodePointer JObj (hrParent r)), (''related'', encodeObjectMap (hrRelated r))]"

section \<open>Requests of decorators\<close>

text \<open>The decorator's packages have their own requests, with other field names in version 1, and the same builder.\<close>

record 'c decoratorRequestV1 =
  d1Controller :: "'c option"
  d1Object :: "unstructured option"
  d1Attachments :: objectMap
  d1Related :: objectMap
  d1Finalizing :: bool

record 'c decoratorRequestV2 =
  d2Controller :: "'c option"
  d2Parent :: "unstructured option"
  d2Children :: objectMap
  d2Related :: objectMap
  d2Finalizing :: bool

definition Decorator_Build_v1 :: "'w k8s \<Rightarrow> 'c requestBuilder \<Rightarrow> 'c decoratorRequestV1" where
  "Decorator_Build_v1 K r =
     \<lparr>d1Controller = rbController r, d1Object = rbParent r, d1Attachments = toRelativeObjectMap K (rbParent r) (rbChildren r),
      d1Related = toRelativeObjectMap K (rbParent r) (rbRelated r), d1Finalizing = rbFinalizing r\<rparr>"

definition Decorator_Build_v2 :: "'w k8s \<Rightarrow> 'c requestBuilder \<Rightarrow> 'c decoratorRequestV2" where
  "Decorator_Build_v2 K r =
     \<lparr>d2Controller = rbController r, d2Parent = rbParent r, d2Children = toUniformObjectMap K (rbParent r) (rbChildren r),
      d2Related = toUniformObjectMap K (rbParent r) (rbRelated r), d2Finalizing = rbFinalizing r\<rparr>"

definition encodeDecoratorV1 :: "('c \<Rightarrow> json) \<Rightarrow> 'c decoratorRequestV1 \<Rightarrow> json" where
  "encodeDecoratorV1 enc r =
     JObj [(''attachments'', encodeObjectMap (d1Attachments r)), (''controller'', encodePointer enc (d1Controller r)), (''finalizing'', JBool (d1Finalizing r)),
           (''object'', encodePointer JObj (d1Object r)), (''related'', encodeObjectMap (d1Related r))]"

definition encodeDecoratorV2 :: "('c \<Rightarrow> json) \<Rightarrow> 'c decoratorRequestV2 \<Rightarrow> json" where
  "encodeDecoratorV2 enc r =
     JObj [(''attachments'', encodeObjectMap (d2Children r)), (''controller'', encodePointer enc (d2Controller r)), (''finalizing'', JBool (d2Finalizing r)),
           (''object'', encodePointer JObj (d2Parent r)), (''related'', encodeObjectMap (d2Related r))]"

definition buildDecoratorRequest :: "'w k8s \<Rightarrow> ('c \<Rightarrow> json) \<Rightarrow> bool \<Rightarrow> 'c \<Rightarrow> unstructured \<Rightarrow> ObjectMap \<Rightarrow> ObjectMap \<Rightarrow> bool \<Rightarrow> json" where
  "buildDecoratorRequest K enc v2 controller parent children related finalizing =
     (let b = WithRelatedObjects (WithChildren (WithParent (WithController NewRequestBuilder controller) parent) children) related;
          b = (if finalizing then IsFinalizing b else b)
      in if v2 then encodeDecoratorV2 enc (Decorator_Build_v2 K b) else encodeDecoratorV1 enc (Decorator_Build_v1 K b))"

section \<open>What a hook reads\<close>

text \<open>The object a hook finds in a map of its request under a type and a name.\<close>

definition readObject :: "json \<Rightarrow> gvk \<Rightarrow> string \<Rightarrow> json option" where
  "readObject j g n =
     (case j of
        JObj types \<Rightarrow> (case map_of types (MarshalText g) of Some (JObj objs) \<Rightarrow> map_of objs n | _ \<Rightarrow> None)
      | _ \<Rightarrow> None)"

definition readField :: "json \<Rightarrow> string \<Rightarrow> json option" where
  "readField j f = (case j of JObj m \<Rightarrow> map_of m f | _ \<Rightarrow> None)"

lemma buildDecoratorRequest_fields:
  "readField (buildDecoratorRequest K enc v2 controller parent children related finalizing) ''attachments'' =
     Some (encodeObjectMap ((if v2 then toUniformObjectMap else toRelativeObjectMap) K (Some parent) (Some children)))"
  "readField (buildDecoratorRequest K enc v2 controller parent children related finalizing) ''related'' =
     Some (encodeObjectMap ((if v2 then toUniformObjectMap else toRelativeObjectMap) K (Some parent) (Some related)))"
  by (simp_all add: buildDecoratorRequest_def encodeDecoratorV1_def encodeDecoratorV2_def Decorator_Build_v1_def Decorator_Build_v2_def readField_def
      NewRequestBuilder_def WithController_def WithParent_def WithChildren_def WithRelatedObjects_def IsFinalizing_def Let_def
      del: toRelativeObjectMap.simps toUniformObjectMap.simps)

lemma map_of_foldl_jput:
  assumes "distinct (map fst m)" "inj_on f (insert x (fst ` set m))"
  shows "map_of (foldl (\<lambda>j p. jput (f (fst p)) (h (snd p)) j) acc m) (f x) = (case map_of m x of None \<Rightarrow> map_of acc (f x) | Some y \<Rightarrow> Some (h y))"
  using assms
proof (induction m arbitrary: acc)
  case (Cons p m)
  have IH: "map_of (foldl (\<lambda>j p. jput (f (fst p)) (h (snd p)) j) acc m) (f x) = (case map_of m x of None \<Rightarrow> map_of acc (f x) | Some y \<Rightarrow> Some (h y))" for acc
    using Cons.prems by (intro Cons.IH) (auto intro: inj_on_subset)
  have "f (fst p) = f x \<longleftrightarrow> fst p = x" using Cons.prems(2) by (auto simp: inj_on_def)
  moreover have "fst p = x \<Longrightarrow> map_of m x = None" using Cons.prems(1) by (auto simp: map_of_eq_None_iff)
  ultimately show ?case by (cases p) (auto simp: IH split: option.split)
qed simp

text \<open>Kinds have no dot, groups and versions no slash, as Kubernetes requires.\<close>

definition plainType :: "gvk \<Rightarrow> bool" where
  "plainType g \<longleftrightarrow> CHR ''.'' \<notin> set (gvkKind g) \<and> CHR ''/'' \<notin> set (gvkGroup g) \<and> CHR ''/'' \<notin> set (gvkVersion g)"

lemma MarshalText_inj: "inj_on MarshalText (Collect plainType)"
proof (rule inj_onI)
  fix x y :: gvk
  assume a: "x \<in> Collect plainType" "y \<in> Collect plainType" and eq: "MarshalText x = MarshalText y"
  let ?gv = "\<lambda>x. if gvkGroup x = '''' then gvkVersion x else gvkGroup x @ CHR ''/'' # gvkVersion x"
  have shape: "MarshalText z = gvkKind z @ CHR ''.'' # ?gv z" for z :: gvk by (simp add: MarshalText_def)
  have kg: "gvkKind x = gvkKind y" "?gv x = ?gv y"
    using append_sep_eq [of "CHR ''.''" "gvkKind x" "gvkKind y"] eq a unfolding shape plainType_def mem_Collect_eq by blast+
  have slash: "CHR ''/'' \<in> set (?gv z) \<longleftrightarrow> gvkGroup z \<noteq> ''''" if "z \<in> Collect plainType" for z :: gvk
    using that by (simp add: plainType_def)
  have "gvkGroup x = '''' \<longleftrightarrow> gvkGroup y = ''''" using slash [OF a(1)] slash [OF a(2)] kg(2) by metis
  then have "gvkGroup x = gvkGroup y \<and> gvkVersion x = gvkVersion y"
    using kg(2) a append_sep_eq [of "CHR ''/''" "gvkGroup x" "gvkGroup y"] by (auto simp: plainType_def split: if_splits)
  with kg(1) show "x = y" by simp
qed

lemma readObject_encode:
  assumes "wfMap m" "list_all (\<lambda>p. plainType (fst p)) m" "plainType g"
  shows "readObject (encodeObjectMap m) g n = map_option JObj (lookupObj m g n)"
proof -
  have "inj_on MarshalText (insert g (fst ` set m))"
    using assms(2,3) by (intro inj_on_subset [OF MarshalText_inj]) (auto simp: list_all_iff)
  then have types: "map_of (foldl (\<lambda>j p. jput (MarshalText (fst p)) (JObj (encodeGroup (snd p))) j) [] m) (MarshalText g) =
      map_option (\<lambda>grp. JObj (encodeGroup grp)) (map_of m g)"
    using map_of_foldl_jput [of m MarshalText g "\<lambda>grp. JObj (encodeGroup grp)" "[]"] assms(1) by (simp add: wfMap_def split: option.split)
  have "map_of (encodeGroup grp) n = map_option JObj (map_of grp n)" if "map_of m g = Some grp" for grp
    using map_of_foldl_jput [of grp id n JObj "[]"] wfMap_group [OF assms(1) that] by (simp add: encodeGroup_def split: option.split)
  with types show ?thesis by (auto simp: readObject_def encodeObjectMap_def lookupObj_def split: option.split)
qed

lemma wfMap_initGroups: "wfMap m \<Longrightarrow> wfMap (foldl RelativeObjectMap_InitGroup m gs)"
proof (induction gs arbitrary: m)
  case (Cons g gs)
  have "wfMap (RelativeObjectMap_InitGroup m g)" using Cons.prems wfMap_update [of m "[]" g] by (simp add: RelativeObjectMap_InitGroup_def)
  then show ?case by (simp add: Cons.IH)
qed simp

text \<open>The relative map of a request is well-formed and has the types of the uniform map it comes from.\<close>

lemma Convert_wf:
  assumes "uniformlyKeyed K m" "moNamespace parent \<noteq> ''''"
  shows "wfMap (UniformObjectMap_Convert K parent m)" "fst ` set (UniformObjectMap_Convert K parent m) = fst ` set m"
proof -
  let ?objs = "filter (\<lambda>c. moNamespace parent = GetNamespace K c) (UniformObjectMap_List m)"
  have conv: "UniformObjectMap_Convert K parent m =
      foldl (RelativeObjectMap_Insert K parent) (foldl RelativeObjectMap_InitGroup [] (map fst m)) ?objs"
    using assms(2) by (simp add: UniformObjectMap_Convert_def Let_def foldl_if)
  show "wfMap (UniformObjectMap_Convert K parent m)" unfolding conv by (intro rom.wf_insAll wfMap_initGroups) simp
  have "GroupVersionKind K obj \<in> fst ` set m" if "obj \<in> set (UniformObjectMap_List m)" for obj
  proof -
    from that assms(1) obtain g n where "lookupObj m g n = Some obj" "GroupVersionKind K obj = g"
      using uom.list_lookup unfolding lookup_uom uniformlyKeyed_def by blast
    then show ?thesis by (force simp: lookupObj_def split: option.splits dest: map_of_SomeD)
  qed
  then have "dom (map_of (UniformObjectMap_Convert K parent m)) = fst ` set m"
    unfolding conv gvks_insAll gvks_initGroups by auto
  then show "fst ` set (UniformObjectMap_Convert K parent m) = fst ` set m" by (simp add: dom_map_of_conv_image_fst)
qed

section \<open>Properties\<close>

text \<open>The name under which a hook of either version finds an object of the parent's namespace.\<close>

definition requestName :: "bool \<Rightarrow> string \<Rightarrow> string \<Rightarrow> string" where
  "requestName v2 namespace name = (if v2 then namespace @ ''/'' @ name else name)"

lemma requestMap_read:
  assumes "uniformlyKeyed K m" "list_all (\<lambda>p. plainType (fst p)) m" "plainType g"
    and "GetNamespace K parent \<noteq> ''''" "CHR ''/'' \<notin> set (GetNamespace K parent)" "CHR ''/'' \<notin> set n"
  shows "readObject (encodeObjectMap (toUniformObjectMap K (Some parent) (Some (UniformObjectMap m)))) g (GetNamespace K parent @ ''/'' @ n) =
      map_option JObj (lookupObj m g (GetNamespace K parent @ ''/'' @ n))"
    and "readObject (encodeObjectMap (toRelativeObjectMap K (Some parent) (Some (UniformObjectMap m)))) g n =
      map_option JObj (lookupObj m g (GetNamespace K parent @ ''/'' @ n))"
proof -
  have "wfMap m" using assms(1) by (simp add: uniformlyKeyed_def)
  from readObject_encode [OF this assms(2,3)]
  show "readObject (encodeObjectMap (toUniformObjectMap K (Some parent) (Some (UniformObjectMap m)))) g (GetNamespace K parent @ ''/'' @ n) =
      map_option JObj (lookupObj m g (GetNamespace K parent @ ''/'' @ n))" by simp
  let ?c = "UniformObjectMap_Convert K (metaU K parent) m"
  have ns: "moNamespace (metaU K parent) = GetNamespace K parent" by (simp add: metaU_def)
  have types: "fst ` set ?c = fst ` set m" using Convert_wf(2) [OF assms(1)] assms(4) ns by simp
  have "\<forall>t \<in> fst ` set m. plainType t" using assms(2) by (simp add: list_all_iff)
  then have "list_all (\<lambda>p. plainType (fst p)) ?c" unfolding types [symmetric] by (simp add: list_all_iff)
  then have "readObject (encodeObjectMap ?c) g n = map_option JObj (lookupObj ?c g n)"
    using readObject_encode [OF Convert_wf(1) [OF assms(1)]] assms(3,4) ns by simp
  then show "readObject (encodeObjectMap (toRelativeObjectMap K (Some parent) (Some (UniformObjectMap m)))) g n =
      map_option JObj (lookupObj m g (GetNamespace K parent @ ''/'' @ n))"
    using Convert_namespaced [OF assms(1), of "metaU K parent" n g] assms(4-6) ns by simp
qed

lemma buildRequest_fields:
  "hrChildren (buildRequest K v2 controller parent children related finalizing) =
     (if v2 then toUniformObjectMap else toRelativeObjectMap) K (Some parent) (Some children)"
  "hrRelated (buildRequest K v2 controller parent children related finalizing) =
     (if v2 then toUniformObjectMap else toRelativeObjectMap) K (Some parent) (Some related)"
  "hrController (buildRequest K v2 controller parent children related finalizing) = Some controller"
  "GetRootObject (buildRequest K v2 controller parent children related finalizing) = Some parent"
  "hrFinalizing (buildRequest K v2 controller parent children related finalizing) = finalizing"
  by (simp_all add: buildRequest_def Let_def Build_v1_def Build_v2_def NewRequestBuilder_def WithController_def WithRelatedObjects_def
      WithChildren_def WithParent_def IsFinalizing_def GetRootObject_def)

end
