(* ===== verification/Control.thy ===== *)
theory Control
  imports Subscriptions Finalizer Requests
begin

text \<open>
  What the composite and the decorator controller have in common, written out twice in the source: what is known of a
  hook call, the turn of a worker around a work queue, opening and closing the informers of a controller and
  making its hooks.
\<close>

section \<open>Hook requests\<close>

definition describeParent :: "'w k8s \<Rightarrow> string \<Rightarrow> unstructured \<Rightarrow> string" where
  "describeParent K kind parent = kind @ '' '' @ GetNamespace K parent @ ''/'' @ GetName K parent"

record hookCallInfo =
  hciVersion :: HookVersion
  hciIsFinalizing :: bool
  hciHookType :: string

definition applyNamespaceDefaults :: "'w k8s \<Rightarrow> unstructured \<Rightarrow> unstructured list \<Rightarrow> unstructured list" where
  "applyNamespaceDefaults K parent children =
     map (\<lambda>child. if GetNamespace K child = '''' then SetNamespace K child (GetNamespace K parent) else child) children"

definition resourceOf :: "'w k8s \<Rightarrow> string \<Rightarrow> string \<Rightarrow> gvr" where
  "resourceOf K apiVersion resource =
     (let gv = (case ParseGroupVersion K apiVersion of Inl _ \<Rightarrow> ('''', '''') | Inr gv \<Rightarrow> gv)
      in \<lparr>gvrGroup = fst gv, gvrVersion = snd gv, gvrResource = resource\<rparr>)"

section \<open>The queue\<close>

text \<open>\<^verbatim>\<open>time.Duration(seconds) * time.Second\<close> is a product of \<^verbatim>\<open>int64\<close>.\<close>

definition secondsDuration :: "int \<Rightarrow> int" where
  "secondsDuration s = sint (word_of_int (s * 10 ^ 9) :: 64 word)"

text \<open>One turn of a worker around the sync of a key; a panic passes through after the deferred \<^verbatim>\<open>Done\<close>.\<close>

definition requeue :: "'w env \<Rightarrow> string \<Rightarrow> string \<Rightarrow> err option \<Rightarrow> ('w, err option) state" where
  "requeue E queue key err =
     (case err of
        None \<Rightarrow> do { QueueForget E queue key; State_Monad.return None }
      | Some e \<Rightarrow>
          if e = GoPanic then State_Monad.return (Some GoPanic)
          else (case asTooMany e of
                  Some afterSecond \<Rightarrow> do { QueueAddAfter E queue key (secondsDuration afterSecond); State_Monad.return None }
                | None \<Rightarrow> do { QueueAddRateLimited E queue key; State_Monad.return None }))"

definition processItem :: "'w env \<Rightarrow> string \<Rightarrow> (string \<Rightarrow> ('w, err option) pstate) \<Rightarrow> ('w, err + bool) pstate" where
  "processItem E queue syncKey =
     do { k \<leftarrow> liftFst (QueueGet E queue);
          case k of
            None \<Rightarrow> State_Monad.return (Inr False)
          | Some key \<Rightarrow>
              do { err \<leftarrow> syncKey key;
                   p \<leftarrow> liftFst (requeue E queue key err);
                   liftFst (QueueDone E queue key);
                   State_Monad.return (case p of Some e \<Rightarrow> Inl e | None \<Rightarrow> Inr True) } }"

section \<open>Informers and hooks\<close>

text \<open>The informers of the listed resources, as far as they could be opened.\<close>

fun openInformers :: "'w k8s \<Rightarrow> 'w env \<Rightarrow> string \<Rightarrow> (string \<times> string) list \<Rightarrow> InformerMap \<Rightarrow> ('w, err option \<times> InformerMap) pstate" where
  "openInformers K E what [] m = State_Monad.return (None, m)"
| "openInformers K E what ((apiVersion, resource) # rs) m =
     do { r \<leftarrow> liftFactory (Factory_Resource K E apiVersion resource);
          case r of
            Inl e \<Rightarrow> State_Monad.return (Some (wrapErr (''can't create informer for '' @ what @ '' resource'') e), m)
          | Inr informer \<Rightarrow>
              (case ParseGroupVersion K apiVersion of
                 Inl e \<Rightarrow> State_Monad.return (Some (wrapErr (''can't parse '' @ what @ '' resource groupVersion'') e), m)
               | Inr (g, v) \<Rightarrow>
                   openInformers K E what rs (SyncMap_Set m \<lparr>gvrGroup = g, gvrVersion = v, gvrResource = resource\<rparr> informer)) }"

text \<open>The two hooks of a controller.\<close>

definition newHooks :: "'w env \<Rightarrow> string \<Rightarrow> string \<Rightarrow> EndpointConfig list \<Rightarrow> Hook option \<Rightarrow> Webhook option \<Rightarrow> Hook option \<Rightarrow> Webhook option
    \<Rightarrow> ('w, err + hookExecutorImpl \<times> hookExecutorImpl) state" where
  "newHooks E name controllerType endpoints syncSpec syncWh finalizeSpec finalizeWh =
     do { cfg \<leftarrow> ResolveEndpointConfig E syncWh endpoints;
          case cfg of
            Inl e \<Rightarrow> State_Monad.return (Inl (wrapErr ''can't resolve endpoint config for sync hook'' e))
          | Inr cfg \<Rightarrow>
              do { s \<leftarrow> NewHook E syncSpec name controllerType ''sync'' cfg;
                   case s of
                     Inl e \<Rightarrow> State_Monad.return (Inl e)
                   | Inr syncHook \<Rightarrow>
                       do { cfg \<leftarrow> ResolveEndpointConfig E finalizeWh endpoints;
                            case cfg of
                              Inl e \<Rightarrow> State_Monad.return (Inl (wrapErr ''can't resolve endpoint config for finalize hook'' e))
                            | Inr cfg \<Rightarrow>
                                do { f \<leftarrow> NewHook E finalizeSpec name controllerType ''finalize'' cfg;
                                     State_Monad.return (case f of Inl e \<Rightarrow> Inl e | Inr finalizeHook \<Rightarrow> Inr (syncHook, finalizeHook)) } } } }"

text \<open>The deferred function closes what was opened when there is an error.\<close>

definition closeOnError :: "'w env \<Rightarrow> ResourceInformer list \<Rightarrow> err + 'a \<Rightarrow> ('w, err + 'a) pstate" where
  "closeOnError E informers r =
     (case r of
        Inr x \<Rightarrow> State_Monad.return (Inr x)
      | Inl e \<Rightarrow>
          do { c \<leftarrow> closeInformers E (\<lambda>_. State_Monad.return ()) informers;
               State_Monad.return (Inl (case c of None \<Rightarrow> e | Some p \<Rightarrow> p)) })"

text \<open>A custom resync period is at least a second.\<close>

definition resyncPeriodOf :: "int option \<Rightarrow> int option" where
  "resyncPeriodOf s = map_option (\<lambda>secs. max (10 ^ 9) (secs * 10 ^ 9)) s"

text \<open>The workers run once the dynamic client and every informer have synced.\<close>

fun allSynced :: "'w env \<Rightarrow> ResourceInformer list \<Rightarrow> ('w, bool) state" where
  "allSynced E [] = State_Monad.return True"
| "allSynced E (ri # ris) =
     do { b \<leftarrow> InformerHasSynced E (sriInformer (riShared ri));
          if b then allSynced E ris else State_Monad.return False }"

text \<open>Stopping a controller: no more work is taken, its informers lose its handlers and are closed, then those of its customize manager.
  Cancelling the context and waiting for the workers are not modelled.\<close>

definition stopInformers :: "'w env \<Rightarrow> string \<Rightarrow> ResourceInformer list \<Rightarrow> Customize.Manager \<Rightarrow> ('w, err option) pstate" where
  "stopInformers E queue informers rm =
     do { liftFst (QueueShutDown E queue);
          r \<leftarrow> closeInformers E unsubscribeHandlers informers;
          case r of
            Some e \<Rightarrow> State_Monad.return (Some e)
          | None \<Rightarrow> Manager_Stop E rm }"

section \<open>Subscriptions\<close>

lemma mset_SyncMap_Set: "k \<notin> fst ` set m \<Longrightarrow> mset (map snd (SyncMap_Set m k v)) = add_mset v (mset (map snd m))"
  by (induction m) (auto simp: SyncMap_Set_def SyncMap_Store_def)

lemma keys_SyncMap_Set: "fst ` set (SyncMap_Set m k v) = insert k (fst ` set m)"
  by (simp add: SyncMap_Set_def SyncMap_Store_def dom_update)

lemma subscribed_openInformers:
  assumes "fresh_law E alloc"
  shows "\<forall>p \<in> set rs. \<exists>gv. ParseGroupVersion K (fst p) = Inr gv \<Longrightarrow> distinct (map (\<lambda>p. resourceOf K (fst p) (snd p)) rs) \<Longrightarrow>
     fst ` set m \<inter> (\<lambda>p. resourceOf K (fst p) (snd p)) ` set rs = {} \<Longrightarrow>
     hoare (subscribed alloc (M + mset (map snd m))) (openInformers K E what rs m) (\<lambda>x. subscribed alloc (M + mset (map snd (snd x))))"
proof (induction rs arbitrary: m)
  case Nil
  then show ?case by (simp add: hoare_return)
next
  case (Cons p rs)
  obtain a r where p: "p = (a, r)" by fastforce
  obtain g v where gv: "ParseGroupVersion K a = Inr (g, v)" using Cons.prems(1) p by auto
  let ?k = "\<lparr>gvrGroup = g, gvrVersion = v, gvrResource = r\<rparr>"
  have k: "resourceOf K a r = ?k" by (simp add: resourceOf_def gv)
  have new: "?k \<notin> fst ` set m" using Cons.prems(3) by (simp add: p k)
  have tail: "hoare (subscribed alloc (M + mset (map snd (SyncMap_Set m ?k ri)))) (openInformers K E what rs (SyncMap_Set m ?k ri))
      (\<lambda>x. subscribed alloc (M + mset (map snd (snd x))))" for ri
    by (rule Cons.IH) (use Cons.prems in \<open>auto simp: p k keys_SyncMap_Set\<close>)
  have "hoare (subscribed alloc (case x of Inl _ \<Rightarrow> M + mset (map snd m) | Inr ri \<Rightarrow> add_mset ri (M + mset (map snd m))))
      (case x of Inl e \<Rightarrow> State_Monad.return (Some (f e), m) | Inr ri \<Rightarrow> openInformers K E what rs (SyncMap_Set m ?k ri))
      (\<lambda>x. subscribed alloc (M + mset (map snd (snd x))))" for x and f :: "err \<Rightarrow> err"
    using tail by (cases x) (simp_all only: hoare_return mset_SyncMap_Set [OF new] sum.case snd_conv union_mset_add_mset_right)
  then show ?case
    by (simp only: p openInformers.simps gv sum.case prod.case) (rule hoare_bind [OF subscribed_open [OF assms]])
qed

text \<open>Resources that are listed once each, with API versions that parse.\<close>

definition uniqueResources :: "'w k8s \<Rightarrow> (string \<times> string) list \<Rightarrow> bool" where
  "uniqueResources K rs \<longleftrightarrow>
     (\<forall>p \<in> set rs. \<exists>gv. ParseGroupVersion K (fst p) = Inr gv) \<and> distinct (map (\<lambda>p. resourceOf K (fst p) (snd p)) rs)"

lemma growing_newHooks:
  assumes "growing_env alloc E"
  shows "growing alloc (newHooks E name t endpoints s sw f fw)"
  unfolding newHooks_def
  by (auto intro!: growing_rules growing_ResolveEndpointConfig growing_NewHook assms split: sum.split)

lemma subscribed_closeOnError:
  assumes "fresh_law E alloc"
  shows "hoare (\<lambda>s. case r of Inl _ \<Rightarrow> subscribed alloc (M + mset ris) s | Inr x \<Rightarrow> R x s) (closeOnError E ris r)
     (\<lambda>y s. case y of Inl _ \<Rightarrow> subscribed alloc M s | Inr x \<Rightarrow> R x s)"
proof (cases r)
  case (Inl e)
  have "hoare (subscribed alloc (M + mset ris)) (closeInformers E (\<lambda>_. State_Monad.return ()) ris)
      (\<lambda>x s. x = None \<and> subscribed alloc (M + mset ris - mset ris) s)"
    by (rule subscribed_closeInformers [OF assms preserves_return]) simp
  then show ?thesis
    unfolding Inl closeOnError_def sum.case by (rule hoare_bind) (auto intro: hoare_return)
qed (simp add: closeOnError_def hoare_return)

lemma relatedInformers_closeInformers: "relatedInformers rm (snd (run_state (closeInformers E unsubscribeHandlers ris) s)) = relatedInformers rm s"
proof -
  have "pcRelated (snd (snd (run_state (closeInformers E unsubscribeHandlers ris) (w, p)))) = pcRelated p" for w p
    by (induction ris arbitrary: w p) (auto simp: unsubscribeHandlers_def case_prod_beta split: option.split)
  then show ?thesis unfolding relatedInformers_def by (metis prod.collapse)
qed

lemma hoare_stopInformers:
  assumes "fresh_law E alloc" "growing_env alloc E" "mset (map snd related @ ris @ managerInformers rm) \<subseteq># M"
  shows "hoare (\<lambda>s. subscribed alloc M s \<and> relatedInformers rm s = related) (stopInformers E queue ris rm)
     (\<lambda>x s. x = None \<and> subscribed alloc (M - mset (map snd related @ ris @ managerInformers rm)) s)"
proof -
  let ?rest = "map snd related @ managerInformers rm"
  have all: "mset (map snd related @ ris @ managerInformers rm) = mset ris + mset ?rest" by simp
  note sub = submultiset_split [OF assms(3) [unfolded all]]
  have shut: "hoare (\<lambda>s. subscribed alloc M s \<and> relatedInformers rm s = related) (liftFst (QueueShutDown E queue))
      (\<lambda>_ s. subscribed alloc M s \<and> relatedInformers rm s = related)"
    by (rule hoare_frame [OF hoare_preserves [OF subscribed_world [OF growing_envD(8) [OF assms(2)]]]]) (auto simp: relatedInformers_def)
  have close: "hoare (\<lambda>s. subscribed alloc M s \<and> relatedInformers rm s = related) (closeInformers E unsubscribeHandlers ris)
      (\<lambda>x s. (x = None \<and> subscribed alloc (M - mset ris) s) \<and> relatedInformers rm s = related)"
    by (rule hoare_frame, rule subscribed_closeInformers [OF assms(1) subscribed_proc(1) sub(1)], rule relatedInformers_closeInformers)
  have "hoare (\<lambda>s. (x = None \<and> subscribed alloc (M - mset ris) s) \<and> relatedInformers rm s = related)
      (case x of Some e \<Rightarrow> State_Monad.return (Some e) | None \<Rightarrow> Manager_Stop E rm)
      (\<lambda>x s. x = None \<and> subscribed alloc (M - mset ris - mset ?rest) s)" for x
    using hoare_Manager_Stop [OF assms(1) sub(2)] by (cases x) (auto simp: hoare_def)
  then have "hoare (\<lambda>s. subscribed alloc M s \<and> relatedInformers rm s = related) (stopInformers E queue ris rm)
      (\<lambda>x s. x = None \<and> subscribed alloc (M - mset ris - mset ?rest) s)"
    unfolding stopInformers_def by (intro hoare_bind [OF shut] hoare_bind [OF close])
  then show ?thesis unfolding all by (simp add: diff_diff_add)
qed

definition emptyProc :: proc where
  "emptyProc = \<lparr>pcFactory = NewSharedInformerFactory podClientset 0, pcHandlers = [], pcLastUpdated = [], pcRelated = []\<rparr>"

lemma emptyProc_subscribed: "subscribed alloc {#} (w, emptyProc)"
  by (simp add: subscribed_def emptyProc_def factory_inv_start)

lemma refE_growing: "growing_env (\<lambda>w. {..<length (wLog w)}) refE"
  by (auto simp: growing_env_def growing_def preserves_def refEnv_simps logE_def)

section \<open>Keys that wait\<close>

text \<open>The work queue: keys that are or will be handed to a worker.\<close>

definition queue_law :: "'w env \<Rightarrow> (string \<Rightarrow> 'w \<Rightarrow> string set) \<Rightarrow> bool" where
  "queue_law E pending \<longleftrightarrow>
     (\<forall>q k w. insert k (pending q w) \<subseteq> pending q (snd (run_state (QueueAdd E q k) w))) \<and>
     (\<forall>q k d w. insert k (pending q w) \<subseteq> pending q (snd (run_state (QueueAddAfter E q k d) w))) \<and>
     (\<forall>q k w. insert k (pending q w) \<subseteq> pending q (snd (run_state (QueueAddRateLimited E q k) w))) \<and>
     (\<forall>q k w. pending q w \<subseteq> pending q (snd (run_state (QueueForget E q k) w))) \<and>
     (\<forall>q k w. pending q w \<subseteq> pending q (snd (run_state (QueueDone E q k) w)))"

lemma requeue_pending:
  assumes "queue_law E pending" "e \<noteq> GoPanic" "run_state (requeue E q key (Some e)) w = (r, w')"
  shows "r = None \<and> key \<in> pending q w'"
  using assms by (auto simp: requeue_def queue_law_def case_prod_beta split: option.splits)

lemma processItem_requeues:
  assumes "queue_law E pending" "run_state (QueueGet E q) w = (Some key, w1)"
    and "run_state (syncKey key) (w1, p) = (Some e, (w2, p2))" "e \<noteq> GoPanic"
  shows "\<exists>w'. run_state (processItem E q syncKey) (w, p) = (Inr True, (w', p2)) \<and> key \<in> pending q w'"
proof -
  obtain r w3 where rq: "run_state (requeue E q key (Some e)) w2 = (r, w3)" by (metis surj_pair)
  note rp = requeue_pending [OF assms(1,4) rq]
  have "key \<in> pending q (snd (run_state (QueueDone E q key) w3))"
    using assms(1) rp unfolding queue_law_def by blast
  then show ?thesis using assms(2,3) rq rp by (simp add: processItem_def)
qed

lemma secondsDuration_eq: "secondsDuration n = signed_take_bit 63 (n * 10 ^ 9)"
  unfolding secondsDuration_def by (subst sint_sbintrunc') simp


lemma secondsDuration_wraps: "secondsDuration 9223372037 < 0"
  by (simp add: secondsDuration_eq signed_take_bit_eq_take_bit_shift take_bit_eq_mod)

section \<open>Instances for witnesses\<close>

lemma refE_quiet: "quiet (\<lambda>w. (''shutDown'', '''') \<notin> set (wLog w)) refK refE"
  by (simp add: quiet_def preserves_def refK_simps refEnv_simps logE_def refGet_def del: split_paired_All)

lemma ManageChildren_no_kinds: "preserves (\<lambda>(w, c). P w) (ManageChildren K \<lparr>csResources = \<lparr>rmGroupVersions = None\<rparr>\<rparr> m parent observed desired opts)"
  unfolding ManageChildren_def manageDeletes_def manageUpdates_def Clientset_Kind_def ResourceMap_GetKind_def
  by (auto intro!: pres split: option.split)

definition queueEnv :: "world env" where
  "queueEnv = refE\<lparr>QueueGet := (\<lambda>_. State_Monad.return (Some ''ns/p'')), SplitMetaNamespaceKey := (\<lambda>_. Inl (LibErr ''bad key''))\<rparr>"

definition refPending :: "string \<Rightarrow> world \<Rightarrow> string set" where
  "refPending q w = {k. (''add'', k) \<in> set (wLog w) \<or> (''addAfter'', k) \<in> set (wLog w) \<or> (''addRateLimited'', k) \<in> set (wLog w)}"

lemma queueEnv_law: "queue_law queueEnv refPending"
  by (auto simp: queue_law_def queueEnv_def refEnv_simps logE_def refPending_def)

lemma open_pods:
  assumes "run_state (liftFactory (Factory_Resource refK refE ''v1'' ''pods'')) (podStore, emptyProc) = (x, s)"
  shows "\<exists>ri. x = Inr ri \<and> subscribed (\<lambda>w. {..<length (wLog w)}) {#ri#} s" "pcRelated (snd s) = []"
proof -
  obtain ri where x: "x = Inr ri"
    using assms by (auto simp: Factory_Resource_def getFactory_def modifyFactory_def newResourceInformer_def newSharedResourceInformer_def
        emptyProc_def NewSharedInformerFactory_def podClientset_Resource refEnv_simps logE_def Let_def)
  then show "\<exists>ri. x = Inr ri \<and> subscribed (\<lambda>w. {..<length (wLog w)}) {#ri#} s"
    using hoareD [OF subscribed_open [OF refE_fresh] emptyProc_subscribed assms] by simp
  show "pcRelated (snd s) = []" using assms by (auto simp: emptyProc_def)
qed

end
