(* ===== verification/Decorator.thy ===== *)
theory Decorator
  imports Control
begin

text \<open>
  The decorator controller's work on one object: \<^verbatim>\<open>pkg/controller/decorator/{controller,hooks,selector}.go\<close> and the
  request builders of \<^verbatim>\<open>decorator/api\<close>.  A decorator adds attachments to objects it selects and keeps labels, annotations and status
  on them.  Events, queues and the life of a controller are in theory \<open>Decorator_Control\<close>.  Where a method
  has the name of one of the composite controller's, the definition has the prefix \<open>Decorator_\<close>.
\<close>

section \<open>Selectors\<close>

record decoratorSelector =
  labelSelectors :: "(string, selector) SyncMap"
  annotationSelectors :: "(string, selector) SyncMap"

definition selectorMapKey :: "string \<Rightarrow> string \<Rightarrow> string" where
  "selectorMapKey apiGroup kind = kind @ ''.'' @ apiGroup"

fun addSelectors :: "'w k8s \<Rightarrow> ResourceMap \<Rightarrow> DecoratorControllerResourceRule list \<Rightarrow> decoratorSelector \<Rightarrow> err + decoratorSelector" where
  "addSelectors K resources [] ds = Inr ds"
| "addSelectors K resources (parent # parents) ds =
     (case ResourceMap_Get resources (rrAPIVersion parent) (rrResource parent) of
        None \<Rightarrow> Inl (Errorf (''can't find resource '' @ fmtQ (rrResource parent) @ '' in apiVersion '' @ fmtQ (rrAPIVersion parent)) None)
      | Some resource \<Rightarrow>
          (let key = selectorMapKey (arGroup resource) (arKind resource) in
           case (case drLabelSelector parent of None \<Rightarrow> Inr (Everything K) | Some s \<Rightarrow> LabelSelectorAsSelector K s) of
             Inl e \<Rightarrow> Inl (wrapErr (''can't convert label selector for parent resource '' @ fmtQ (rrResource parent) @
                        '' in apiVersion '' @ fmtQ (rrAPIVersion parent)) e)
           | Inr labelSelector \<Rightarrow>
               (case (case drAnnotationSelector parent of
                        None \<Rightarrow> Inr (Everything K)
                      | Some a \<Rightarrow> LabelSelectorAsSelector K \<lparr>MatchLabels = asMatchAnnotations a, MatchExpressions = asMatchExpressions a\<rparr>) of
                  Inl e \<Rightarrow> Inl (wrapErr (''can't convert annotation selector for parent resource '' @ fmtQ (rrResource parent) @
                             '' in apiVersion '' @ fmtQ (rrAPIVersion parent)) e)
                | Inr annotationSelector \<Rightarrow>
                    addSelectors K resources parents
                      \<lparr>labelSelectors = SyncMap_Store (labelSelectors ds) key labelSelector,
                       annotationSelectors = SyncMap_Store (annotationSelectors ds) key annotationSelector\<rparr>)))"

definition newDecoratorSelector :: "'w k8s \<Rightarrow> ResourceMap \<Rightarrow> DecoratorController \<Rightarrow> err + decoratorSelector" where
  "newDecoratorSelector K resources dc = addSelectors K resources (dcsResources (dcSpec dc)) \<lparr>labelSelectors = [], annotationSelectors = []\<rparr>"

definition decoratorSelector_Matches :: "'w k8s \<Rightarrow> decoratorSelector \<Rightarrow> unstructured \<Rightarrow> bool" where
  "decoratorSelector_Matches K ds obj =
     (let key = selectorMapKey (fst (ParseAPIVersion (GetAPIVersion K obj))) (GetKind K obj) in
      case (SyncMap_Load (labelSelectors ds) key, SyncMap_Load (annotationSelectors ds) key) of
        (Some labelSelector, Some annotationSelector) \<Rightarrow>
          Matches labelSelector (GetLabels K obj) \<and> Matches annotationSelector (GetAnnotations K obj)
      | _ \<Rightarrow> False)"

section \<open>The controller\<close>

type_synonym attachmentStrategyMap = "(string \<times> DecoratorControllerAttachmentUpdateStrategy) list"

record decoratorController =
  dtDC :: DecoratorController
  dtResources :: ResourceMap
  dtParentKinds :: GroupKindMap
  dtParentSelector :: decoratorSelector
  dtDynClient :: Clientset
  dtQueue :: string
  dtUpdateStrategy :: attachmentStrategyMap
  dtParentInformers :: InformerMap
  dtChildInformers :: InformerMap
  dtNumWorkers :: nat
  dtSsaOptions :: ApplyOptions
  dtFinalizer :: Finalizer.Manager
  dtCustomize :: Customize.Manager
  dtSyncHook :: hookExecutorImpl
  dtFinalizeHook :: hookExecutorImpl

text \<open>The test that opens every operation on an object: it is not selected and lacks the finalizer.\<close>

definition ignoresObject :: "'w k8s \<Rightarrow> decoratorController \<Rightarrow> unstructured \<Rightarrow> bool" where
  "ignoresObject K dt parent \<longleftrightarrow>
     \<not> decoratorSelector_Matches K (dtParentSelector dt) parent \<and> \<not> ContainsFinalizer K parent (fmName (dtFinalizer dt))"

definition attachmentMethod :: "attachmentStrategyMap \<Rightarrow> string \<Rightarrow> string \<Rightarrow> ChildUpdateMethod" where
  "attachmentMethod m apiGroup kind =
     (case map_of m (selectorMapKey apiGroup kind) of
        None \<Rightarrow> ChildUpdateOnDelete
      | Some strategy \<Rightarrow> if dausMethod strategy = '''' then ChildUpdateOnDelete else dausMethod strategy)"

fun addAttachmentStrategies :: "ResourceMap \<Rightarrow> DecoratorControllerAttachmentRule list \<Rightarrow> attachmentStrategyMap \<Rightarrow> err + attachmentStrategyMap" where
  "addAttachmentStrategies resources [] m = Inr m"
| "addAttachmentStrategies resources (child # children) m =
     (case daUpdateStrategy child of
        None \<Rightarrow> addAttachmentStrategies resources children m
      | Some strategy \<Rightarrow>
          if dausMethod strategy = ChildUpdateOnDelete then addAttachmentStrategies resources children m
          else (case ResourceMap_Get resources (rrAPIVersion child) (rrResource child) of
                  None \<Rightarrow> Inl (Errorf (''can't find child resource '' @ fmtQ (rrResource child) @ '' in '' @ rrAPIVersion child) None)
                | Some resource \<Rightarrow>
                    addAttachmentStrategies resources children
                      (AList.update (selectorMapKey (fst (ParseAPIVersion (rrAPIVersion child))) (arKind resource)) strategy m)))"

definition Decorator_makeUpdateStrategyMap :: "ResourceMap \<Rightarrow> DecoratorController \<Rightarrow> err + attachmentStrategyMap" where
  "Decorator_makeUpdateStrategyMap resources dc = addAttachmentStrategies resources (dcsAttachments (dcSpec dc)) []"

section \<open>Queue keys\<close>

text \<open>An object's key names its kind too, since one queue holds objects of several; the handlers never see an \<^verbatim>\<open>ExplicitKey\<close>.\<close>

fun parentQueueKey :: "'w k8s \<Rightarrow> eventObj \<Rightarrow> err + string" where
  "parentQueueKey K (EvTombstone key _) = Inr key"
| "parentQueueKey K (EvObject o') =
     Inr (GetAPIVersion K o' @ '':'' @ GetKind K o' @ '':'' @ GetNamespace K o' @ '':'' @ GetName K o')"
| "parentQueueKey K EvOther = Inl (Errorf ''can't get key for object; expected *unstructured.Unstructured'' None)"

definition splitParentQueueKey :: "string \<Rightarrow> err + string \<times> string \<times> string \<times> string" where
  "splitParentQueueKey key =
     (let parts = splitN (CHR '':'') 4 key in
      if length parts \<noteq> 4 then Inl (Errorf (''invalid parent key: '' @ fmtQ key) None)
      else Inr (parts ! 0, parts ! 1, parts ! 2, parts ! 3))"

definition Decorator_enqueueParentObject :: "'w k8s \<Rightarrow> 'w env \<Rightarrow> decoratorController \<Rightarrow> eventObj \<Rightarrow> ('w, unit) state" where
  "Decorator_enqueueParentObject K E dt obj =
     (if (case obj of EvObject parent \<Rightarrow> ignoresObject K dt parent | _ \<Rightarrow> False) then State_Monad.return ()
      else case parentQueueKey K obj of
        Inl _ \<Rightarrow> State_Monad.return ()
      | Inr key \<Rightarrow> QueueAdd E (dtQueue dt) key)"

definition Decorator_enqueueParentObjectAfter :: "'w k8s \<Rightarrow> 'w env \<Rightarrow> decoratorController \<Rightarrow> eventObj \<Rightarrow> int \<Rightarrow> ('w, unit) state" where
  "Decorator_enqueueParentObjectAfter K E dt obj delay =
     (case parentQueueKey K obj of
        Inl _ \<Rightarrow> State_Monad.return ()
      | Inr key \<Rightarrow> QueueAddAfter E (dtQueue dt) key delay)"

section \<open>Hooks\<close>

definition Decorator_shouldCallFinalizeHook :: "'w k8s \<Rightarrow> decoratorController \<Rightarrow> unstructured \<Rightarrow> bool" where
  "Decorator_shouldCallFinalizeHook K dt parent \<longleftrightarrow>
     Hook_IsEnabled (dtFinalizeHook dt) \<and>
     (GetDeletionTimestamp K parent \<noteq> None \<or> \<not> decoratorSelector_Matches K (dtParentSelector dt) parent)"

definition Decorator_determineHookToCall :: "'w k8s \<Rightarrow> decoratorController \<Rightarrow> unstructured \<Rightarrow> hookCallInfo option" where
  "Decorator_determineHookToCall K dt parent =
     (if Decorator_shouldCallFinalizeHook K dt parent
      then Some \<lparr>hciVersion = hookExecutor_GetVersion (dtFinalizeHook dt), hciIsFinalizing = True, hciHookType = ''finalize''\<rparr>
      else if Hook_IsEnabled (dtSyncHook dt)
      then Some \<lparr>hciVersion = hookExecutor_GetVersion (dtSyncHook dt), hciIsFinalizing = False, hciHookType = ''sync''\<rparr>
      else None)"

definition Decorator_buildHookRequest :: "'w k8s \<Rightarrow> 'w env \<Rightarrow> decoratorController \<Rightarrow> hookCallInfo \<Rightarrow> unstructured \<Rightarrow> ObjectMap \<Rightarrow> ObjectMap \<Rightarrow> json" where
  "Decorator_buildHookRequest K E dt hookInfo parent observedChildren related =
     buildDecoratorRequest K (EncodeDecorator E) (hciVersion hookInfo = HookVersionV2) (dtDC dt) parent observedChildren related (hciIsFinalizing hookInfo)"

definition Decorator_callHookExecutor :: "'w k8s \<Rightarrow> 'w env \<Rightarrow> decoratorController \<Rightarrow> hookCallInfo \<Rightarrow> json \<Rightarrow> unstructured
    \<Rightarrow> ('w, err + DecoratorHookResponse) state" where
  "Decorator_callHookExecutor K E dt hookInfo request parent =
     Hook_Call K E (if hciIsFinalizing hookInfo then dtFinalizeHook dt else dtSyncHook dt) (DecodeDecorator E) request parent"

text \<open>The responses of both versions have the same fields, so converting one to the other is the identity.\<close>

definition Decorator_executeHook :: "'w k8s \<Rightarrow> 'w env \<Rightarrow> decoratorController \<Rightarrow> hookCallInfo \<Rightarrow> json \<Rightarrow> unstructured
    \<Rightarrow> ('w, err + DecoratorHookResponse) state" where
  "Decorator_executeHook K E dt hookInfo request parent =
     do { r \<leftarrow> Decorator_callHookExecutor K E dt hookInfo request parent;
          State_Monad.return (case r of
              Inl e \<Rightarrow> Inl (wrapErr (hciHookType hookInfo @ '' hook failed (version='' @
                (if hciVersion hookInfo = HookVersionV2 then ''v2'' else ''v1'') @ '')'') e)
            | Inr response \<Rightarrow> Inr (response\<lparr>dhrAttachments := applyNamespaceDefaults K parent (dhrAttachments response)\<rparr>)) }"

definition Decorator_callHook :: "'w k8s \<Rightarrow> 'w env \<Rightarrow> decoratorController \<Rightarrow> unstructured \<Rightarrow> ObjectMap \<Rightarrow> ObjectMap
    \<Rightarrow> ('w, err + DecoratorHookResponse) state" where
  "Decorator_callHook K E dt parent observedChildren related =
     (if dcsHooks (dcSpec (dtDC dt)) = None then State_Monad.return (Inl (Errorf ''no hooks defined'' None))
      else case Decorator_determineHookToCall K dt parent of
        None \<Rightarrow> State_Monad.return (Inl (Errorf ''no enabled hooks found'' None))
      | Some hookInfo \<Rightarrow>
          Decorator_executeHook K E dt hookInfo (Decorator_buildHookRequest K E dt hookInfo parent observedChildren related) parent)"

section \<open>Attachments\<close>

definition decoratorControllerAnnotation :: string where
  "decoratorControllerAnnotation = ''metacontroller.k8s.io/decorator-controller''"

text \<open>The annotation that remembers which decorator made an object; a missing entry reads as the empty string.\<close>

definition decoratedBy :: "'w k8s \<Rightarrow> unstructured \<Rightarrow> string" where
  "decoratedBy K obj = (case map_of (orNil (GetAnnotations K obj)) decoratorControllerAnnotation of None \<Rightarrow> '''' | Some v \<Rightarrow> v)"

definition ownAttachment :: "'w k8s \<Rightarrow> decoratorController \<Rightarrow> unstructured \<Rightarrow> unstructured \<Rightarrow> bool" where
  "ownAttachment K dt parent obj \<longleftrightarrow>
     (case GetControllerOf K (GetOwnerReferences K obj) of None \<Rightarrow> False | Some controllerRef \<Rightarrow> orUID controllerRef = GetUID K parent) \<and>
     decoratedBy K obj = dcName (dtDC dt)"

fun childrenOf :: "'w k8s \<Rightarrow> 'w env \<Rightarrow> decoratorController \<Rightarrow> unstructured \<Rightarrow> DecoratorControllerAttachmentRule list \<Rightarrow> objectMap
    \<Rightarrow> ('w, err + objectMap) state" where
  "childrenOf K E dt parent [] childMap = State_Monad.return (Inr childMap)"
| "childrenOf K E dt parent (child # children) childMap =
     (case SyncMap_Get (dtChildInformers dt) (resourceOf K (rrAPIVersion child) (rrResource child)) of
        None \<Rightarrow> State_Monad.return (Inl (Errorf (''no informer for resource '' @ fmtQ (rrResource child) @ '' in apiVersion '' @ fmtQ (rrAPIVersion child)) None))
      | Some informer \<Rightarrow>
          do { r \<leftarrow> ListerList E (sriInformer (riShared informer)) (GetNamespace K parent) (Everything K);
               case r of
                 Inl e \<Rightarrow> State_Monad.return (Inl (wrapErr (''can't list children for resource '' @ fmtQ (rrResource child) @
                            '' in apiVersion '' @ fmtQ (rrAPIVersion child)) e))
               | Inr all \<Rightarrow>
                   (case ResourceMap_Get (dtResources dt) (rrAPIVersion child) (rrResource child) of
                      None \<Rightarrow> State_Monad.return (Inl (Errorf (''can't find resource '' @ fmtQ (rrResource child) @
                                '' in apiVersion '' @ fmtQ (rrAPIVersion child)) None))
                    | Some resource \<Rightarrow>
                        (case APIResource_GroupVersionKind K resource of
                           Inl e \<Rightarrow> State_Monad.return (Inl e)
                         | Inr childGVK \<Rightarrow>
                             childrenOf K E dt parent children
                               (foldl (UniformObjectMap_Insert K (metaU K parent)) (UniformObjectMap_InitGroup childMap childGVK)
                                  (filter (ownAttachment K dt parent) all)))) })"

definition getChildren :: "'w k8s \<Rightarrow> 'w env \<Rightarrow> decoratorController \<Rightarrow> unstructured \<Rightarrow> ('w, err + objectMap) state" where
  "getChildren K E dt parent = childrenOf K E dt parent (dcsAttachments (dcSpec (dtDC dt))) []"

definition annotateChild :: "'w k8s \<Rightarrow> decoratorController \<Rightarrow> unstructured \<Rightarrow> unstructured" where
  "annotateChild K dt child =
     (if decoratedBy K child = dcName (dtDC dt) then child
      else SetAnnotations K child (jput decoratorControllerAnnotation (dcName (dtDC dt)) (orNil (GetAnnotations K child))))"

definition annotateChildren :: "'w k8s \<Rightarrow> decoratorController \<Rightarrow> objectMap \<Rightarrow> objectMap" where
  "annotateChildren K dt m = map (\<lambda>(g, grp). (g, map (\<lambda>(n, child). (n, annotateChild K dt child)) grp)) m"

section \<open>Syncing an object\<close>

text \<open>A null value deletes the key; the second component says whether anything changed.\<close>

definition updateEntry :: "strmap \<times> bool \<Rightarrow> string \<times> string option \<Rightarrow> strmap \<times> bool" where
  "updateEntry s u =
     (case snd u of
        None \<Rightarrow> if map_of (fst s) (fst u) \<noteq> None then (jdel (fst u) (fst s), True) else s
      | Some v \<Rightarrow> if map_of (fst s) (fst u) = Some v then s else (jput (fst u) v (fst s), True))"

definition updateStringMap :: "strmap \<Rightarrow> (string \<times> string option) list \<Rightarrow> strmap \<times> bool" where
  "updateStringMap dest updates = foldl updateEntry (dest, False) updates"

text \<open>A request that found the object gone or changed meanwhile ends the sync without an error.\<close>

definition swallow :: "'w k8s \<Rightarrow> string \<Rightarrow> err \<Rightarrow> err option" where
  "swallow K msg e = (if IsNotFound K e \<or> IsConflict K e then None else Some (wrapErr msg e))"

text \<open>The status, through its own endpoint where there is one; the result is the object for the update that follows.\<close>

definition writeStatus :: "'w k8s \<Rightarrow> ResourceClient \<Rightarrow> unstructured \<Rightarrow> bool \<Rightarrow> unstructured \<Rightarrow> ('w, err option + unstructured) state" where
  "writeStatus K parentClient parent statusChanged updatedParent =
     (if statusChanged \<and> HasSubresource (rcAPIResource parentClient) ''status'' then
        do { r \<leftarrow> ApiUpdateStatus K (rcInterface (ResourceClient_Namespace parentClient (GetNamespace K parent))) updatedParent;
             State_Monad.return (case r of
                 Inl e \<Rightarrow> Inl (swallow K ''can't update status'' e)
               | Inr result \<Rightarrow> Inr (SetResourceVersion K updatedParent (GetResourceVersion K result))) }
      else State_Monad.return (Inr updatedParent))"

text \<open>Writes labels, annotations, status and the removal of the finalizer, if anything changed.  \<open>Some r\<close> ends the sync with
  \<open>r\<close>.  A nil status is stored as a null.\<close>

definition Decorator_updateParent :: "'w k8s \<Rightarrow> decoratorController \<Rightarrow> ResourceClient \<Rightarrow> unstructured \<Rightarrow> DecoratorHookResponse
    \<Rightarrow> ('w, err option option) state" where
  "Decorator_updateParent K dt parentClient parent syncResult =
     (case NestedMap K parent [''status''] of
        Inl e \<Rightarrow> State_Monad.return (Some (Some e))
      | Inr parentStatus \<Rightarrow>
          (let status = (case dhrStatus syncResult of None \<Rightarrow> parentStatus | Some s \<Rightarrow> Some s);
               (parentLabels, labelsChanged) = updateStringMap (orNil (GetLabels K parent)) (dhrLabels syncResult);
               (parentAnnotations, annotationsChanged) = updateStringMap (orNil (GetAnnotations K parent)) (dhrAnnotations syncResult);
               statusChanged = (parentStatus \<noteq> status)
           in if labelsChanged \<or> annotationsChanged \<or> statusChanged \<or>
                 (dhrFinalized syncResult \<and> ContainsFinalizer K parent (fmName (dtFinalizer dt)))
              then (case SetNestedField K (SetAnnotations K (SetLabels K parent parentLabels) parentAnnotations)
                           (case status of None \<Rightarrow> JNull | Some s \<Rightarrow> JObj s) [''status''] of
                      Inl e \<Rightarrow> State_Monad.return (Some (Some e))
                    | Inr updatedParent \<Rightarrow>
                        do { s \<leftarrow> writeStatus K parentClient parent statusChanged updatedParent;
                             case s of
                               Inl r \<Rightarrow> State_Monad.return (Some r)
                             | Inr updatedParent \<Rightarrow>
                                 do { r \<leftarrow> ApiUpdate K (rcInterface (ResourceClient_Namespace parentClient (GetNamespace K parent)))
                                        (if dhrFinalized syncResult then RemoveFinalizerFrom K updatedParent (fmName (dtFinalizer dt)) else updatedParent);
                                      State_Monad.return (case r of
                                          Inr _ \<Rightarrow> None
                                        | Inl e \<Rightarrow> Some (swallow K (''can't update '' @ describeParent K (GetKind K parent) parent) e)) } })
              else State_Monad.return None))"

definition Decorator_manageChildren :: "'w k8s \<Rightarrow> decoratorController \<Rightarrow> unstructured \<Rightarrow> objectMap \<Rightarrow> objectMap \<Rightarrow> ('w, err option) cstate" where
  "Decorator_manageChildren K dt parent observedChildren desiredChildren =
     (if GetDeletionTimestamp K parent = None \<or> ShouldFinalize K (dtFinalizer dt) parent then
        do { r \<leftarrow> ManageChildren K (dtDynClient dt) (attachmentMethod (dtUpdateStrategy dt)) parent
               (Some (UniformObjectMap observedChildren)) (Some (UniformObjectMap desiredChildren)) (dtSsaOptions dt);
             State_Monad.return (map_option (wrapErr (''can't reconcile children for '' @ describeParent K (GetKind K parent) parent)) r) }
      else State_Monad.return None)"

definition Decorator_applyResult :: "'w k8s \<Rightarrow> 'w env \<Rightarrow> decoratorController \<Rightarrow> ResourceClient \<Rightarrow> unstructured \<Rightarrow> objectMap \<Rightarrow> DecoratorHookResponse
    \<Rightarrow> ('w, err option) pstate" where
  "Decorator_applyResult K E dt parentClient parent observedChildren syncResult =
     do { (if dhrResyncAfterSeconds syncResult > 0
           then liftFst (Decorator_enqueueParentObjectAfter K E dt (EvObject parent) \<lfloor>dhrResyncAfterSeconds syncResult * 10 ^ 9\<rfloor>)
           else State_Monad.return ());
          u \<leftarrow> liftFst (Decorator_updateParent K dt parentClient parent syncResult);
          case u of
            Some r \<Rightarrow> State_Monad.return r
          | None \<Rightarrow> liftCache (Decorator_manageChildren K dt parent observedChildren
              (annotateChildren K dt (MakeUniformObjectMap K (metaU K parent) (dhrAttachments syncResult)))) }"

definition Decorator_syncParentObject :: "'w k8s \<Rightarrow> 'w env \<Rightarrow> decoratorController \<Rightarrow> unstructured \<Rightarrow> ('w, err option) pstate" where
  "Decorator_syncParentObject K E dt parent =
     do { ce \<leftarrow> liftFst (CtxErr K);
          case ce of
            Some e \<Rightarrow> State_Monad.return (Some e)
          | None \<Rightarrow>
              if ignoresObject K dt parent then State_Monad.return None
              else case Clientset_Kind K (dtDynClient dt) (GetAPIVersion K parent) (GetKind K parent) of
                Inl e \<Rightarrow> State_Monad.return (Some (wrapErr (''can't get client for '' @ describeParent K (GetKind K parent) parent) e))
              | Inr parentClient \<Rightarrow>
                  do { f \<leftarrow> liftFst (SyncObject K (dtFinalizer dt) parentClient parent);
                       case f of
                         Inl e \<Rightarrow> State_Monad.return (Some (wrapErr (''can't sync finalizer for '' @ describeParent K (GetKind K parent) parent) e))
                       | Inr parent \<Rightarrow>
                           if ignoresObject K dt parent then State_Monad.return None
                           else
                             do { c \<leftarrow> liftFst (getChildren K E dt parent);
                                  case c of
                                    Inl e \<Rightarrow> State_Monad.return (Some e)
                                  | Inr observedChildren \<Rightarrow>
                                      do { r \<leftarrow> GetRelatedObjects K E (Decorator_enqueueParentObject K E dt) (dtCustomize dt) parent;
                                           case r of
                                             Inl e \<Rightarrow> State_Monad.return (Some e)
                                           | Inr relatedObjects \<Rightarrow>
                                               do { s \<leftarrow> liftFst (Decorator_callHook K E dt parent (UniformObjectMap observedChildren) (UniformObjectMap relatedObjects));
                                                    case s of
                                                      Inl e \<Rightarrow> State_Monad.return (Some e)
                                                    | Inr syncResult \<Rightarrow> Decorator_applyResult K E dt parentClient parent observedChildren syncResult } } } } }"

section \<open>Lemmas\<close>

lemma updateEntry_sound:
  assumes "keys_sorted (fst s)"
  shows "keys_sorted (fst (updateEntry s u))"
    "map_of (fst (updateEntry s u)) = (map_of (fst s))(fst u := snd u)"
    "snd (updateEntry s u) \<longleftrightarrow> snd s \<or> map_of (fst s) (fst u) \<noteq> snd u"
proof -
  have id: "map_of (fst s) (fst u) = snd u \<Longrightarrow> (map_of (fst s))(fst u := snd u) = map_of (fst s)" by (rule fun_upd_idem)
  show "keys_sorted (fst (updateEntry s u))" using assms by (simp add: updateEntry_def split: option.split)
  show "map_of (fst (updateEntry s u)) = (map_of (fst s))(fst u := snd u)"
  proof (cases "map_of (fst s) (fst u) = snd u")
    case True
    then have "updateEntry s u = s" by (simp add: updateEntry_def split: option.split)
    then show ?thesis by (simp only: id [OF True])
  next
    case False
    then show ?thesis by (cases "snd u") (simp_all add: updateEntry_def)
  qed
  show "snd (updateEntry s u) \<longleftrightarrow> snd s \<or> map_of (fst s) (fst u) \<noteq> snd u" by (cases "snd u") (simp_all only: updateEntry_def option.case if_split, auto)
qed

lemma foldl_updateEntry:
  "keys_sorted (fst s) \<Longrightarrow> distinct (map fst us) \<Longrightarrow>
   keys_sorted (fst (foldl updateEntry s us)) \<and>
   map_of (fst (foldl updateEntry s us)) = (\<lambda>k. case map_of us k of None \<Rightarrow> map_of (fst s) k | Some v \<Rightarrow> v) \<and>
   (snd (foldl updateEntry s us) \<longleftrightarrow> snd s \<or> (\<exists>u \<in> set us. map_of (fst s) (fst u) \<noteq> snd u))"
proof (induction us arbitrary: s)
  case (Cons u us)
  have d: "fst u \<notin> fst ` set us" "distinct (map fst us)" using Cons.prems(2) by simp_all
  then have n: "map_of us (fst u) = None" by (simp add: map_of_eq_None_iff)
  have ne: "fst v \<noteq> fst u" if "v \<in> set us" for v using d(1) that by (metis imageI)
  note IH = Cons.IH [OF updateEntry_sound(1) [OF Cons.prems(1)] d(2)]
  show ?case
    using IH ne n by (auto simp: updateEntry_sound [OF Cons.prems(1)] fun_eq_iff split: option.split)
qed simp

section \<open>Properties\<close>

text \<open>Updating labels or annotations from a hook's answer: afterwards a key has the value the answer gives it, is absent where the
  answer gives null, and is as before where the answer does not name it; and a change is reported exactly when
  there is one.\<close>

theorem updateStringMap_correct:
  assumes "keys_sorted dest" "distinct (map fst updates)" "updateStringMap dest updates = (dest', changed)"
  shows "(\<forall>key. map_of dest' key = (case map_of updates key of None \<Rightarrow> map_of dest key | Some v \<Rightarrow> v)) \<and> (changed \<longleftrightarrow> dest' \<noteq> dest)"
proof -
  have f: "keys_sorted dest'" "map_of dest' = (\<lambda>k. case map_of updates k of None \<Rightarrow> map_of dest k | Some v \<Rightarrow> v)"
    "changed \<longleftrightarrow> (\<exists>u \<in> set updates. map_of dest (fst u) \<noteq> snd u)"
    using foldl_updateEntry [of "(dest, False)" updates, unfolded fst_conv snd_conv] assms by (simp_all add: updateStringMap_def)
  have "dest' = dest \<longleftrightarrow> map_of dest' = map_of dest" using keys_sorted_ext f(1) assms(1) by blast
  also have "\<dots> \<longleftrightarrow> (\<forall>u \<in> set updates. map_of dest (fst u) = snd u)"
    unfolding f(2) fun_eq_iff using assms(2) by (fastforce split: option.splits dest: map_of_SomeD)
  finally have "changed \<longleftrightarrow> dest' \<noteq> dest" using f(3) by blast
  with f(2) show ?thesis by simp
qed

theorem updateStringMap_correct_witness:
  "\<exists>dest'. updateStringMap [(''a'', ''1''), (''b'', ''2'')] [(''b'', None), (''c'', Some ''3'')] = (dest', True) \<and>
     map_of dest' ''b'' = None \<and> map_of dest' ''c'' = Some ''3''"
proof -
  obtain d c where u: "updateStringMap [(''a'', ''1''), (''b'', ''2'')] [(''b'', None), (''c'', Some ''3'')] = (d, c)" by fastforce
  have s: "keys_sorted [(''a'', ''1''), (''b'', ''2'')]" "distinct (map fst [(''b'', None), (''c'', Some ''3'')])" by simp_all
  note f = updateStringMap_correct [OF s u]
  have "map_of d ''b'' = None" "map_of d ''c'' = Some ''3''" using f by simp_all
  moreover from this have c using conjunct2 [OF f] by auto
  ultimately show ?thesis using u by simp
qed

text \<open>The key of an object in the queue determines its API version, kind, namespace and name, even a name with colons in it.\<close>

theorem parentQueueKey_roundtrip:
  assumes "CHR '':'' \<notin> set (GetAPIVersion K obj)" "CHR '':'' \<notin> set (GetKind K obj)" "CHR '':'' \<notin> set (GetNamespace K obj)"
  shows "\<exists>key. parentQueueKey K (EvObject obj) = Inr key \<and>
     splitParentQueueKey key = Inr (GetAPIVersion K obj, GetKind K obj, GetNamespace K obj, GetName K obj)"
  using assms by (simp add: splitParentQueueKey_def eval_nat_numeral)

theorem parentQueueKey_roundtrip_witness:
  "\<exists>key. parentQueueKey refK (EvObject (podObj ''q'')) = Inr key \<and> splitParentQueueKey key = Inr (''v1'', ''Pod'', ''ns'', ''q'')"
  using parentQueueKey_roundtrip [of refK "podObj ''q''"]
  by (simp add: refK_simps podObj_def metaOf_def refName_def)

section \<open>Confinement\<close>

definition everyChild :: "(unstructured \<Rightarrow> bool) \<Rightarrow> objectMap \<Rightarrow> bool" where
  "everyChild Q m \<longleftrightarrow> (\<forall>p \<in> set m. \<forall>q \<in> set (snd p). Q (snd q))"

lemma everyChild_update: "everyChild Q m \<Longrightarrow> \<forall>q \<in> set grp. Q (snd q) \<Longrightarrow> everyChild Q (AList.update g grp m)"
  unfolding everyChild_def by (induction m) (auto split: if_splits)

lemma everyChild_InitGroup: "everyChild Q m \<Longrightarrow> everyChild Q (UniformObjectMap_InitGroup m g)"
  by (simp add: UniformObjectMap_InitGroup_def everyChild_update)

lemma everyChild_Insert:
  assumes "everyChild Q m" "Q obj"
  shows "everyChild Q (UniformObjectMap_Insert K p m obj)"
proof -
  have upd: "\<forall>q \<in> set (AList.update n obj grp). Q (snd q)" if "\<forall>q \<in> set grp. Q (snd q)" for n and grp :: objectGroup
    using that assms(2) by (induction grp) (auto split: if_splits)
  have grp: "\<forall>q \<in> set (case map_of m' g of None \<Rightarrow> [] | Some x \<Rightarrow> x). Q (snd q)" if "everyChild Q m'" for m' g
    using that by (cases "map_of m' g") (simp, fastforce simp: everyChild_def dest: map_of_SomeD)
  show ?thesis
    unfolding UniformObjectMap_Insert_def Let_def using assms(1) by (auto intro!: everyChild_update upd grp everyChild_InitGroup)
qed

lemma everyChild_foldl: "everyChild Q m \<Longrightarrow> \<forall>obj \<in> set objs. Q obj \<Longrightarrow> everyChild Q (foldl (UniformObjectMap_Insert K p) m objs)"
  by (induction objs arbitrary: m) (auto intro: everyChild_Insert)

text \<open>The children a sync observes are the decorator's own.\<close>

lemma childrenOf_own:
  "everyChild (ownAttachment K dt parent) m \<Longrightarrow>
   fst (run_state (childrenOf K E dt parent cs m) w) = Inr m' \<Longrightarrow> everyChild (ownAttachment K dt parent) m'"
proof (induction cs arbitrary: m w)
  case (Cons c cs)
  have "everyChild (ownAttachment K dt parent) (foldl (UniformObjectMap_Insert K (metaU K parent)) (UniformObjectMap_InitGroup m g)
      (filter (ownAttachment K dt parent) all))" for g all
    by (rule everyChild_foldl) (auto intro: everyChild_InitGroup Cons.prems)
  note IH = Cons.IH [OF this]
  show ?case
    using Cons.prems(2) by (auto simp: case_prod_beta split: option.splits sum.splits intro: IH)
qed simp

lemma getChildren_own:
  "case fst (run_state (getChildren K E dt parent) w) of Inl _ \<Rightarrow> True | Inr m \<Rightarrow> everyChild (ownAttachment K dt parent) m"
proof -
  have "everyChild (ownAttachment K dt parent) []" by (simp add: everyChild_def)
  from childrenOf_own [OF this] show ?thesis by (auto simp: getChildren_def split: sum.split)
qed

lemma preserves_bind_post:
  assumes "preserves P c" "\<And>s. Q (fst (run_state c s))" "\<And>x. Q x \<Longrightarrow> preserves P (f x)"
  shows "preserves P (c \<bind> f)"
  using assms by (simp add: preserves_def State_Monad.bind_def case_prod_beta)

lemma preserves_getChildren_bind:
  fixes F :: "objectMap \<Rightarrow> ('w, 'a) pstate"
  assumes "preserves P (getChildren K E dt parent)" "\<And>m. everyChild (ownAttachment K dt parent) m \<Longrightarrow> preserves (\<lambda>(w, p). P w) (F m)"
  shows "preserves (\<lambda>(w, p). P w) (do { c \<leftarrow> liftFst (getChildren K E dt parent); case c of Inl e \<Rightarrow> State_Monad.return (G e) | Inr m \<Rightarrow> F m })"
proof (rule preserves_bind_post [where Q = "\<lambda>c. case c of Inl _ \<Rightarrow> True | Inr m \<Rightarrow> everyChild (ownAttachment K dt parent) m"])
  show "preserves (\<lambda>(w, p). P w) (liftFst (getChildren K E dt parent))" by (intro pres assms(1))
  show "case fst (run_state (liftFst (getChildren K E dt parent)) s) of Inl _ \<Rightarrow> True | Inr m \<Rightarrow> everyChild (ownAttachment K dt parent) m" for s
    using getChildren_own by (cases s) simp
qed (auto intro!: pres assms(2) split: sum.splits)

text \<open>\<^verbatim>\<open>SetAnnotations\<close> stores what \<^verbatim>\<open>GetAnnotations\<close> reads.\<close>

definition annotations_law :: "'w k8s \<Rightarrow> bool" where
  "annotations_law K \<longleftrightarrow> (\<forall>obj m. GetAnnotations K (SetAnnotations K obj m) = Some m)"

lemma annotateChildren_marked:
  "annotations_law K \<Longrightarrow> everyChild (\<lambda>obj. decoratedBy K obj = dcName (dtDC dt)) (annotateChildren K dt m)"
  by (auto simp: everyChild_def annotateChildren_def annotateChild_def decoratedBy_def annotations_law_def)

text \<open>The parent as a sync may write it: labels, annotations and status replaced.\<close>

definition decorated :: "'w k8s \<Rightarrow> unstructured \<Rightarrow> unstructured \<Rightarrow> bool" where
  "decorated K parent new \<longleftrightarrow>
     (\<exists>ls as st. SetNestedField K (SetAnnotations K (SetLabels K parent ls) as) st [''status''] = Inr new)"

definition decoratorAllows :: "('w \<Rightarrow> bool) \<Rightarrow> 'w k8s \<Rightarrow> decoratorController \<Rightarrow> bool" where
  "decoratorAllows P K dt \<longleftrightarrow>
     (\<forall>ri cur. preserves P (ApiUpdate K ri (AddFinalizerTo K cur (fmName (dtFinalizer dt))))) \<and>
     (\<forall>ri cur. preserves P (ApiUpdate K ri (RemoveFinalizerFrom K cur (fmName (dtFinalizer dt))))) \<and>
     (\<forall>ri parent new. decorated K parent new \<longrightarrow> preserves P (ApiUpdateStatus K ri new)) \<and>
     (\<forall>ri parent new. decorated K parent new \<longrightarrow> preserves P (ApiUpdate K ri new)) \<and>
     (\<forall>ri parent new v. decorated K parent new \<longrightarrow> preserves P (ApiUpdate K ri (SetResourceVersion K new v))) \<and>
     (\<forall>parent observed desired.
        (GetDeletionTimestamp K parent = None \<or> ShouldFinalize K (dtFinalizer dt) parent) \<longrightarrow>
        everyChild (ownAttachment K dt parent) observed \<longrightarrow>
        everyChild (\<lambda>obj. decoratedBy K obj = dcName (dtDC dt)) desired \<longrightarrow>
        preserves (\<lambda>(w, c). P w) (ManageChildren K (dtDynClient dt) (attachmentMethod (dtUpdateStrategy dt)) parent
          (Some (UniformObjectMap observed)) (Some (UniformObjectMap desired)) (dtSsaOptions dt)))"

lemma quiet_getChildren: "quiet P K E \<Longrightarrow> preserves P (getChildren K E dt parent)"
proof -
  assume "quiet P K E"
  then have "preserves P (childrenOf K E dt parent cs m)" for cs m
    by (induction cs arbitrary: m) (auto intro!: pres split: option.split sum.split)
  then show ?thesis by (simp add: getChildren_def)
qed

lemma quiet_Decorator_callHook [pres]: "quiet P K E \<Longrightarrow> preserves P (Decorator_callHook K E dt parent observed related)"
  unfolding Decorator_callHook_def Decorator_executeHook_def Decorator_callHookExecutor_def by (auto intro!: pres split: option.split)

lemma quiet_Decorator_enqueue [pres]:
  "quiet P K E \<Longrightarrow> preserves P (Decorator_enqueueParentObject K E dt obj)"
  "quiet P K E \<Longrightarrow> preserves P (Decorator_enqueueParentObjectAfter K E dt obj d)"
  unfolding Decorator_enqueueParentObject_def Decorator_enqueueParentObjectAfter_def by (auto intro!: pres split: sum.split)

lemma allowed_updateParent:
  assumes "decoratorAllows P K dt"
  shows "preserves P (Decorator_updateParent K dt client parent result)"
proof -
  have allowed: "preserves P (ApiUpdate K ri (if b then RemoveFinalizerFrom K new' (fmName (dtFinalizer dt)) else new'))"
    if "decorated K parent new" "new' = new \<or> (\<exists>v. new' = SetResourceVersion K new v)" for ri b new new'
    using assms that by (auto simp: decoratorAllows_def)
  have status: "preserves P (do { s \<leftarrow> writeStatus K client parent sc new; case s of Inl r \<Rightarrow> State_Monad.return (Some r)
      | Inr new \<Rightarrow> do { r \<leftarrow> ApiUpdate K ri (if b then RemoveFinalizerFrom K new (fmName (dtFinalizer dt)) else new); State_Monad.return (F r) } })"
    if "decorated K parent new" for ri b new sc F
  proof (rule preserves_bind_post [where Q = "\<lambda>s. case s of Inl _ \<Rightarrow> True | Inr new' \<Rightarrow> new' = new \<or> (\<exists>v. new' = SetResourceVersion K new v)"])
    show "preserves P (writeStatus K client parent sc new)"
      using assms that unfolding writeStatus_def by (auto simp: decoratorAllows_def intro!: pres)
    show "case fst (run_state (writeStatus K client parent sc new) s) of Inl _ \<Rightarrow> True
        | Inr new' \<Rightarrow> new' = new \<or> (\<exists>v. new' = SetResourceVersion K new v)" for s
      by (auto simp: writeStatus_def case_prod_beta split: sum.split)
    show "preserves P (case s of Inl r \<Rightarrow> State_Monad.return (Some r)
      | Inr new \<Rightarrow> do { r \<leftarrow> ApiUpdate K ri (if b then RemoveFinalizerFrom K new (fmName (dtFinalizer dt)) else new); State_Monad.return (F r) })"
      if "case s of Inl _ \<Rightarrow> True | Inr new' \<Rightarrow> new' = new \<or> (\<exists>v. new' = SetResourceVersion K new v)" for s
      using allowed [OF \<open>decorated K parent new\<close>] that by (cases s) (simp_all only: sum.case preserves_bind preserves_return)
  qed
  show ?thesis
    unfolding Decorator_updateParent_def Let_def
    by (auto intro!: pres status split: sum.split prod.split) (auto simp: decorated_def)
qed

lemma allowed_Decorator_syncParentObject:
  assumes "quiet P K E" "retry_law K" "annotations_law K" "decoratorAllows P K dt"
  shows "preserves (\<lambda>(w, p). P w) (Decorator_syncParentObject K E dt parent)"
proof -
  have [pres]: "preserves P (RemoveFinalizer K rc obj (fmName (dtFinalizer dt)))" "preserves P (AddFinalizer K rc obj (fmName (dtFinalizer dt)))" for rc obj
    unfolding RemoveFinalizer_def AddFinalizer_def
    by (rule au.confined; use assms in \<open>auto simp: decoratorAllows_def intro: pres split: if_splits\<close>)+
  have [pres]: "preserves P (SyncObject K (dtFinalizer dt) rc obj)" for rc obj
    unfolding SyncObject_def by (auto intro!: pres)
  note [pres] = allowed_updateParent [OF assms(4)] preserves_getChildren_bind [OF quiet_getChildren [OF assms(1)]]
  have [pres]: "preserves (\<lambda>(w, c). P w) (Decorator_manageChildren K dt p m (annotateChildren K dt d))"
    if "everyChild (ownAttachment K dt p) m" for p m d
    using assms(4) that annotateChildren_marked [OF assms(3), of dt d]
    unfolding Decorator_manageChildren_def decoratorAllows_def by (auto intro!: pres)
  have [pres]: "preserves (\<lambda>(w, p). P w) (Decorator_applyResult K E dt client p m result)"
    if "everyChild (ownAttachment K dt p) m" for client p m result
    using assms(1) that unfolding Decorator_applyResult_def by (auto intro!: pres split: option.split)
  show ?thesis
    using assms(1) unfolding Decorator_syncParentObject_def by (auto intro!: pres split: option.split sum.split)
qed


definition decoratorW :: DecoratorController where
  "decoratorW = \<lparr>dcName = ''dc'', dcSpec = \<lparr>dcsResources = [\<lparr>rrAPIVersion = ''v1'', rrResource = ''pods'', drLabelSelector = None,
       drAnnotationSelector = None, drIgnoreStatusChanges = None\<rparr>], dcsAttachments = [],
     dcsHooks = Some \<lparr>dchCustomize = None, dchSync = None, dchFinalize = None\<rparr>, dcsEndpointConfigs = [], dcsResyncPeriodSeconds = None\<rparr>\<rparr>"

definition decoratorControllerW :: decoratorController where
  "decoratorControllerW = \<lparr>dtDC = decoratorW, dtResources = \<lparr>rmGroupVersions = None\<rparr>, dtParentKinds = [],
     dtParentSelector = \<lparr>labelSelectors = [(''Pod.'', Everything refK)], annotationSelectors = [(''Pod.'', Everything refK)]\<rparr>,
     dtDynClient = \<lparr>csResources = \<lparr>rmGroupVersions = None\<rparr>\<rparr>, dtQueue = ''q'', dtUpdateStrategy = [], dtParentInformers = [], dtChildInformers = [],
     dtNumWorkers = 1, dtSsaOptions = \<lparr>aoFieldManager = '''', aoStrategy = ''dynamic-apply''\<rparr>, dtFinalizer = NewManager ''f'' True,
     dtCustomize = relatedManager, dtSyncHook = \<lparr>heExecutor = Some plainExecutor\<rparr>, dtFinalizeHook = \<lparr>heExecutor = None\<rparr>\<rparr>"


end
