(* ===== verification/Decorator_Control.thy ===== *)
theory Decorator_Control
  imports Decorator
begin

text \<open>
  The decorator controller around the work on one object: event handlers, the work queue, the life of a controller
  (\<^verbatim>\<open>decorator/controller.go\<close>) and the reconciler that keeps one controller per \<^verbatim>\<open>DecoratorController\<close> object
  (\<^verbatim>\<open>decorator/metacontroller.go\<close>).
\<close>

section \<open>Events\<close>

text \<open>A resync hands the same pointer to both arguments; as for composite controllers the model compares the objects.\<close>

definition Decorator_updateParentObject :: "'w k8s \<Rightarrow> 'w env \<Rightarrow> decoratorController \<Rightarrow> unstructured \<Rightarrow> unstructured \<Rightarrow> ('w, unit) state" where
  "Decorator_updateParentObject K E dt old cur =
     (if list_ex (\<lambda>parent.
           case ResourceMap_Get (dtResources dt) (rrAPIVersion parent) (rrResource parent) of
             None \<Rightarrow> False
           | Some resource \<Rightarrow>
               arAPIVersion resource = GetAPIVersion K old \<and> arKind resource = GetKind K old \<and> drIgnoreStatusChanges parent = Some True \<and>
               old \<noteq> cur \<and> GetGeneration K old = GetGeneration K cur \<and> GetLabels K old = GetLabels K cur \<and>
               GetAnnotations K old = GetAnnotations K cur \<and> GetDeletionTimestamp K cur = None) (dcsResources (dcSpec (dtDC dt)))
      then State_Monad.return ()
      else Decorator_enqueueParentObject K E dt (EvObject cur))"

definition Decorator_resolveControllerRef :: "'w k8s \<Rightarrow> 'w env \<Rightarrow> decoratorController \<Rightarrow> string \<Rightarrow> OwnerReference \<Rightarrow> ('w, unstructured option) state" where
  "Decorator_resolveControllerRef K E dt childNamespace controllerRef =
     (case SyncMap_Get (dtParentKinds dt) (gvrGroup (resourceOf K (orAPIVersion controllerRef) ''''), orKind controllerRef) of
        None \<Rightarrow> State_Monad.return None
      | Some resource \<Rightarrow>
          (case SyncMap_Get (dtParentInformers dt) (resourceOf K (arAPIVersion resource) (arName resource)) of
             None \<Rightarrow> State_Monad.return None
           | Some informer \<Rightarrow>
               do { r \<leftarrow> GetObject E informer (if arNamespaced resource then childNamespace else '''') (orName controllerRef);
                    State_Monad.return (case r of
                        Inl _ \<Rightarrow> None
                      | Inr parent \<Rightarrow>
                          if GetUID K parent \<noteq> orUID controllerRef then None
                          else if ignoresObject K dt parent then None
                          else Some parent) }))"

text \<open>A child that is created, changed or deleted wakes the object that controls it; orphans are not adopted.\<close>

definition attachmentChanged :: "'w k8s \<Rightarrow> 'w env \<Rightarrow> decoratorController \<Rightarrow> unstructured \<Rightarrow> ('w, unit) state" where
  "attachmentChanged K E dt child =
     (case GetControllerOf K (GetOwnerReferences K child) of
        None \<Rightarrow> State_Monad.return ()
      | Some controllerRef \<Rightarrow>
          do { p \<leftarrow> Decorator_resolveControllerRef K E dt (GetNamespace K child) controllerRef;
               case p of
                 None \<Rightarrow> State_Monad.return ()
               | Some parent \<Rightarrow> Decorator_enqueueParentObject K E dt (EvObject parent) })"

fun Decorator_onChildDelete :: "'w k8s \<Rightarrow> 'w env \<Rightarrow> decoratorController \<Rightarrow> eventObj \<Rightarrow> ('w, unit) state" where
  "Decorator_onChildDelete K E dt (EvObject child) = attachmentChanged K E dt child"
| "Decorator_onChildDelete K E dt (EvTombstone _ (Some child)) = attachmentChanged K E dt child"
| "Decorator_onChildDelete K E dt (EvTombstone _ None) = State_Monad.return ()"
| "Decorator_onChildDelete K E dt EvOther = State_Monad.return ()"

definition Decorator_onChildAdd :: "'w k8s \<Rightarrow> 'w env \<Rightarrow> decoratorController \<Rightarrow> unstructured \<Rightarrow> ('w, unit) state" where
  "Decorator_onChildAdd K E dt child =
     (if GetDeletionTimestamp K child \<noteq> None then Decorator_onChildDelete K E dt (EvObject child)
      else attachmentChanged K E dt child)"

definition Decorator_onChildUpdate :: "'w k8s \<Rightarrow> 'w env \<Rightarrow> decoratorController \<Rightarrow> unstructured \<Rightarrow> unstructured \<Rightarrow> ('w, unit) state" where
  "Decorator_onChildUpdate K E dt oldChild curChild =
     (if GetResourceVersion K oldChild = GetResourceVersion K curChild then State_Monad.return ()
      else Decorator_onChildAdd K E dt curChild)"

fun Decorator_parentHandlers :: "'w k8s \<Rightarrow> 'w env \<Rightarrow> decoratorController \<Rightarrow> informerEvent \<Rightarrow> ('w, unit) state" where
  "Decorator_parentHandlers K E dt (OnAdd obj _) = Decorator_enqueueParentObject K E dt (EvObject obj)"
| "Decorator_parentHandlers K E dt (OnUpdate old cur) = Decorator_updateParentObject K E dt old cur"
| "Decorator_parentHandlers K E dt (OnDelete obj) = Decorator_enqueueParentObject K E dt obj"

fun Decorator_childHandlers :: "'w k8s \<Rightarrow> 'w env \<Rightarrow> decoratorController \<Rightarrow> informerEvent \<Rightarrow> ('w, unit) state" where
  "Decorator_childHandlers K E dt (OnAdd obj _) = Decorator_onChildAdd K E dt obj"
| "Decorator_childHandlers K E dt (OnUpdate old cur) = Decorator_onChildUpdate K E dt old cur"
| "Decorator_childHandlers K E dt (OnDelete obj) = Decorator_onChildDelete K E dt obj"

section \<open>The queue\<close>

definition Decorator_sync :: "'w k8s \<Rightarrow> 'w env \<Rightarrow> decoratorController \<Rightarrow> string \<Rightarrow> ('w, err option) pstate" where
  "Decorator_sync K E dt key =
     (case splitParentQueueKey key of
        Inl e \<Rightarrow> State_Monad.return (Some e)
      | Inr (apiVersion, kind, namespace, name) \<Rightarrow>
          (case ResourceMap_GetKind (dtResources dt) apiVersion kind of
             None \<Rightarrow> State_Monad.return (Some (Errorf (''can't find kind '' @ fmtQ kind @ '' in apiVersion '' @ fmtQ apiVersion) None))
           | Some resource \<Rightarrow>
               (case SyncMap_Get (dtParentInformers dt) (resourceOf K apiVersion (arName resource)) of
                  None \<Rightarrow> State_Monad.return (Some (Errorf (''no informer for resource '' @ fmtQ (arName resource) @ '' in apiVersion '' @ fmtQ apiVersion) None))
                | Some informer \<Rightarrow>
                    do { r \<leftarrow> liftFst (GetObject E informer namespace name);
                         case r of
                           Inl e \<Rightarrow> State_Monad.return (if IsNotFound K e then None else Some e)
                         | Inr parent \<Rightarrow> Decorator_syncParentObject K E dt parent })))"

definition Decorator_processNextWorkItem :: "'w k8s \<Rightarrow> 'w env \<Rightarrow> decoratorController \<Rightarrow> ('w, err + bool) pstate" where
  "Decorator_processNextWorkItem K E dt = processItem E (dtQueue dt) (Decorator_sync K E dt)"

section \<open>The life of a controller\<close>

definition Decorator_syncWebhook :: "DecoratorController \<Rightarrow> Webhook option" where
  "Decorator_syncWebhook dc =
     (case dcsHooks (dcSpec dc) of None \<Rightarrow> None | Some hooks \<Rightarrow> (case dchSync hooks of None \<Rightarrow> None | Some h \<Rightarrow> hkWebhook h))"

definition Decorator_finalizeWebhook :: "DecoratorController \<Rightarrow> Webhook option" where
  "Decorator_finalizeWebhook dc =
     (case dcsHooks (dcSpec dc) of None \<Rightarrow> None | Some hooks \<Rightarrow> (case dchFinalize hooks of None \<Rightarrow> None | Some h \<Rightarrow> hkWebhook h))"

fun addParentKinds :: "ResourceMap \<Rightarrow> DecoratorControllerResourceRule list \<Rightarrow> GroupKindMap \<Rightarrow> err + GroupKindMap" where
  "addParentKinds resources [] m = Inr m"
| "addParentKinds resources (parent # parents) m =
     (case ResourceMap_Get resources (rrAPIVersion parent) (rrResource parent) of
        None \<Rightarrow> Inl (Errorf (''can't find resource '' @ fmtQ (rrResource parent) @ '' in apiVersion '' @ fmtQ (rrAPIVersion parent)) None)
      | Some resource \<Rightarrow> addParentKinds resources parents (SyncMap_Set m (arGroup resource, arKind resource) resource))"

text \<open>The informers of the decorated resources, then those of the attachments; after an error, those opened so far are closed.  The
  controller is complete when its maps are filled.\<close>

definition openDecoratorInformers :: "'w k8s \<Rightarrow> 'w env \<Rightarrow> DecoratorController \<Rightarrow> (InformerMap \<Rightarrow> InformerMap \<Rightarrow> decoratorController)
    \<Rightarrow> ('w, err + decoratorController) pstate" where
  "openDecoratorInformers K E dc controller =
     do { (e, parentInformers) \<leftarrow> openInformers K E ''parent'' (map (\<lambda>r. (rrAPIVersion r, rrResource r)) (dcsResources (dcSpec dc))) [];
          case e of
            Some e \<Rightarrow> closeOnError E (map snd parentInformers) (Inl e)
          | None \<Rightarrow>
              do { (e, childInformers) \<leftarrow> openInformers K E ''child'' (map (\<lambda>r. (rrAPIVersion r, rrResource r)) (dcsAttachments (dcSpec dc))) [];
                   closeOnError E (map snd childInformers @ map snd parentInformers)
                     (case e of Some e \<Rightarrow> Inl e | None \<Rightarrow> Inr (controller parentInformers childInformers)) } }"

text \<open>The customize manager is made first and shares the controller's maps of informers and kinds, which are filled later.  Errors before
  the first informer of the controller is opened return at once.\<close>

definition newDecoratorController :: "'w k8s \<Rightarrow> 'w env \<Rightarrow> ResourceMap \<Rightarrow> Clientset \<Rightarrow> DecoratorController \<Rightarrow> nat \<Rightarrow> ApplyOptions
    \<Rightarrow> ('w, err + decoratorController) pstate" where
  "newDecoratorController K E resources dynClient dc numWorkers ssaOptions =
     (case dcsHooks (dcSpec dc) of
        None \<Rightarrow> State_Monad.return (Inl (Errorf ''no hooks defined'' None))
      | Some hooks \<Rightarrow>
          do { h \<leftarrow> liftFst (newHooks E (dcName dc) ''DecoratorController'' (DecoratorController_GetEndpointConfigs dc)
                 (dchSync hooks) (Decorator_syncWebhook dc) (dchFinalize hooks) (Decorator_finalizeWebhook dc));
               case h of
                 Inl e \<Rightarrow> State_Monad.return (Inl e)
               | Inr (syncHook, finalizeHook) \<Rightarrow>
                   do { m \<leftarrow> NewCustomizeManager K E (dcName dc) (Decorator dc) dynClient [] [] ''DecoratorController'';
                        case m of
                          Inl e \<Rightarrow> State_Monad.return (Inl e)
                        | Inr customize \<Rightarrow>
                            (case newDecoratorSelector K resources dc of
                               Inl e \<Rightarrow> State_Monad.return (Inl e)
                             | Inr parentSelector \<Rightarrow>
                                 (case addParentKinds resources (dcsResources (dcSpec dc)) [] of
                                    Inl e \<Rightarrow> State_Monad.return (Inl e)
                                  | Inr parentKinds \<Rightarrow>
                                      (case Decorator_makeUpdateStrategyMap resources dc of
                                         Inl e \<Rightarrow> State_Monad.return (Inl e)
                                       | Inr updateStrategy \<Rightarrow>
                                           openDecoratorInformers K E dc (\<lambda>parentInformers childInformers.
                                             \<lparr>dtDC = dc, dtResources = resources, dtParentKinds = parentKinds, dtParentSelector = parentSelector,
                                              dtDynClient = dynClient, dtQueue = ''DecoratorController-'' @ dcName dc, dtUpdateStrategy = updateStrategy,
                                              dtParentInformers = parentInformers, dtChildInformers = childInformers, dtNumWorkers = numWorkers,
                                              dtSsaOptions = ssaOptions,
                                              dtFinalizer = NewManager (''metacontroller.io/decoratorcontroller-'' @ dcName dc) (dchFinalize hooks \<noteq> None),
                                              dtCustomize = customize\<lparr>mgParentInformers := parentInformers, mgParentKinds := parentKinds\<rparr>,
                                              dtSyncHook = syncHook, dtFinalizeHook = finalizeHook\<rparr>)))) } })"

definition Decorator_controllerId :: "decoratorController \<Rightarrow> string" where
  "Decorator_controllerId dt = ''DecoratorController/'' @ dcName (dtDC dt)"

definition Decorator_Start :: "'w k8s \<Rightarrow> 'w env \<Rightarrow> decoratorController \<Rightarrow> ('w, decoratorController) pstate" where
  "Decorator_Start K E dt =
     (let dt = dt\<lparr>dtCustomize := Manager_Start (dtCustomize dt)\<rparr> in
      do { SyncMap_ForEach (\<lambda>_ ri. subscribeHandler K E (Decorator_parentHandlers K E dt) ri (Decorator_controllerId dt, ParentHandler)
             (resyncPeriodOf (dcsResyncPeriodSeconds (dcSpec (dtDC dt))))) (dtParentInformers dt);
           SyncMap_ForEach (\<lambda>_ ri. subscribeHandler K E (Decorator_childHandlers K E dt) ri (Decorator_controllerId dt, ChildHandler) None) (dtChildInformers dt);
           State_Monad.return dt })"

definition Decorator_cachesSynced :: "'w env \<Rightarrow> decoratorController \<Rightarrow> ('w, bool) state" where
  "Decorator_cachesSynced E dt = allSynced E (map snd (dtParentInformers dt) @ map snd (dtChildInformers dt))"

definition Decorator_Stop :: "'w env \<Rightarrow> decoratorController \<Rightarrow> ('w, err option) pstate" where
  "Decorator_Stop E dt = stopInformers E (dtQueue dt) (map snd (dtChildInformers dt) @ map snd (dtParentInformers dt)) (dtCustomize dt)"

section \<open>Reconciling controllers\<close>

record DecoratorMetacontroller =
  dmResources :: ResourceMap
  dmDynClient :: Clientset
  dmNumWorkers :: nat
  dmSsaOptions :: ApplyOptions
  dmDecoratorControllers :: "(string, decoratorController) SyncMap"

type_synonym ('w, 'a) dmstate = "('w \<times> proc, 'a \<times> DecoratorMetacontroller) state"

definition stopDecorator :: "'w env \<Rightarrow> DecoratorMetacontroller \<Rightarrow> string \<Rightarrow> ('w, err option) dmstate" where
  "stopDecorator E mc name =
     (case SyncMap_LoadAndDelete (dmDecoratorControllers mc) name of
        (None, _) \<Rightarrow> State_Monad.return (None, mc)
      | (Some dt, m) \<Rightarrow> do { r \<leftarrow> Decorator_Stop E dt; State_Monad.return (r, mc\<lparr>dmDecoratorControllers := m\<rparr>) })"

definition reconcileDecoratorController :: "'w k8s \<Rightarrow> 'w env \<Rightarrow> DecoratorMetacontroller \<Rightarrow> DecoratorController \<Rightarrow> ('w, err option) dmstate" where
  "reconcileDecoratorController K E mc dc =
     do { ce \<leftarrow> liftFst (CtxErr K);
          case ce of
            Some e \<Rightarrow> State_Monad.return (Some e, mc)
          | None \<Rightarrow>
              if (case SyncMap_Load (dmDecoratorControllers mc) (dcName dc) of None \<Rightarrow> False | Some dt \<Rightarrow> dcSpec dc = dcSpec (dtDC dt))
              then State_Monad.return (None, mc)
              else
                do { (r, mc) \<leftarrow> stopDecorator E mc (dcName dc);
                     case r of
                       Some e \<Rightarrow> State_Monad.return (Some e, mc)
                     | None \<Rightarrow>
                         do { n \<leftarrow> newDecoratorController K E (dmResources mc) (dmDynClient mc) dc (dmNumWorkers mc) (dmSsaOptions mc);
                              case n of
                                Inl e \<Rightarrow> State_Monad.return (Some e, mc)
                              | Inr dt \<Rightarrow>
                                  do { dt \<leftarrow> Decorator_Start K E dt;
                                       State_Monad.return (None, mc\<lparr>dmDecoratorControllers := SyncMap_Store (dmDecoratorControllers mc) (dcName dc) dt\<rparr>) } } } }"

definition Decorator_Reconcile :: "'w k8s \<Rightarrow> 'w env \<Rightarrow> DecoratorMetacontroller \<Rightarrow> string \<Rightarrow> ('w, err option) dmstate" where
  "Decorator_Reconcile K E mc name =
     do { r \<leftarrow> liftFst (GetDecoratorController E name);
          case r of
            Inl e \<Rightarrow> if IsNotFound K e then stopDecorator E mc name else State_Monad.return (Some e, mc)
          | Inr dc \<Rightarrow> reconcileDecoratorController K E mc dc }"

section \<open>Subscriptions of a controller\<close>

definition decoratorInformers :: "decoratorController \<Rightarrow> ResourceInformer list" where
  "decoratorInformers dt = map snd (dtChildInformers dt) @ map snd (dtParentInformers dt) @ managerInformers (dtCustomize dt)"

lemma subscribed_openAll:
  assumes "fresh_law E alloc" "uniqueResources K rs"
  shows "hoare (subscribed alloc M) (openInformers K E what rs []) (\<lambda>x. subscribed alloc (M + mset (map snd (snd x))))"
  using subscribed_openInformers [OF assms(1), of rs K "[]" M what] assms(2) by (simp add: uniqueResources_def)

lemma hoare_openDecoratorInformers:
  fixes dc :: DecoratorController and controller :: "InformerMap \<Rightarrow> InformerMap \<Rightarrow> decoratorController"
  defines "rs \<equiv> map (\<lambda>r. (rrAPIVersion r, rrResource r)) (dcsResources (dcSpec dc))"
    and "as \<equiv> map (\<lambda>r. (rrAPIVersion r, rrResource r)) (dcsAttachments (dcSpec dc))"
  assumes "fresh_law E alloc" "uniqueResources K rs" "uniqueResources K as"
    and "\<And>ps cs. dtParentInformers (controller ps cs) = ps \<and> dtChildInformers (controller ps cs) = cs"
  shows "hoare (subscribed alloc M) (openDecoratorInformers K E dc controller)
     (\<lambda>y s. case y of Inl _ \<Rightarrow> subscribed alloc M s
        | Inr dt \<Rightarrow> (\<exists>ps cs. dt = controller ps cs) \<and> subscribed alloc (M + mset (map snd (dtChildInformers dt) @ map snd (dtParentInformers dt))) s)"
    (is "hoare _ _ ?Q")
proof -
  have children: "hoare (subscribed alloc (M + mset (map snd ps)))
      (do { (e, cs) \<leftarrow> openInformers K E ''child'' as [];
            closeOnError E (map snd cs @ map snd ps) (case e of Some e \<Rightarrow> Inl e | None \<Rightarrow> Inr (controller ps cs)) }) ?Q" for ps
  proof (intro hoare_bind [OF subscribed_openAll [OF assms(3,5)]] hoare_cases)
    fix x :: "err option \<times> InformerMap" and e cs
    assume x: "x = (e, cs)"
    show "hoare (subscribed alloc (M + mset (map snd ps) + mset (map snd (snd x))))
        (closeOnError E (map snd cs @ map snd ps) (case e of Some e \<Rightarrow> Inl e | None \<Rightarrow> Inr (controller ps cs))) ?Q"
      by (rule hoare_strengthen [OF subscribed_closeOnError [OF assms(3)]]) (use assms(6) x in \<open>auto simp: ac_simps split: option.split\<close>)
  qed
  have opened: "hoare (subscribed alloc (M + mset (map snd (snd x))))
      (case x of (e, ps) \<Rightarrow>
         case e of Some e \<Rightarrow> closeOnError E (map snd ps) (Inl e)
         | None \<Rightarrow> do { (e, cs) \<leftarrow> openInformers K E ''child'' as [];
              closeOnError E (map snd cs @ map snd ps) (case e of Some e \<Rightarrow> Inl e | None \<Rightarrow> Inr (controller ps cs)) }) ?Q" for x
  proof (intro hoare_cases)
    fix e ps e'
    assume "x = (e, ps)"
    then show "hoare (subscribed alloc (M + mset (map snd (snd x)))) (closeOnError E (map snd ps) (Inl e')) ?Q"
      by (intro hoare_strengthen [OF subscribed_closeOnError [OF assms(3)]]) simp
  qed (use children in auto)
  show ?thesis
    unfolding openDecoratorInformers_def rs_def [symmetric] as_def [symmetric]
    by (rule hoare_bind [OF subscribed_openAll [OF assms(3,4)] opened])
qed

text \<open>What is left open by a controller that could not be made: nothing, or the namespace informer of its customize manager.\<close>

definition leftOpen :: "ResourceInformer multiset \<Rightarrow> bool" where
  "leftOpen L \<longleftrightarrow> (\<exists>rm. L = mset (managerInformers rm))"

lemma leftOpen_simps [simp]: "leftOpen {#}" "leftOpen (mset (managerInformers rm))"
proof -
  have "managerInformers (rm\<lparr>mgNsInformer := None\<rparr>) = []" by (simp add: managerInformers_def)
  then show "leftOpen {#}" unfolding leftOpen_def by (metis mset.simps(1))
qed (auto simp: leftOpen_def)

lemma hoare_newDecoratorController:
  assumes "fresh_law E alloc" "growing_env alloc E"
    and "uniqueResources K (map (\<lambda>r. (rrAPIVersion r, rrResource r)) (dcsResources (dcSpec dc)))"
    and "uniqueResources K (map (\<lambda>r. (rrAPIVersion r, rrResource r)) (dcsAttachments (dcSpec dc)))"
  shows "hoare (subscribed alloc M) (newDecoratorController K E resources dyn dc n opts)
     (\<lambda>y s. case y of Inl _ \<Rightarrow> \<exists>L. leftOpen L \<and> subscribed alloc (M + L) s | Inr dt \<Rightarrow> subscribed alloc (M + mset (decoratorInformers dt)) s)"
    (is "hoare _ _ ?Q")
proof -
  have none: "hoare (subscribed alloc M) (State_Monad.return (Inl e)) ?Q" for e
    by (rule hoare_return) (auto intro!: exI [of _ "{#}"])
  have early: "hoare (subscribed alloc (M + mset (managerInformers rm))) (State_Monad.return (Inl e)) ?Q" for e rm
    by (rule hoare_return) (auto intro!: exI [of _ "mset (managerInformers rm)"])
  have last: "hoare (subscribed alloc (M + mset (managerInformers rm))) (openDecoratorInformers K E dc controller) ?Q"
    if "\<And>ps cs. dtParentInformers (controller ps cs) = ps \<and> dtChildInformers (controller ps cs) = cs \<and>
        managerInformers (dtCustomize (controller ps cs)) = managerInformers rm" for rm controller
    using that
    by (intro hoare_weaken [OF hoare_openDecoratorInformers [OF assms(1,3,4)]])
      (auto simp: decoratorInformers_def ac_simps split: sum.splits intro!: exI [of _ "mset (managerInformers rm)"])
  have made: "hoare (subscribed alloc (case m of Inl _ \<Rightarrow> M | Inr rm \<Rightarrow> M + mset (managerInformers rm)))
      (case m of Inl e \<Rightarrow> State_Monad.return (Inl e) | Inr rm \<Rightarrow> F rm) ?Q"
    if "\<And>rm. hoare (subscribed alloc (M + mset (managerInformers rm))) (F rm) ?Q" for m F
    using that none by (cases m) simp_all
  show ?thesis
    unfolding newDecoratorController_def
    by (intro hoare_cases none hoare_bind [OF hoare_preserves [OF subscribed_world [OF growing_newHooks [OF assms(2)]]]]
        hoare_bind [OF subscribed_NewCustomizeManager [OF assms(1,2)]] made early last) (simp_all add: managerInformers_def)
qed

section \<open>Properties\<close>

text \<open>A decorator controller that is made holds exactly the subscriptions it opened.  One that cannot be made closes the informers of its
  resources and attachments again, but not always the one its customize manager opened: at most that one stays open.
  This needs resources and attachments to be listed once each, with API versions that parse.\<close>

theorem newDecoratorController_balance:
  assumes "fresh_law E alloc" "growing_env alloc E" "subscribed alloc M s"
    and "uniqueResources K (map (\<lambda>r. (rrAPIVersion r, rrResource r)) (dcsResources (dcSpec dc)))"
    and "uniqueResources K (map (\<lambda>r. (rrAPIVersion r, rrResource r)) (dcsAttachments (dcSpec dc)))"
    and "run_state (newDecoratorController K E resources dyn dc n opts) s = (r, s')"
  shows "case r of
      Inl _ \<Rightarrow> \<exists>L. size L \<le> 1 \<and> subscribed alloc (M + L) s'
    | Inr dt \<Rightarrow> subscribed alloc (M + mset (decoratorInformers dt)) s'"
proof -
  have "size L \<le> 1" if "leftOpen L" for L
    using that by (auto simp: leftOpen_def managerInformers_def split: option.splits)
  then show ?thesis
    using hoareD [OF hoare_newDecoratorController [OF assms(1,2,4,5)] assms(3,6)] by (auto split: sum.splits)
qed

text \<open>Stopping a decorator controller closes what it opened, its related informers included, and nothing else, and does not panic.\<close>

theorem Decorator_Stop_releases:
  assumes "fresh_law E alloc" "growing_env alloc E" "subscribed alloc M s"
    and "mset (map snd (relatedInformers (dtCustomize dt) s) @ decoratorInformers dt) \<subseteq># M"
    and "run_state (Decorator_Stop E dt) s = (r, s')"
  shows "r = None \<and> subscribed alloc (M - mset (map snd (relatedInformers (dtCustomize dt) s) @ decoratorInformers dt)) s'"
proof -
  let ?ris = "map snd (dtChildInformers dt) @ map snd (dtParentInformers dt)" and ?rel = "relatedInformers (dtCustomize dt) s"
  have "hoare (\<lambda>s. subscribed alloc M s \<and> relatedInformers (dtCustomize dt) s = ?rel) (Decorator_Stop E dt)
     (\<lambda>x s. x = None \<and> subscribed alloc (M - mset (map snd ?rel @ ?ris @ managerInformers (dtCustomize dt))) s)"
    unfolding Decorator_Stop_def
    by (rule hoare_stopInformers [OF assms(1,2)]) (use assms(4) in \<open>simp add: decoratorInformers_def\<close>)
  from hoareD [OF this _ assms(5)] assms(3) show ?thesis by (simp add: decoratorInformers_def)
qed

text \<open>C36: An object whose deletion was noticed only by a relist is never synced: its queue key is the cache's, without the API version
  and kind that the decorator's keys have, so the sync fails, and the key is queued again, for ever.\<close>

theorem tombstone_never_synced:
  assumes "CHR '':'' \<notin> set key" "queue_law E pending" "run_state (QueueGet E (dtQueue dt)) w = (Some key, w1)"
  shows "parentQueueKey K (EvTombstone key obj) = Inr key \<and>
     (\<exists>w'. run_state (Decorator_processNextWorkItem K E dt) (w, p) = (Inr True, (w', p)) \<and> key \<in> pending (dtQueue dt) w')"
proof -
  have "length (splitN (CHR '':'') 4 key) = 1" using assms(1) by (simp add: eval_nat_numeral)
  then have "run_state (Decorator_sync K E dt key) (w1, p) = (Some (Errorf (''invalid parent key: '' @ fmtQ key) None), (w1, p))"
    by (simp add: Decorator_sync_def splitParentQueueKey_def)
  then have "\<exists>w'. run_state (Decorator_processNextWorkItem K E dt) (w, p) = (Inr True, (w', p)) \<and> key \<in> pending (dtQueue dt) w'"
    unfolding Decorator_processNextWorkItem_def
    by (rule processItem_requeues [where syncKey = "Decorator_sync K E dt", OF assms(2,3)]) simp
  then show ?thesis by simp
qed

section \<open>Witnesses\<close>

text \<open>A cluster whose discovery knows namespaces only, and a decorator for pods.\<close>

definition nsResources :: ResourceMap where
  "nsResources = \<lparr>rmGroupVersions = Some [(''v1'',
     \<lparr>gveHeap = [(rcAPIResource podClient)\<lparr>arName := ''namespaces'', arKind := ''Namespace'', arNamespaced := False\<rparr>],
      gveResources = [(''namespaces'', 0)], gveKinds = [(''Namespace'', 0)], gveSubresources = []\<rparr>)]\<rparr>"

definition nsClientset :: Clientset where
  "nsClientset = \<lparr>csResources = nsResources\<rparr>"

definition nsProc :: proc where
  "nsProc = emptyProc\<lparr>pcFactory := NewSharedInformerFactory nsClientset 0\<rparr>"

abbreviation optsW :: ApplyOptions where
  "optsW \<equiv> \<lparr>aoFieldManager = '''', aoStrategy = ''''\<rparr>"

lemma nsClientset_Resource:
  "\<exists>rc. Clientset_Resource refK nsClientset ''v1'' ''namespaces'' = Inr rc"
  by (simp add: Clientset_Resource_def nsClientset_def nsResources_def ResourceMap_Get_def Clientset_resource_def
      APIResource_GroupVersionResource_def APIResource_GroupVersion_def podClient_def refK_simps refGroupVersion_def numeral_2_eq_2 Let_def)

text \<open>A decorator for a resource that discovery does not know cannot be made, and leaves the informer for namespaces open.\<close>

lemma newDecoratorController_leaks:
  "\<exists>e s'. run_state (newDecoratorController refK refE nsResources nsClientset decoratorW 1 optsW) (podStore, nsProc) = (Inl e, s') \<and>
     refCountOf (pcFactory (snd s')) ''namespaces.v1'' = 1"
proof -
  obtain rc where rc: "Clientset_Resource refK nsClientset ''v1'' ''namespaces'' = Inr rc" using nsClientset_Resource by blast
  have "ResourceMap_Get nsResources ''v1'' ''pods'' = None" by (simp add: nsResources_def ResourceMap_Get_def)
  then have "newDecoratorSelector refK nsResources decoratorW = Inl (Errorf (''can't find resource '' @ fmtQ ''pods'' @ '' in apiVersion '' @ fmtQ ''v1'') None)"
    by (simp add: newDecoratorSelector_def decoratorW_def)
  then show ?thesis
    by (simp add: newDecoratorController_def decoratorW_def newHooks_def NewHook_def ResolveEndpointConfig_def Decorator_syncWebhook_def
        Decorator_finalizeWebhook_def NewCustomizeManager_def newCustomizeHook_def DecoratorController_GetCustomizeHook_def IsInitialized_def
        Factory_Resource_def getFactory_def modifyFactory_def newResourceInformer_def newSharedResourceInformer_def nsProc_def emptyProc_def
        NewSharedInformerFactory_def rc refEnv_simps logE_def newResponseCache_def setRelated_def refCountOf_def resourceKey_def Let_def)
qed

theorem newDecoratorController_balance_witness:
  "\<exists>e s' L. run_state (newDecoratorController refK refE nsResources nsClientset decoratorW 1 optsW) (podStore, nsProc) = (Inl e, s') \<and>
     size L \<le> 1 \<and> subscribed (\<lambda>w. {..<length (wLog w)}) L s'"
proof -
  obtain e s' where run: "run_state (newDecoratorController refK refE nsResources nsClientset decoratorW 1 optsW) (podStore, nsProc) = (Inl e, s')"
    using newDecoratorController_leaks by blast
  have "subscribed (\<lambda>w. {..<length (wLog w)}) {#} (podStore, nsProc)"
    by (simp add: subscribed_def nsProc_def factory_inv_start)
  from newDecoratorController_balance [OF refE_fresh refE_growing this _ _ run] run show ?thesis
    by (auto simp: uniqueResources_def decoratorW_def refK_simps refGroupVersion_def)
qed

theorem Decorator_Stop_releases_witness:
  "\<exists>dt s s'. subscribed (\<lambda>w. {..<length (wLog w)}) (mset (decoratorInformers dt)) s \<and> decoratorInformers dt \<noteq> [] \<and>
     run_state (Decorator_Stop refE dt) s = (None, s') \<and> subscribed (\<lambda>w. {..<length (wLog w)}) {#} s'"
proof -
  obtain x s where open': "run_state (liftFactory (Factory_Resource refK refE ''v1'' ''pods'')) (podStore, emptyProc) = (x, s)" by (metis surj_pair)
  obtain ri where sub: "subscribed (\<lambda>w. {..<length (wLog w)}) {#ri#} s" using open_pods(1) [OF open'] by blast
  define dt where "dt = decoratorControllerW\<lparr>dtParentInformers := [(resourceOf refK ''v1'' ''pods'', ri)],
    dtCustomize := relatedManager\<lparr>mgNsInformer := None\<rparr>\<rparr>"
  have ri: "decoratorInformers dt = [ri]" "relatedInformers (dtCustomize dt) s = []"
    by (simp_all add: dt_def decoratorInformers_def managerInformers_def decoratorControllerW_def relatedInformers_def open_pods(2) [OF open'])
  obtain r s' where run: "run_state (Decorator_Stop refE dt) s = (r, s')" by (metis surj_pair)
  have "r = None" "subscribed (\<lambda>w. {..<length (wLog w)}) {#} s'"
    using Decorator_Stop_releases [OF refE_fresh refE_growing sub _ run] ri by simp_all
  with run ri sub show ?thesis by (intro exI [of _ dt] exI [of _ s] exI [of _ s']) simp
qed

theorem tombstone_never_synced_witness:
  "\<exists>w'. run_state (Decorator_processNextWorkItem refK queueEnv decoratorControllerW) (emptyWorld, emptyProc) = (Inr True, (w', emptyProc)) \<and>
     ''ns/p'' \<in> refPending (dtQueue decoratorControllerW) w'"
  using tombstone_never_synced [OF _ queueEnv_law, of "''ns/p''" decoratorControllerW emptyWorld emptyWorld refK None emptyProc]
  by (simp add: queueEnv_def)

end
