(* ===== verification/Composite.thy ===== *)
theory Composite
  imports Control Rolling ControllerRef
begin

text \<open>
  The composite controller's work on one parent: \<^verbatim>\<open>pkg/controller/composite/{controller,hooks,controller_revision}.go\<close>
  and the request builders of \<^verbatim>\<open>composite/api\<close>.  Events, queues and the life of a controller are in theory
  \<open>Composite_Control\<close>.  The hooks of several revisions are called in the order of the list; the code calls them in
  parallel.  Log output and Kubernetes events are not modelled.
\<close>

section \<open>The controller\<close>

record parentController =
  ptCC :: CompositeController
  ptParentResource :: APIResource
  ptDynClient :: Clientset
  ptParentClient :: ResourceClient
  ptParentInformer :: ResourceInformer
  ptParentSelector :: "selector option"
  ptQueue :: string
  ptUpdateStrategy :: updateStrategyMap
  ptChildInformers :: InformerMap
  ptNumWorkers :: nat
  ptSsaOptions :: ApplyOptions
  ptFinalizer :: Finalizer.Manager
  ptCustomize :: Customize.Manager
  ptSyncHook :: hookExecutorImpl
  ptFinalizeHook :: hookExecutorImpl

definition doNotMatchLabels :: "parentController \<Rightarrow> strmap option \<Rightarrow> bool" where
  "doNotMatchLabels pc labelsMap \<longleftrightarrow> (case ptParentSelector pc of None \<Rightarrow> False | Some s \<Rightarrow> \<not> Matches s labelsMap)"

text \<open>The test that opens every operation on a parent: it does not match the selector and lacks the finalizer.\<close>

definition ignoresParent :: "'w k8s \<Rightarrow> parentController \<Rightarrow> unstructured \<Rightarrow> bool" where
  "ignoresParent K pc parent \<longleftrightarrow>
     \<not> ContainsFinalizer K parent (fmName (ptFinalizer pc)) \<and> doNotMatchLabels pc (GetLabels K parent)"

section \<open>Selectors\<close>

definition GetNestedFieldInto :: "'w k8s \<Rightarrow> (string \<Rightarrow> 'a \<Rightarrow> err + 'a) \<Rightarrow> 'a \<Rightarrow> jobj \<Rightarrow> string list \<Rightarrow> err + 'a" where
  "GetNestedFieldInto K decode out obj path =
     (case NestedFieldNoCopy K obj path of
        Inl e \<Rightarrow> Inl (wrapErr (''can't get nested field '' @ joinWith ''.'' path) e)
      | Inr None \<Rightarrow> Inr out
      | Inr (Some objMap) \<Rightarrow>
          (case Marshal K objMap of
             Inl e \<Rightarrow> Inl (wrapErr (''can't encode nested field '' @ joinWith ''.'' path) e)
           | Inr data \<Rightarrow>
               (case decode data out of
                  Inl e \<Rightarrow> Inl (wrapErr (''can't decode nested field '' @ joinWith ''.'' path) e)
                | Inr x \<Rightarrow> Inr x)))"

definition isUsingGeneratedLabelSelector :: "parentController \<Rightarrow> bool" where
  "isUsingGeneratedLabelSelector pc \<longleftrightarrow> ccsGenerateSelector (ccSpec (ptCC pc)) = Some True"

definition makeSelector :: "'w k8s \<Rightarrow> 'w env \<Rightarrow> parentController \<Rightarrow> unstructured \<Rightarrow> strmap \<Rightarrow> err + selector" where
  "makeSelector K E pc parent extraMatchLabels =
     (let empty = \<lparr>MatchLabels = [], MatchExpressions = []\<rparr>;
          r = (if isUsingGeneratedLabelSelector pc then Inr (AddLabelToSelector E empty ''controller-uid'' (GetUID K parent))
               else (case GetNestedFieldInto K (DecodeLabelSelector E) empty parent [''spec'', ''selector''] of
                  Inl _ \<Rightarrow> Inl (Errorf (''can't get label selector from '' @ describeParent K (arKind (ptParentResource pc)) parent) None)
                | Inr s \<Rightarrow>
                    if MatchLabels s = [] \<and> MatchExpressions s = []
                    then Inl (Errorf ''.spec.selector must have either matchLabels, matchExpressions, or both'' None) else Inr s))
      in case r of
           Inl e \<Rightarrow> Inl e
         | Inr labelSelector \<Rightarrow>
             (let labelSelector = foldl (\<lambda>s p. AddLabelToSelector E s (fst p) (snd p)) labelSelector extraMatchLabels in
              case LabelSelectorAsSelector K labelSelector of
                Inl e \<Rightarrow> Inl (wrapErr ''can't convert label selector'' e)
              | Inr selector \<Rightarrow> Inr selector))"

section \<open>Hooks\<close>

definition shouldCallFinalizeHook :: "'w k8s \<Rightarrow> parentController \<Rightarrow> unstructured \<Rightarrow> bool" where
  "shouldCallFinalizeHook K pc parent \<longleftrightarrow>
     Hook_IsEnabled (ptFinalizeHook pc) \<and> (GetDeletionTimestamp K parent \<noteq> None \<or> doNotMatchLabels pc (GetLabels K parent))"

definition determineHookToCall :: "'w k8s \<Rightarrow> parentController \<Rightarrow> unstructured \<Rightarrow> hookCallInfo option" where
  "determineHookToCall K pc parent =
     (if shouldCallFinalizeHook K pc parent
      then Some \<lparr>hciVersion = hookExecutor_GetVersion (ptFinalizeHook pc), hciIsFinalizing = True, hciHookType = ''finalize''\<rparr>
      else if Hook_IsEnabled (ptSyncHook pc)
      then Some \<lparr>hciVersion = hookExecutor_GetVersion (ptSyncHook pc), hciIsFinalizing = False, hciHookType = ''sync''\<rparr>
      else None)"

text \<open>The root object of the request is the parent.\<close>

definition buildHookRequest :: "'w k8s \<Rightarrow> 'w env \<Rightarrow> parentController \<Rightarrow> hookCallInfo \<Rightarrow> unstructured \<Rightarrow> ObjectMap \<Rightarrow> ObjectMap \<Rightarrow> json" where
  "buildHookRequest K E pc hookInfo parent observedChildren related =
     encodeCompositeRequest (EncodeComposite E)
       (buildRequest K (hciVersion hookInfo = HookVersionV2) (ptCC pc) parent observedChildren related (hciIsFinalizing hookInfo))"

definition callHookExecutor :: "'w k8s \<Rightarrow> 'w env \<Rightarrow> parentController \<Rightarrow> hookCallInfo \<Rightarrow> json \<Rightarrow> unstructured \<Rightarrow> ('w, err + CompositeHookResponse) state" where
  "callHookExecutor K E pc hookInfo request parent =
     Hook_Call K E (if hciIsFinalizing hookInfo then ptFinalizeHook pc else ptSyncHook pc) (DecodeComposite E) request parent"

text \<open>The responses of both versions have the same fields, so converting one to the other is the identity.\<close>

definition executeHook :: "'w k8s \<Rightarrow> 'w env \<Rightarrow> parentController \<Rightarrow> hookCallInfo \<Rightarrow> json \<Rightarrow> unstructured \<Rightarrow> ('w, err + CompositeHookResponse) state" where
  "executeHook K E pc hookInfo request parent =
     do { r \<leftarrow> callHookExecutor K E pc hookInfo request parent;
          State_Monad.return (case r of
              Inl e \<Rightarrow> Inl (wrapErr (hciHookType hookInfo @ '' hook failed (version='' @
                (if hciVersion hookInfo = HookVersionV2 then ''v2'' else ''v1'') @ '')'') e)
            | Inr response \<Rightarrow> Inr (response\<lparr>chrChildren := applyNamespaceDefaults K parent (chrChildren response)\<rparr>)) }"

definition callHook :: "'w k8s \<Rightarrow> 'w env \<Rightarrow> parentController \<Rightarrow> unstructured \<Rightarrow> ObjectMap \<Rightarrow> ObjectMap \<Rightarrow> ('w, err + CompositeHookResponse option) state" where
  "callHook K E pc parent observedChildren related =
     (case determineHookToCall K pc parent of
        None \<Rightarrow> State_Monad.return (Inr None)
      | Some hookInfo \<Rightarrow>
          do { r \<leftarrow> executeHook K E pc hookInfo (buildHookRequest K E pc hookInfo parent observedChildren related) parent;
               State_Monad.return (map_sum id Some r) })"

section \<open>Claiming\<close>

definition canAdoptFunc :: "'w k8s \<Rightarrow> parentController \<Rightarrow> unstructured \<Rightarrow> ('w, err option) state" where
  "canAdoptFunc K pc parent =
     RecheckDeletionTimestamp
       (do { r \<leftarrow> ApiGet K (rcInterface (ResourceClient_Namespace (ptParentClient pc) (GetNamespace K parent))) (GetName K parent);
             State_Monad.return (case r of
                 Inl e \<Rightarrow> Inl e
               | Inr fresh \<Rightarrow>
                   if GetUID K fresh \<noteq> GetUID K parent
                   then Inl (Errorf (''original '' @ describeParent K (arKind (ptParentResource pc)) parent @ '' is gone: got uid '' @
                          GetUID K fresh @ '', wanted '' @ GetUID K parent) None)
                   else Inr (metaU K fresh)) })"

text \<open>Owned children and orphans, without repetition of a UID.\<close>

fun dedupUID :: "'w k8s \<Rightarrow> string list \<Rightarrow> unstructured list \<Rightarrow> unstructured list" where
  "dedupUID K seen [] = []"
| "dedupUID K seen (obj # objs) =
     (if GetUID K obj \<in> set seen then dedupUID K seen objs else obj # dedupUID K (GetUID K obj # seen) objs)"

definition candidates :: "'w k8s \<Rightarrow> 'w env \<Rightarrow> ResourceInformer \<Rightarrow> string \<Rightarrow> unstructured \<Rightarrow> string \<Rightarrow> ('w, err + unstructured list) state" where
  "candidates K E informer namespace parent childKind =
     do { r1 \<leftarrow> ListByOwnerUID K E informer (GetUID K parent) namespace;
          case r1 of
            Inl e \<Rightarrow> State_Monad.return (Inl (wrapErr (''can't list owned '' @ childKind @ '' children'') e))
          | Inr ownedByParent \<Rightarrow>
              do { r2 \<leftarrow> ListOrphans K E informer namespace;
                   State_Monad.return (case r2 of
                       Inl e \<Rightarrow> Inl (wrapErr (''can't list orphan '' @ childKind @ '' children'') e)
                     | Inr orphans \<Rightarrow> Inr (dedupUID K [] (ownedByParent @ orphans))) } }"

definition childManager :: "'w k8s \<Rightarrow> parentController \<Rightarrow> unstructured \<Rightarrow> selector \<Rightarrow> gvk \<Rightarrow> gvk \<Rightarrow> ResourceClient \<Rightarrow> 'w UnstructuredManager" where
  "childManager K pc parent selector parentGVK childGVK childClient =
     \<lparr>Controller = metaU K parent, Selector = selector, CanAdoptFunc = Some (canAdoptFunc K pc parent),
      umParentKind = parentGVK, umChildKind = childGVK, umClient = childClient\<rparr>"

fun claimKindsOf :: "'w k8s \<Rightarrow> 'w env \<Rightarrow> parentController \<Rightarrow> unstructured \<Rightarrow> selector \<Rightarrow> gvk \<Rightarrow> CompositeControllerChildResourceRule list
    \<Rightarrow> objectMap \<Rightarrow> ('w, err + objectMap) state" where
  "claimKindsOf K E pc parent selector parentGVK [] childMap = State_Monad.return (Inr childMap)"
| "claimKindsOf K E pc parent selector parentGVK (child # children) childMap =
     (case Clientset_Resource K (ptDynClient pc) (rrAPIVersion child) (rrResource child) of
        Inl e \<Rightarrow> State_Monad.return (Inl e)
      | Inr childClient \<Rightarrow>
          (case SyncMap_Get (ptChildInformers pc) (resourceOf K (rrAPIVersion child) (rrResource child)) of
             None \<Rightarrow> State_Monad.return (Inl (Errorf (''no informer for resource '' @ fmtQ (rrResource child) @ '' in apiVersion '' @ fmtQ (rrAPIVersion child)) None))
           | Some informer \<Rightarrow>
               do { r \<leftarrow> candidates K E informer (if arNamespaced (ptParentResource pc) then GetNamespace K parent else '''') parent
                         (arKind (rcAPIResource childClient));
                    case r of
                      Inl e \<Rightarrow> State_Monad.return (Inl e)
                    | Inr all \<Rightarrow>
                        (case APIResource_GroupVersionKind K (rcAPIResource childClient) of
                           Inl e \<Rightarrow> State_Monad.return (Inl e)
                         | Inr childGVK \<Rightarrow>
                             do { (c, _) \<leftarrow> withOnce (ClaimChildren K (childManager K pc parent selector parentGVK childGVK childClient) all) None;
                                  case snd c of
                                    Some e \<Rightarrow> State_Monad.return (Inl (wrapErr (''can't claim '' @ arKind (rcAPIResource childClient) @ '' children'') e))
                                  | None \<Rightarrow> claimKindsOf K E pc parent selector parentGVK children
                                      (foldl (UniformObjectMap_Insert K (metaU K parent)) (UniformObjectMap_InitGroup childMap childGVK) (fst c)) }) }))"

definition claimChildren :: "'w k8s \<Rightarrow> 'w env \<Rightarrow> parentController \<Rightarrow> unstructured \<Rightarrow> ('w, err + objectMap) state" where
  "claimChildren K E pc parent =
     (case APIResource_GroupVersionKind K (ptParentResource pc) of
        Inl e \<Rightarrow> State_Monad.return (Inl e)
      | Inr parentGVK \<Rightarrow>
          (case makeSelector K E pc parent [] of
             Inl e \<Rightarrow> State_Monad.return (Inl e)
           | Inr selector \<Rightarrow> claimKindsOf K E pc parent selector parentGVK (ccsChildResources (ccSpec (ptCC pc))) []))"

definition claimRevisions :: "'w k8s \<Rightarrow> 'w env \<Rightarrow> parentController \<Rightarrow> unstructured \<Rightarrow> ('w, err + ControllerRevision list) state" where
  "claimRevisions K E pc parent =
     (case APIResource_GroupVersionKind K (ptParentResource pc) of
        Inl e \<Rightarrow> State_Monad.return (Inl e)
      | Inr parentGVK \<Rightarrow>
          (case makeSelector K E pc parent [(labelKeyAPIGroup, arGroup (ptParentResource pc)), (labelKeyResource, arName (ptParentResource pc))] of
             Inl e \<Rightarrow> State_Monad.return (Inl e)
           | Inr selector \<Rightarrow>
               do { r \<leftarrow> RevisionList E (GetNamespace K parent);
                    case r of
                      Inl e \<Rightarrow> State_Monad.return (Inl (wrapErr ''can't list ControllerRevisions'' e))
                    | Inr all \<Rightarrow>
                        do { (c, _) \<leftarrow> withOnce (ClaimControllerRevisions K
                               \<lparr>Controller = metaU K parent, Selector = selector, CanAdoptFunc = Some (canAdoptFunc K pc parent),
                                crmParentKind = parentGVK, crmNamespace = GetNamespace K parent\<rparr> all) None;
                             State_Monad.return (case snd c of
                                 Some e \<Rightarrow> Inl (wrapErr ''can't claim ControllerRevisions'' e)
                               | None \<Rightarrow> Inr (fst c)) } }))"

section \<open>Revisions\<close>

definition newParentRevision :: "unstructured \<Rightarrow> ControllerRevision option \<Rightarrow> parentRevision" where
  "newParentRevision parent revision =
     \<lparr>prParent = parent, prRevision = revision, prSyncResult = None, prSyncError = None, prDesiredChildMap = []\<rparr>"

text \<open>The parent every revision stands for; the revision whose patch is the latest one belongs to the latest parent.\<close>

fun materialize :: "'w k8s \<Rightarrow> unstructured \<Rightarrow> jobj \<Rightarrow> string list \<Rightarrow> ControllerRevision list
    \<Rightarrow> err + ControllerRevision option \<times> parentRevision list" where
  "materialize K parent latestPatch fieldPaths [] = Inr (None, [])"
| "materialize K parent latestPatch fieldPaths (revision # revisions) =
     (case Unmarshal K (crParentPatch revision) of
        Inl e \<Rightarrow> Inl (wrapErr ''can't unmarshal ControllerRevision parentPatch'' e)
      | Inr patch \<Rightarrow>
          if patch = latestPatch then
            (case materialize K parent latestPatch fieldPaths revisions of
               Inl e \<Rightarrow> Inl e
             | Inr (latest, prs) \<Rightarrow> Inr (if latest = None then Some revision else latest, prs))
          else
            (case applyPatch K parent patch fieldPaths of
               Inl e \<Rightarrow> Inl e
             | Inr p \<Rightarrow>
                 (case materialize K parent latestPatch fieldPaths revisions of
                    Inl e \<Rightarrow> Inl e
                  | Inr (latest, prs) \<Rightarrow> Inr (latest, newParentRevision p (Some revision) # prs))))"

text \<open>One revision's hook call.  A hook that is not enabled answers nil, and reading it panics.\<close>

definition syncRevision :: "'w k8s \<Rightarrow> 'w env \<Rightarrow> (eventObj \<Rightarrow> ('w, unit) state) \<Rightarrow> parentController \<Rightarrow> unstructured \<Rightarrow> ObjectMap \<Rightarrow> parentRevision
    \<Rightarrow> ('w, parentRevision) pstate" where
  "syncRevision K E enqueue pc parent observedChildren pr =
     do { r \<leftarrow> GetRelatedObjects K E enqueue (ptCustomize pc) (prParent pr);
          case r of
            Inl e \<Rightarrow> State_Monad.return (pr\<lparr>prSyncError := Some e\<rparr>)
          | Inr related \<Rightarrow>
              do { s \<leftarrow> liftFst (callHook K E pc (prParent pr) observedChildren (UniformObjectMap related));
                   State_Monad.return (case s of
                       Inl e \<Rightarrow> pr\<lparr>prSyncError := Some e\<rparr>
                     | Inr None \<Rightarrow> pr\<lparr>prSyncError := Some GoPanic\<rparr>
                     | Inr (Some result) \<Rightarrow> pr\<lparr>prSyncResult := Some result,
                         prDesiredChildMap := MakeRelativeObjectMap K (metaU K parent) (chrChildren result)\<rparr>) } }"

fun mapState :: "('a \<Rightarrow> ('s, 'b) state) \<Rightarrow> 'a list \<Rightarrow> ('s, 'b list) state" where
  "mapState f [] = State_Monad.return []"
| "mapState f (x # xs) = do { y \<leftarrow> f x; ys \<leftarrow> mapState f xs; State_Monad.return (y # ys) }"

definition firstSyncError :: "parentRevision list \<Rightarrow> err option" where
  "firstSyncError prs =
     (let es = List.map_filter prSyncError prs in
      if es = [] then None else if GoPanic \<in> set es then Some GoPanic else Some (hd es))"

text \<open>Children still claimed by an older revision keep its version.\<close>

definition overrideClaimed :: "'w k8s \<Rightarrow> unstructured \<Rightarrow> objectMap \<Rightarrow> parentRevision \<Rightarrow> objectMap" where
  "overrideClaimed K parent desired pr =
     foldl (\<lambda>d ck. foldl (\<lambda>d name.
         case RelativeObjectMap_FindGroupKindName (prDesiredChildMap pr) (crcAPIGroup ck, crcKind ck) name of
           None \<Rightarrow> d
         | Some child \<Rightarrow> RelativeObjectMap_ReplaceObjectIfExists K (metaU K parent) d child) d (crcNames ck))
       desired (prChildren pr)"

definition smallestResync :: "rat \<Rightarrow> rat \<Rightarrow> rat" where
  "smallestResync acc secs = (if secs > 0 \<and> (acc = 0 \<or> secs < acc) then secs else acc)"

definition aggregateResult :: "'w k8s \<Rightarrow> unstructured \<Rightarrow> parentRevision list \<Rightarrow> err + CompositeHookResponse" where
  "aggregateResult K parent prs =
     (if prs = [] \<or> list_ex (\<lambda>pr. prSyncResult pr = None) prs then Inl GoPanic
      else
        (let results = List.map_filter prSyncResult prs;
             desiredChildren = foldl (overrideClaimed K parent) (prDesiredChildMap (hd prs)) (tl prs)
         in Inr \<lparr>chrStatus = chrStatus (hd results), chrChildren = RelativeObjectMap_List desiredChildren,
                 chrResyncAfterSeconds = foldl smallestResync 0 (map chrResyncAfterSeconds results),
                 chrFinalized = list_all chrFinalized results\<rparr>))"

definition revisionFieldPaths :: "parentController \<Rightarrow> string list" where
  "revisionFieldPaths pc =
     (case prRevisionHistory (ccsParentResource (ccSpec (ptCC pc))) of
        None \<Rightarrow> [''spec'']
      | Some rh \<Rightarrow> if FieldPaths rh = [] then [''spec''] else FieldPaths rh)"

definition rollRevisions :: "'w k8s \<Rightarrow> 'w env \<Rightarrow> (eventObj \<Rightarrow> ('w, unit) state) \<Rightarrow> parentController \<Rightarrow> unstructured \<Rightarrow> ObjectMap
    \<Rightarrow> ControllerRevision list \<Rightarrow> parentRevision list \<Rightarrow> ('w, err + CompositeHookResponse) pstate" where
  "rollRevisions K E enqueue pc parent observedChildren observedRevisions parentRevisions =
     do { prs \<leftarrow> mapState (syncRevision K E enqueue pc parent observedChildren) parentRevisions;
          case firstSyncError prs of
            Some e \<Rightarrow> State_Monad.return (Inl (wrapErr (''sync hook failed for '' @ describeParent K (arKind (ptParentResource pc)) parent) e))
          | None \<Rightarrow>
              (case syncRollingUpdate K (ptUpdateStrategy pc) prs observedChildren of
                 Inl e \<Rightarrow> State_Monad.return (Inl e)
               | Inr prs \<Rightarrow>
                   (let prs = pruneParentRevisions prs in
                    do { r \<leftarrow> liftFst (manageRevisions K (ptParentResource pc) parent observedRevisions (List.map_filter prRevision prs));
                         State_Monad.return (case r of
                             Some e \<Rightarrow> Inl (wrapErr (describeParent K (arKind (ptParentResource pc)) parent @ '': can't reconcile ControllerRevisions'') e)
                           | None \<Rightarrow> aggregateResult K parent prs) })) }"

definition syncRevisions :: "'w k8s \<Rightarrow> 'w env \<Rightarrow> (eventObj \<Rightarrow> ('w, unit) state) \<Rightarrow> parentController \<Rightarrow> unstructured \<Rightarrow> ObjectMap \<Rightarrow> ObjectMap
    \<Rightarrow> ('w, err + CompositeHookResponse) pstate" where
  "syncRevisions K E enqueue pc parent observedChildren relatedObjects =
     (if \<not> anyRolling (ptUpdateStrategy pc) \<or> GetDeletionTimestamp K parent \<noteq> None \<and> \<not> ShouldFinalize K (ptFinalizer pc) parent then
        do { r \<leftarrow> liftFst (callHook K E pc parent observedChildren relatedObjects);
             State_Monad.return (case r of
                 Inl e \<Rightarrow> Inl (wrapErr (''sync hook failed for '' @ describeParent K (arKind (ptParentResource pc)) parent) e)
               | Inr None \<Rightarrow> Inl (Errorf (''sync hook nil//not defined for '' @ describeParent K (arKind (ptParentResource pc)) parent @ '': %!w(<nil>)'') None)
               | Inr (Some result) \<Rightarrow> Inr result) }
      else
        do { r \<leftarrow> liftFst (claimRevisions K E pc parent);
             case r of
               Inl e \<Rightarrow> State_Monad.return (Inl e)
             | Inr observedRevisions \<Rightarrow>
                 (case makePatch K parent (revisionFieldPaths pc) of
                    Inl e \<Rightarrow> State_Monad.return (Inl e)
                  | Inr latestPatch \<Rightarrow>
                      (case materialize K parent latestPatch (revisionFieldPaths pc) observedRevisions of
                         Inl e \<Rightarrow> State_Monad.return (Inl e)
                       | Inr (found, prs) \<Rightarrow>
                           (case (case found of
                                    Some revision \<Rightarrow> Inr revision
                                  | None \<Rightarrow> newControllerRevision K (ptParentResource pc) (isUsingGeneratedLabelSelector pc) parent latestPatch) of
                              Inl e \<Rightarrow> State_Monad.return (Inl e)
                            | Inr revision \<Rightarrow>
                                rollRevisions K E enqueue pc parent observedChildren observedRevisions
                                  (newParentRevision parent (Some revision) # prs)))) })"

section \<open>Syncing a parent\<close>

text \<open>The key of a parent in the queue; \<^verbatim>\<open>KeyFunc\<close> accepts objects and tombstones.\<close>

definition enqueueParentObject :: "'w k8s \<Rightarrow> 'w env \<Rightarrow> parentController \<Rightarrow> eventObj \<Rightarrow> ('w, unit) state" where
  "enqueueParentObject K E pc obj =
     (if (case obj of EvObject parent \<Rightarrow> ignoresParent K pc parent | _ \<Rightarrow> False) then State_Monad.return ()
      else case KeyFunc E obj of
        Inl _ \<Rightarrow> State_Monad.return ()
      | Inr key \<Rightarrow> QueueAdd E (ptQueue pc) key)"

definition enqueueParentObjectAfter :: "'w env \<Rightarrow> parentController \<Rightarrow> eventObj \<Rightarrow> int \<Rightarrow> ('w, unit) state" where
  "enqueueParentObjectAfter E pc obj delay =
     (case KeyFunc E obj of
        Inl _ \<Rightarrow> State_Monad.return ()
      | Inr key \<Rightarrow> QueueAddAfter E (ptQueue pc) key delay)"

text \<open>The labels of a desired child, with the generated label when the selector is generated.\<close>

definition enforceChild :: "'w k8s \<Rightarrow> parentController \<Rightarrow> unstructured \<Rightarrow> selector \<Rightarrow> unstructured \<Rightarrow> err + unstructured" where
  "enforceChild K pc parent selector obj =
     (case NestedStringMap K obj [''metadata'', ''labels''] of
        Inl e \<Rightarrow> Inl (wrapErr (''invalid labels on desired child '' @ describeParent K (GetKind K obj) obj) e)
      | Inr objLabels \<Rightarrow>
          (let generate = isUsingGeneratedLabelSelector pc;
               missing = (map_of (orNil objLabels) ''controller-uid'' = None);
               labels' = (if generate then Some (if missing then jput ''controller-uid'' (GetUID K parent) (orNil objLabels) else orNil objLabels) else objLabels);
               obj' = (if generate \<and> missing then SetLabels K obj (orNil labels') else obj)
           in if \<not> Matches selector labels'
              then Inl (Errorf (''labels on desired child '' @ describeParent K (GetKind K obj) obj @ '' don't match parent selector'') None)
              else Inr obj'))"

fun enforceGroup :: "'w k8s \<Rightarrow> parentController \<Rightarrow> unstructured \<Rightarrow> selector \<Rightarrow> objectGroup \<Rightarrow> err + objectGroup" where
  "enforceGroup K pc parent selector [] = Inr []"
| "enforceGroup K pc parent selector ((name, obj) # grp) =
     (case enforceChild K pc parent selector obj of
        Inl e \<Rightarrow> Inl e
      | Inr obj' \<Rightarrow> map_sum id (\<lambda>g. (name, obj') # g) (enforceGroup K pc parent selector grp))"

fun enforceSelector :: "'w k8s \<Rightarrow> parentController \<Rightarrow> unstructured \<Rightarrow> selector \<Rightarrow> objectMap \<Rightarrow> err + objectMap" where
  "enforceSelector K pc parent selector [] = Inr []"
| "enforceSelector K pc parent selector ((g, grp) # m) =
     (case enforceGroup K pc parent selector grp of
        Inl e \<Rightarrow> Inl e
      | Inr grp' \<Rightarrow> map_sum id (\<lambda>m'. (g, grp') # m') (enforceSelector K pc parent selector m))"

definition updateParentStatus :: "'w k8s \<Rightarrow> parentController \<Rightarrow> unstructured \<Rightarrow> jobj option \<Rightarrow> ('w, err + unstructured) state" where
  "updateParentStatus K pc parent status =
     (let status = JObj (jput ''observedGeneration'' (JInt (GetGeneration K parent)) (orNil status)) in
      AtomicStatusUpdate K (ResourceClient_Namespace (ptParentClient pc) (GetNamespace K parent)) parent
        (\<lambda>obj. if jget obj ''status'' = status then (obj, False) else (jput ''status'' status obj, True)))"

text \<open>The end of a sync: the status is written whatever came of the children; a parent that is gone or was changed
  meanwhile is no error.\<close>

definition finishSync :: "'w k8s \<Rightarrow> parentController \<Rightarrow> unstructured \<Rightarrow> jobj option \<Rightarrow> err option \<Rightarrow> ('w, err option) state" where
  "finishSync K pc parent status manageErr =
     do { r \<leftarrow> updateParentStatus K pc parent status;
          State_Monad.return (case r of
              Inr _ \<Rightarrow> manageErr
            | Inl e \<Rightarrow>
                if IsNotFound K e \<or> IsConflict K e then None
                else Some (wrapErr (''can't update status for '' @ describeParent K (arKind (ptParentResource pc)) parent) e)) }"

definition manageParentChildren :: "'w k8s \<Rightarrow> parentController \<Rightarrow> unstructured \<Rightarrow> objectMap \<Rightarrow> objectMap \<Rightarrow> ('w, err option) cstate" where
  "manageParentChildren K pc parent observedChildren desiredChildren =
     (if GetDeletionTimestamp K parent = None \<or> ShouldFinalize K (ptFinalizer pc) parent then
        do { r \<leftarrow> ManageChildren K (ptDynClient pc) (GetMethod (ptUpdateStrategy pc)) parent
               (Some (UniformObjectMap observedChildren)) (Some (UniformObjectMap desiredChildren)) (ptSsaOptions pc);
             State_Monad.return (case r of
                 None \<Rightarrow> None
               | Some e \<Rightarrow> Some (wrapErr (''can't reconcile children for '' @ describeParent K (arKind (ptParentResource pc)) parent) e)) }
      else State_Monad.return None)"

text \<open>The second half of a sync, with the hook's answer.  The delay is \<^verbatim>\<open>float64\<close> seconds converted to nanoseconds.\<close>

definition applyResult :: "'w k8s \<Rightarrow> 'w env \<Rightarrow> parentController \<Rightarrow> unstructured \<Rightarrow> objectMap \<Rightarrow> CompositeHookResponse \<Rightarrow> ('w, err option) pstate" where
  "applyResult K E pc parent observedChildren syncResult =
     (let desiredChildren = MakeUniformObjectMap K (metaU K parent) (chrChildren syncResult) in
          do { (if chrResyncAfterSeconds syncResult > 0
                then liftFst (enqueueParentObjectAfter E pc (EvObject parent) \<lfloor>chrResyncAfterSeconds syncResult * 10 ^ 9\<rfloor>)
                else State_Monad.return ());
               p \<leftarrow> (if chrFinalized syncResult
                     then do { r \<leftarrow> liftFst (RemoveFinalizer K (ResourceClient_Namespace (ptParentClient pc) (GetNamespace K parent)) parent
                                 (fmName (ptFinalizer pc)));
                               State_Monad.return (case r of
                                   Inl e \<Rightarrow> Inl (wrapErr (''can't remove finalizer for '' @ describeParent K (GetKind K parent) parent) e)
                                 | Inr updatedParent \<Rightarrow> Inr updatedParent) }
                     else State_Monad.return (Inr parent));
               case p of
                 Inl e \<Rightarrow> State_Monad.return (Some e)
               | Inr parent \<Rightarrow>
                   (case makeSelector K E pc parent [] of
                      Inl e \<Rightarrow> State_Monad.return (Some e)
                    | Inr selector \<Rightarrow>
                        (case enforceSelector K pc parent selector desiredChildren of
                           Inl e \<Rightarrow> State_Monad.return (Some e)
                         | Inr desiredChildren \<Rightarrow>
                             do { manageErr \<leftarrow> liftCache (manageParentChildren K pc parent observedChildren desiredChildren);
                                  liftFst (finishSync K pc parent (chrStatus syncResult) manageErr) })) })"

definition syncParentObject :: "'w k8s \<Rightarrow> 'w env \<Rightarrow> parentController \<Rightarrow> unstructured \<Rightarrow> ('w, err option) pstate" where
  "syncParentObject K E pc parent =
     do { ce \<leftarrow> liftFst (CtxErr K);
          case ce of
            Some e \<Rightarrow> State_Monad.return (Some e)
          | None \<Rightarrow>
              if ignoresParent K pc parent then State_Monad.return None
              else
                do { f \<leftarrow> liftFst (SyncObject K (ptFinalizer pc) (ptParentClient pc) parent);
                     case f of
                       Inl e \<Rightarrow> State_Monad.return (Some (wrapErr (''can't sync finalizer for '' @ describeParent K (GetKind K parent) parent) e))
                     | Inr parent \<Rightarrow>
                         if ignoresParent K pc parent then State_Monad.return None
                         else
                           do { c \<leftarrow> liftFst (claimChildren K E pc parent);
                                case c of
                                  Inl e \<Rightarrow> State_Monad.return (Some e)
                                | Inr observedChildren \<Rightarrow>
                                    do { r \<leftarrow> GetRelatedObjects K E (enqueueParentObject K E pc) (ptCustomize pc) parent;
                                         case r of
                                           Inl e \<Rightarrow> State_Monad.return (Some e)
                                         | Inr relatedObjects \<Rightarrow>
                                             do { s \<leftarrow> syncRevisions K E (enqueueParentObject K E pc) pc parent
                                                    (UniformObjectMap observedChildren) (UniformObjectMap relatedObjects);
                                                  case s of
                                                    Inl e \<Rightarrow> State_Monad.return (Some e)
                                                  | Inr syncResult \<Rightarrow> applyResult K E pc parent observedChildren syncResult } } } } }"

section \<open>Claim candidates\<close>

text \<open>\<^verbatim>\<open>metav1.GetControllerOf\<close> is the first owner reference marked as the controller.\<close>

definition controllerOf_law :: "'w k8s \<Rightarrow> bool" where
  "controllerOf_law K \<longleftrightarrow> (\<forall>refs. GetControllerOf K refs = find (\<lambda>r. orController r = Some True) refs)"

lemma dedupUID_distinct:
  "distinct (map (GetUID K) objs) \<Longrightarrow> set seen \<inter> GetUID K ` set objs = {} \<Longrightarrow> dedupUID K seen objs = objs"
  by (induction objs arbitrary: seen) auto

lemma claimLoop_skip:
  assumes "\<And>x s. x \<in> set xs \<Longrightarrow> \<not> P x \<Longrightarrow> run_state (claim x) s = ((False, None), s)"
  shows "run_state (claimLoop claim xs) s = run_state (claimLoop claim (filter P xs)) s"
  using assms by (induction xs arbitrary: s) (auto simp: case_prod_beta)

lemma find_controllerRefs: "find (\<lambda>r. orController r = Some True) refs = (case filter (\<lambda>r. orController r = Some True) refs of [] \<Rightarrow> None | r # _ \<Rightarrow> Some r)"
  by (induction refs) auto

lemma ClaimObject_other_owner:
  assumes "controllerOf_law K" "controllerRefs K obj \<noteq> []" "moUID (Controller m) \<notin> orUID ` set (controllerRefs K obj)"
  shows "run_state (ClaimObject K m (metaU K) match adopt release obj) s = ((False, None), s)"
proof -
  obtain r rs where rs: "controllerRefs K obj = r # rs" using assms(2) by (cases "controllerRefs K obj") auto
  then have "GetControllerOf K (GetOwnerReferences K obj) = Some r"
    using assms(1) by (simp add: controllerOf_law_def find_controllerRefs controllerRefs_def)
  moreover have "orUID r \<noteq> moUID (Controller m)" using assms(3) rs by auto
  ultimately show ?thesis by (simp add: ClaimObject_def metaU_def)
qed

lemma mset_filter_disj: "(\<And>x. x \<in> set xs \<Longrightarrow> \<not> (P x \<and> Q x)) \<Longrightarrow> mset (filter P xs @ filter Q xs) = mset (filter (\<lambda>x. P x \<or> Q x) xs)"
  by (induction xs) auto

lemma candidates_run:
  fixes ns :: string and parent :: unstructured
  assumes "index_law K E store"
    and "distinct (map (GetUID K) (filter (inNamespace K ns) (store (sriInformer (riShared informer)) w)))"
  defines "cached \<equiv> filter (inNamespace K ns) (store (sriInformer (riShared informer)) w)"
    and "owned \<equiv> (\<lambda>u. GetUID K parent \<in> orUID ` set (controllerRefs K u))" and "orphan \<equiv> (\<lambda>u. controllerRefs K u = [])"
  shows "run_state (candidates K E informer ns parent kind) w = (Inr (filter owned cached @ filter orphan cached), w)"
proof -
  have f: "filter (\<lambda>u. inNamespace K ns u \<and> P u) (store (sriInformer (riShared informer)) w) = filter P cached" for P
    by (simp add: cached_def conj_commute)
  have "distinct (map (GetUID K) (filter owned cached @ filter orphan cached))"
  proof -
    have d: "distinct (map (GetUID K) cached)" using assms(2) by (simp add: cached_def)
    then have "distinct (map (GetUID K) (filter owned cached))" "distinct (map (GetUID K) (filter orphan cached))"
      by (simp_all add: distinct_map_filter)
    moreover have "GetUID K ` {u \<in> set cached. owned u} \<inter> GetUID K ` {u \<in> set cached. orphan u} = {}"
    proof (rule ccontr)
      assume "\<not> ?thesis"
      then obtain u v where uv: "u \<in> set cached" "v \<in> set cached" "owned u" "orphan v" "GetUID K u = GetUID K v" by blast
      then have "u = v" using d by (simp add: distinct_map inj_on_def)
      with uv show False by (simp add: owned_def orphan_def)
    qed
    ultimately show ?thesis by simp
  qed
  then have "dedupUID K [] (filter owned cached @ filter orphan cached) = filter owned cached @ filter orphan cached"
    by (rule dedupUID_distinct) simp
  then show ?thesis
    unfolding candidates_def
    by (simp add: ListByOwnerUID_run [OF assms(1)] ListOrphans_run [OF assms(1)] f flip: owned_def orphan_def)
qed

section \<open>Properties\<close>


lemma refE_index: "index_law refK refE (\<lambda>_. refStore)"
  by (auto simp: index_law_def refEnv_simps OwnerUIDIndex_def OrphanIndex_def ownerUIDIndexFunc_def orphanIndexFunc_def orphanIndexSentinel_def
      refK_simps list_ex_iff intro!: filter_cong)

lemma refK_controllerOf: "controllerOf_law refK"
  by (simp add: controllerOf_law_def refK_simps refControllerOf_def)


text \<open>Of the delays the revisions ask for the smallest positive one wins.\<close>

lemma foldl_smallestResync:
  "acc \<ge> 0 \<Longrightarrow> foldl smallestResync acc xs =
     (let ps = (if acc > 0 then {acc} else {}) \<union> {x \<in> set xs. x > 0} in if ps = {} then 0 else Min ps)"
proof (induction xs arbitrary: acc)
  case (Cons x xs)
  have nn: "smallestResync acc x \<ge> 0" using Cons.prems by (simp add: smallestResync_def)
  let ?S = "\<lambda>a. (if a > 0 then {a} else {}) \<union> {x \<in> set xs. x > 0}"
  let ?T = "(if acc > 0 then {acc} else {}) \<union> {y \<in> set (x # xs). y > 0}"
  have "(if ?S (smallestResync acc x) = {} then 0 else Min (?S (smallestResync acc x))) = (if ?T = {} then 0 else Min ?T)"
  proof (cases "x > 0 \<and> acc > 0")
    case True
    have T: "?T = insert (max acc x) (insert (min acc x) {y \<in> set xs. y > 0})" using True by (auto simp: max_def min_def)
    have S: "?S (smallestResync acc x) = insert (min acc x) {y \<in> set xs. y > 0}" using True by (auto simp: smallestResync_def min_def)
    have "Min ?T = min (max acc x) (Min (insert (min acc x) {y \<in> set xs. y > 0}))" unfolding T by (rule Min_insert) simp_all
    also have "\<dots> = Min (insert (min acc x) {y \<in> set xs. y > 0})"
      by (intro min.absorb2 order_trans [OF Min_le]) auto
    finally show ?thesis using S T by simp
  next
    case False
    then have "?S (smallestResync acc x) = ?T" using Cons.prems by (auto simp: smallestResync_def)
    then show ?thesis by (simp only:)
  qed
  then show ?case using Cons.IH [OF nn] by (simp only: Let_def foldl_Cons)
qed (simp add: Let_def)

text \<open>Replacing children never adds or removes one, and every replacement comes from the revision that claims it.\<close>

definition olderVersion :: "'w k8s \<Rightarrow> unstructured \<Rightarrow> parentRevision list \<Rightarrow> gvk \<Rightarrow> string \<Rightarrow> unstructured \<Rightarrow> bool" where
  "olderVersion K parent prs g n child \<longleftrightarrow>
     (\<exists>pr \<in> set prs. \<exists>ck \<in> set (prChildren pr). \<exists>name \<in> set (crcNames ck).
        RelativeObjectMap_FindGroupKindName (prDesiredChildMap pr) (crcAPIGroup ck, crcKind ck) name = Some child \<and>
        GroupVersionKind K child = g \<and> relativeName K (metaU K parent) child = n)"

definition replacedBy :: "(gvk \<Rightarrow> string \<Rightarrow> unstructured \<Rightarrow> bool) \<Rightarrow> objectMap \<Rightarrow> objectMap \<Rightarrow> bool" where
  "replacedBy Q d d' \<longleftrightarrow>
     (wfMap d \<longrightarrow> wfMap d') \<and>
     (\<forall>g n. (lookupObj d' g n = None \<longleftrightarrow> lookupObj d g n = None) \<and>
        (lookupObj d' g n \<noteq> lookupObj d g n \<longrightarrow> (\<exists>child. lookupObj d' g n = Some child \<and> Q g n child)))"

lemma replacedBy_refl [simp]: "replacedBy Q d d"
  by (simp add: replacedBy_def)

lemma replacedBy_trans: "replacedBy Q d d' \<Longrightarrow> replacedBy Q d' d'' \<Longrightarrow> replacedBy Q d d''"
  unfolding replacedBy_def by metis

lemma replacedBy_foldl:
  "(\<And>d x. x \<in> set xs \<Longrightarrow> replacedBy Q d (f d x)) \<Longrightarrow> replacedBy Q d (foldl f d xs)"
proof (induction xs arbitrary: d)
  case (Cons x xs)
  have "replacedBy Q d (f d x)" "replacedBy Q (f d x) (foldl f (f d x) xs)" using Cons by simp_all
  then show ?case by (simp add: replacedBy_trans)
qed simp

lemma replacedBy_replace:
  "Q (GroupVersionKind K child) (relativeName K p child) child \<Longrightarrow> replacedBy Q d (RelativeObjectMap_ReplaceObjectIfExists K p d child)"
  by (auto simp: replacedBy_def rom.wf_replace rom.lookup_replace simp flip: lookup_rom)

lemma overrideClaimed_replacedBy:
  assumes "pr \<in> set prs"
  shows "replacedBy (olderVersion K parent prs) d (overrideClaimed K parent d pr)"
  unfolding overrideClaimed_def
proof (intro replacedBy_foldl)
  fix d ck d' name
  assume ck: "ck \<in> set (prChildren pr)" "name \<in> set (crcNames ck)"
  show "replacedBy (olderVersion K parent prs) d'
      (case RelativeObjectMap_FindGroupKindName (prDesiredChildMap pr) (crcAPIGroup ck, crcKind ck) name of
         None \<Rightarrow> d' | Some child \<Rightarrow> RelativeObjectMap_ReplaceObjectIfExists K (metaU K parent) d' child)"
    using assms ck by (auto split: option.split intro!: replacedBy_replace simp: olderVersion_def) blast
qed


definition oldW :: parentRevision where
  "oldW = (parentRevisionW [deployW ''old''])\<lparr>prSyncResult := Some (emptyResponse\<lparr>chrResyncAfterSeconds := 3\<rparr>)\<rparr>"


section \<open>Checks before children are managed\<close>

text \<open>\<^verbatim>\<open>SetLabels\<close> stores what \<^verbatim>\<open>NestedStringMap\<close> reads.\<close>

definition labels_law :: "'w k8s \<Rightarrow> bool" where
  "labels_law K \<longleftrightarrow> (\<forall>obj ls. NestedStringMap K (SetLabels K obj ls) [''metadata'', ''labels''] = Inr (Some ls))"

definition checkedChild :: "'w k8s \<Rightarrow> parentController \<Rightarrow> unstructured \<Rightarrow> selector \<Rightarrow> unstructured \<Rightarrow> bool" where
  "checkedChild K pc parent selector obj \<longleftrightarrow>
     (\<exists>ls. NestedStringMap K obj [''metadata'', ''labels''] = Inr ls \<and>
        Matches selector ls \<and>
        (isUsingGeneratedLabelSelector pc \<longrightarrow> map_of (orNil ls) ''controller-uid'' \<noteq> None))"

lemma enforceChild_checked: "labels_law K \<Longrightarrow> enforceChild K pc parent selector obj = Inr obj' \<Longrightarrow> checkedChild K pc parent selector obj'"
  by (auto simp: enforceChild_def checkedChild_def labels_law_def Let_def split: sum.splits option.splits if_splits)

lemma enforceGroup_checked:
  "labels_law K \<Longrightarrow> enforceGroup K pc parent selector grp = Inr grp' \<Longrightarrow>
   map fst grp' = map fst grp \<and> (\<forall>obj \<in> snd ` set grp'. checkedChild K pc parent selector obj)"
proof (induction grp arbitrary: grp')
  case (Cons p grp)
  obtain n obj where p: "p = (n, obj)" by fastforce
  obtain obj' g where "enforceChild K pc parent selector obj = Inr obj'" "enforceGroup K pc parent selector grp = Inr g" "grp' = (n, obj') # g"
    using Cons.prems(2) unfolding p by (cases "enforceChild K pc parent selector obj"; cases "enforceGroup K pc parent selector grp") auto
  then show ?case using Cons.IH [OF Cons.prems(1), of g] enforceChild_checked [OF Cons.prems(1), of pc parent selector obj obj'] by (simp add: p)
qed simp

lemma enforceSelector_checked:
  "labels_law K \<Longrightarrow> enforceSelector K pc parent selector m = Inr m' \<Longrightarrow>
   map (\<lambda>p. (fst p, map fst (snd p))) m' = map (\<lambda>p. (fst p, map fst (snd p))) m \<and>
   (\<forall>p \<in> set m'. \<forall>obj \<in> snd ` set (snd p). checkedChild K pc parent selector obj)"
proof (induction m arbitrary: m')
  case (Cons p m)
  obtain g grp where p: "p = (g, grp)" by fastforce
  obtain grp' m1 where "enforceGroup K pc parent selector grp = Inr grp'" "enforceSelector K pc parent selector m = Inr m1" "m' = (g, grp') # m1"
    using Cons.prems(2) unfolding p by (cases "enforceGroup K pc parent selector grp"; cases "enforceSelector K pc parent selector m") auto
  then show ?case using Cons.IH [OF Cons.prems(1), of m1] enforceGroup_checked [OF Cons.prems(1), of pc parent selector grp grp'] by (simp add: p)
qed simp

section \<open>Confinement\<close>

text \<open>The writes a sync may make, and that a property of the world is to survive: the controller's finalizer put on or taken off an
  object, an owner reference added or removed, the status of an object replaced, revisions managed, and the children of a
  live or finalizing parent reconciled after the check of their labels.\<close>

definition syncAllows :: "('w \<Rightarrow> bool) \<Rightarrow> 'w k8s \<Rightarrow> 'w env \<Rightarrow> parentController \<Rightarrow> bool" where
  "syncAllows P K E pc \<longleftrightarrow>
     (\<forall>ri cur. preserves P (ApiUpdate K ri (AddFinalizerTo K cur (fmName (ptFinalizer pc))))) \<and>
     (\<forall>ri cur. preserves P (ApiUpdate K ri (RemoveFinalizerFrom K cur (fmName (ptFinalizer pc))))) \<and>
     (\<forall>ri cur p g. preserves P (ApiUpdate K ri (SetOwnerReferences K cur (addOwnerReference (GetOwnerReferences K cur) (controllerRefFor K p g))))) \<and>
     (\<forall>ri cur uid. preserves P (ApiUpdate K ri (SetOwnerReferences K cur (removeOwnerReference (GetOwnerReferences K cur) uid)))) \<and>
     (\<forall>rc cur g st. preserves P (storeStatus K rc (jput ''status'' (JObj (jput ''observedGeneration'' (JInt g) st)) cur))) \<and>
     (\<forall>ns n. preserves P (RevGet K ns n)) \<and> (\<forall>ns r. preserves P (RevCreate K ns r)) \<and> (\<forall>ns r. preserves P (RevUpdate K ns r)) \<and>
     (\<forall>ns n o'. preserves P (RevDelete K ns n o')) \<and>
     (\<forall>parent selector observed desired.
        (GetDeletionTimestamp K parent = None \<or> ShouldFinalize K (ptFinalizer pc) parent) \<longrightarrow>
        makeSelector K E pc parent [] = Inr selector \<longrightarrow>
        (\<forall>p \<in> set desired. \<forall>obj \<in> snd ` set (snd p). checkedChild K pc parent selector obj) \<longrightarrow>
        preserves (\<lambda>(w, c). P w) (ManageChildren K (ptDynClient pc) (GetMethod (ptUpdateStrategy pc)) parent
          (Some (UniformObjectMap observed)) (Some (UniformObjectMap desired)) (ptSsaOptions pc)))"

lemma quiet_callHook [pres]: "quiet P K E \<Longrightarrow> preserves P (callHook K E pc parent observed related)"
  unfolding callHook_def executeHook_def callHookExecutor_def by (auto intro!: pres split: option.split)

lemma quiet_candidates [pres]: "quiet P K E \<Longrightarrow> preserves P (candidates K E informer ns parent kind)"
  unfolding candidates_def ListByOwnerUID_def ListOrphans_def byIndexAndNamespace_def
  by (auto intro!: pres split: sum.split)

lemma quiet_canAdoptFunc [pres]: "quiet P K E \<Longrightarrow> preserves P (canAdoptFunc K pc parent)"
  unfolding canAdoptFunc_def RecheckDeletionTimestamp_def by (auto intro!: pres)

lemma quiet_enqueue [pres]: "quiet P K E \<Longrightarrow> preserves P (enqueueParentObject K E pc obj)"
  "quiet P K E \<Longrightarrow> preserves P (enqueueParentObjectAfter E pc obj d)"
  unfolding enqueueParentObject_def enqueueParentObjectAfter_def by (auto intro!: pres split: sum.split)

lemma preserves_mapState [pres]: "(\<And>x. preserves P (f x)) \<Longrightarrow> preserves P (mapState f xs)"
  by (induction xs) (auto intro!: pres)

lemma quiet_claimChildren [pres]:
  assumes "quiet P K E" "retry_law K" "syncAllows P K E pc"
  shows "preserves P (claimChildren K E pc parent)"
proof -
  have [pres]: "preserves (\<lambda>(w, s). P w) (ClaimChildren K (childManager K pc parent selector parentGVK childGVK childClient) all)"
    for selector parentGVK childGVK childClient all
    unfolding ClaimChildren_def
    by (intro pres preserves_claimLoop preserves_ClaimObject adoptChild_confined releaseChild_confined assms(1,2))
      (use assms in \<open>auto simp: syncAllows_def childManager_def intro!: pres split: prod.split\<close>)
  have [pres]: "preserves P (claimKindsOf K E pc parent selector parentGVK children m)" for selector parentGVK children m
    using assms(1) by (induction children arbitrary: m) (auto intro!: pres split: sum.split option.split prod.split)
  show ?thesis unfolding claimChildren_def by (auto intro!: pres split: sum.split)
qed

lemma quiet_claimRevisions [pres]:
  assumes "quiet P K E" "retry_law K" "syncAllows P K E pc"
  shows "preserves P (claimRevisions K E pc parent)"
proof -
  have [pres]: "preserves P (UpdateWithRetries K ns r upd)" for ns r upd
    by (rule uwr.confined) (use assms in \<open>auto simp: syncAllows_def intro: pres\<close>)
  have [pres]: "preserves (\<lambda>(w, s). P w) (CanAdopt m)" if "CanAdoptFunc m = Some (canAdoptFunc K pc parent)" for m :: "'a ControllerRevisionManager"
    using assms(1) that by (auto intro!: preserves_CanAdopt pres)
  have [pres]: "preserves (\<lambda>(w, s). P w) (ClaimControllerRevisions K m all)" if "CanAdoptFunc m = Some (canAdoptFunc K pc parent)" for m all
    unfolding ClaimControllerRevisions_def
    by (intro pres preserves_claimLoop preserves_ClaimObject)
      (use that in \<open>auto simp: adoptControllerRevision_def releaseControllerRevision_def intro!: pres split: prod.split option.split\<close>)
  show ?thesis
    using assms(1) unfolding claimRevisions_def by (auto intro!: pres split: sum.split)
qed

lemma quiet_manageRevisions [pres]:
  assumes "syncAllows P K E pc"
  shows "preserves P (manageRevisions K r parent observed desired)"
proof -
  have [pres]: "preserves P (deleteRevisions K r parent m rs)" "preserves P (writeRevisions K r parent m rs)" for m rs
    using assms by (induction rs) (auto simp: syncAllows_def Let_def intro!: pres split: option.split sum.split)
  show ?thesis unfolding manageRevisions_def by (auto intro!: pres split: option.split)
qed

lemma quiet_syncRevisions [pres]:
  assumes "quiet P K E" "retry_law K" "syncAllows P K E pc" "\<And>obj. preserves P (enqueue obj)"
  shows "preserves (\<lambda>(w, p). P w) (syncRevisions K E enqueue pc parent observed related)"
proof -
  have [pres]: "preserves (\<lambda>(w, p). P w) (syncRevision K E enqueue pc parent observed pr)" for pr
    using assms unfolding syncRevision_def by (auto intro!: pres split: sum.split)
  have [pres]: "preserves (\<lambda>(w, p). P w) (rollRevisions K E enqueue pc parent observed rs prs)" for rs prs
    using assms(3) unfolding rollRevisions_def Let_def by (auto intro!: pres split: sum.split option.split)
  show ?thesis
    using assms(1-3) unfolding syncRevisions_def by (auto intro!: pres split: sum.split option.split prod.split)
qed

lemma quiet_RemoveFinalizer:
  assumes "quiet P K E" "retry_law K" "syncAllows P K E pc"
  shows "preserves P (RemoveFinalizer K rc parent (fmName (ptFinalizer pc)))"
    and "preserves P (AddFinalizer K rc parent (fmName (ptFinalizer pc)))"
  unfolding RemoveFinalizer_def AddFinalizer_def
  by (rule au.confined; use assms in \<open>auto simp: syncAllows_def intro: pres split: if_splits\<close>)+

lemma quiet_finishSync:
  assumes "quiet P K E" "retry_law K" "syncAllows P K E pc"
  shows "preserves P (finishSync K pc parent status manageErr)"
proof -
  have "preserves P (updateParentStatus K pc parent status)"
    unfolding updateParentStatus_def Let_def
    by (rule asu.confined) (use assms in \<open>auto simp: syncAllows_def intro: pres split: if_splits\<close>)
  then show ?thesis unfolding finishSync_def by (auto intro!: pres)
qed

lemma quiet_applyResult:
  assumes "quiet P K E" "retry_law K" "labels_law K" "syncAllows P K E pc"
  shows "preserves (\<lambda>(w, p). P w) (applyResult K E pc parent observed result)"
proof -
  note [pres] = quiet_RemoveFinalizer(1) [OF assms(1,2,4)] quiet_finishSync [OF assms(1,2,4)]
  have [pres]: "preserves (\<lambda>(w, c). P w) (manageParentChildren K pc p observed desired)"
    if "makeSelector K E pc p [] = Inr selector" "enforceSelector K pc p selector m = Inr desired" for p selector m desired
    using assms(4) that enforceSelector_checked [OF assms(3) that(2)]
    unfolding manageParentChildren_def syncAllows_def by (auto intro!: pres)
  show ?thesis
    using assms(1) unfolding applyResult_def Let_def by (auto intro!: pres split: sum.split)
qed

lemma allowed_syncParentObject:
  assumes "quiet P K E" "retry_law K" "labels_law K" "syncAllows P K E pc"
  shows "preserves (\<lambda>(w, p). P w) (syncParentObject K E pc parent)"
proof -
  note [pres] = quiet_RemoveFinalizer [OF assms(1,2,4)] quiet_applyResult [OF assms]
  have [pres]: "preserves P (SyncObject K (ptFinalizer pc) rc obj)" for rc obj
    unfolding SyncObject_def by (auto intro!: pres)
  show ?thesis
    using assms(1,2,4) unfolding syncParentObject_def by (auto intro!: pres split: option.split sum.split)
qed


definition compositeW :: CompositeController where
  "compositeW = \<lparr>ccName = ''cc'', ccSpec = \<lparr>ccsParentResource = \<lparr>rrAPIVersion = ''v1'', rrResource = ''pods'', prRevisionHistory = None,
       prLabelSelector = None, prIgnoreStatusChanges = None\<rparr>, ccsChildResources = [], ccsHooks = None, ccsEndpointConfigs = [],
     ccsResyncPeriodSeconds = None, ccsGenerateSelector = Some True\<rparr>\<rparr>"

definition parentControllerW :: parentController where
  "parentControllerW = \<lparr>ptCC = compositeW, ptParentResource = rcAPIResource podClient, ptDynClient = \<lparr>csResources = \<lparr>rmGroupVersions = None\<rparr>\<rparr>,
     ptParentClient = podClient, ptParentInformer = podInformer 0, ptParentSelector = None, ptQueue = ''q'', ptUpdateStrategy = [],
     ptChildInformers = [], ptNumWorkers = 1, ptSsaOptions = \<lparr>aoFieldManager = '''', aoStrategy = ''dynamic-apply''\<rparr>,
     ptFinalizer = NewManager ''f'' True, ptCustomize = relatedManager, ptSyncHook = \<lparr>heExecutor = Some plainExecutor\<rparr>,
     ptFinalizeHook = \<lparr>heExecutor = None\<rparr>\<rparr>"

lemma refK_labels: "labels_law refK"
  by (simp add: labels_law_def refK_simps nestedStrMap_def putMeta_def)


section \<open>What a hook sees\<close>

text \<open>C10: A hook of a namespaced parent sees what the controller observed: under every type and every name of the parent's namespace, its
  request has exactly the child observed there, and likewise for related objects.  A hook of version 1 finds it under its
  plain name, a hook of version 2 under the name qualified by the namespace.\<close>

theorem hook_sees_observed:
  assumes "uniformlyKeyed K m" "list_all (\<lambda>p. plainType (fst p)) m" "uniformlyKeyed K m'" "list_all (\<lambda>p. plainType (fst p)) m'"
    and "GetNamespace K parent \<noteq> ''''" "CHR ''/'' \<notin> set (GetNamespace K parent)" "CHR ''/'' \<notin> set n" "plainType g"
  shows "\<exists>c r. readField (buildHookRequest K E pc hookInfo parent (UniformObjectMap m) (UniformObjectMap m')) ''children'' = Some c \<and>
     readField (buildHookRequest K E pc hookInfo parent (UniformObjectMap m) (UniformObjectMap m')) ''related'' = Some r \<and>
     (let name = GetNamespace K parent @ ''/'' @ n; key = (if hciVersion hookInfo = HookVersionV2 then name else n) in
      readObject c g key = map_option JObj (lookupObj m g name) \<and> readObject r g key = map_option JObj (lookupObj m' g name))"
proof -
  note read = requestMap_read [OF assms(1,2,8,5-7)] requestMap_read [OF assms(3,4,8,5-7)]
  show ?thesis
    using read by (simp add: buildHookRequest_def encodeCompositeRequest_def readField_def buildRequest_fields Let_def
        del: toRelativeObjectMap.simps toUniformObjectMap.simps)
qed

theorem hook_sees_observed_witness:
  "let m = MakeUniformObjectMap refK (metaU refK (podObj ''p'')) [podObj ''a''];
       request = buildHookRequest refK refE parentControllerW \<lparr>hciVersion = HookVersionV1, hciIsFinalizing = False, hciHookType = ''sync''\<rparr>
         (podObj ''p'') (UniformObjectMap m) (UniformObjectMap m)
   in \<exists>c. readField request ''children'' = Some c \<and>
     readObject c \<lparr>gvkGroup = '''', gvkVersion = ''v1'', gvkKind = ''Pod''\<rparr> ''a'' = Some (JObj (podObj ''a''))"
proof -
  let ?m = "MakeUniformObjectMap refK (metaU refK (podObj ''p'')) [podObj ''a'']" and ?g = "\<lparr>gvkGroup = '''', gvkVersion = ''v1'', gvkKind = ''Pod''\<rparr>"
  let ?h = "\<lparr>hciVersion = HookVersionV1, hciIsFinalizing = False, hciHookType = ''sync''\<rparr>"
  have m: "?m = [(?g, [(''ns/a'', podObj ''a'')])]"
    by (simp add: MakeUniformObjectMap_def UniformObjectMap_InsertAll_def UniformObjectMap_Insert_def UniformObjectMap_InitGroup_def
      qualifiedName_def podObj_def refK_simps metaOf_def jget_def refName_def refGroupVersion_def Let_def numeral_2_eq_2)
  have ns: "GetNamespace refK (podObj ''p'') = ''ns''" by (simp add: podObj_def refK_simps metaOf_def jget_def)
  have "list_all (\<lambda>p. plainType (fst p)) ?m" "plainType ?g" "lookupObj ?m ?g ''ns/a'' = Some (podObj ''a'')"
    unfolding m by (simp_all add: plainType_def lookupObj_def)
  with hook_sees_observed [of refK ?m ?m "podObj ''p''" "''a''" ?g refE parentControllerW ?h] podMap_keyed [of "metaU refK (podObj ''p'')"] ns
  show ?thesis by (auto simp: Let_def)
qed

end
