(* ===== verification/Composite_Control.thy ===== *)
theory Composite_Control
  imports Composite
begin

text \<open>
  The composite controller around the work on one parent: event handlers, the work queue, the life of a controller
  (\<^verbatim>\<open>composite/controller.go\<close>) and the reconciler that keeps one controller per \<^verbatim>\<open>CompositeController\<close> object
  (\<^verbatim>\<open>composite/metacontroller.go\<close>).  The workers are repetitions of \<^verbatim>\<open>processNextWorkItem\<close>; contexts and the
  channel that waits for the workers are not modelled.
\<close>

section \<open>Events\<close>

text \<open>A resync hands the same pointer to both arguments, an update two objects of different resource versions: the code compares the
  pointers, the model the objects.\<close>

definition updateParentObject :: "'w k8s \<Rightarrow> 'w env \<Rightarrow> parentController \<Rightarrow> unstructured \<Rightarrow> unstructured \<Rightarrow> ('w, unit) state" where
  "updateParentObject K E pc old cur =
     (if prIgnoreStatusChanges (ccsParentResource (ccSpec (ptCC pc))) = Some True \<and>
         old \<noteq> cur \<and> GetGeneration K old = GetGeneration K cur \<and> GetLabels K old = GetLabels K cur \<and>
         GetAnnotations K old = GetAnnotations K cur \<and> GetDeletionTimestamp K cur = None
      then State_Monad.return ()
      else enqueueParentObject K E pc (EvObject cur))"

definition resolveControllerRef :: "'w k8s \<Rightarrow> 'w env \<Rightarrow> parentController \<Rightarrow> string \<Rightarrow> OwnerReference \<Rightarrow> ('w, unstructured option) state" where
  "resolveControllerRef K E pc childNamespace controllerRef =
     (if fst (ParseAPIVersion (orAPIVersion controllerRef)) \<noteq> arGroup (ptParentResource pc) \<or> orKind controllerRef \<noteq> arKind (ptParentResource pc)
      then State_Monad.return None
      else
        do { r \<leftarrow> GetObject E (ptParentInformer pc) (if arNamespaced (ptParentResource pc) then childNamespace else '''') (orName controllerRef);
             State_Monad.return (case r of
                 Inl _ \<Rightarrow> None
               | Inr parent \<Rightarrow>
                   if GetUID K parent \<noteq> orUID controllerRef then None
                   else if ignoresParent K pc parent then None
                   else Some parent) })"

definition notifyParent :: "'w k8s \<Rightarrow> 'w env \<Rightarrow> parentController \<Rightarrow> string \<Rightarrow> OwnerReference \<Rightarrow> ('w, unit) state" where
  "notifyParent K E pc childNamespace controllerRef =
     do { p \<leftarrow> resolveControllerRef K E pc childNamespace controllerRef;
          case p of
            None \<Rightarrow> State_Monad.return ()
          | Some parent \<Rightarrow> enqueueParentObject K E pc (EvObject parent) }"

definition childDeleted :: "'w k8s \<Rightarrow> 'w env \<Rightarrow> parentController \<Rightarrow> unstructured \<Rightarrow> ('w, unit) state" where
  "childDeleted K E pc child =
     (case GetControllerOf K (GetOwnerReferences K child) of
        None \<Rightarrow> State_Monad.return ()
      | Some controllerRef \<Rightarrow> notifyParent K E pc (GetNamespace K child) controllerRef)"

fun onChildDelete :: "'w k8s \<Rightarrow> 'w env \<Rightarrow> parentController \<Rightarrow> eventObj \<Rightarrow> ('w, unit) state" where
  "onChildDelete K E pc (EvObject child) = childDeleted K E pc child"
| "onChildDelete K E pc (EvTombstone _ (Some child)) = childDeleted K E pc child"
| "onChildDelete K E pc (EvTombstone _ None) = State_Monad.return ()"
| "onChildDelete K E pc EvOther = State_Monad.return ()"

definition findPotentialParents :: "'w k8s \<Rightarrow> 'w env \<Rightarrow> parentController \<Rightarrow> unstructured \<Rightarrow> ('w, unstructured list) state" where
  "findPotentialParents K E pc child =
     do { r \<leftarrow> ListerList E (sriInformer (riShared (ptParentInformer pc)))
            (if arNamespaced (ptParentResource pc) then GetNamespace K child else '''') (Everything K);
          State_Monad.return (case r of
              Inl _ \<Rightarrow> []
            | Inr parents \<Rightarrow> filter (\<lambda>parent. case makeSelector K E pc parent [] of
                  Inl _ \<Rightarrow> False
                | Inr selector \<Rightarrow> \<not> SelEmpty selector \<and> Matches selector (GetLabels K child)) parents) }"

definition onChildAdd :: "'w k8s \<Rightarrow> 'w env \<Rightarrow> parentController \<Rightarrow> unstructured \<Rightarrow> ('w, unit) state" where
  "onChildAdd K E pc child =
     (if GetDeletionTimestamp K child \<noteq> None then onChildDelete K E pc (EvObject child)
      else case GetControllerOf K (GetOwnerReferences K child) of
        Some controllerRef \<Rightarrow> notifyParent K E pc (GetNamespace K child) controllerRef
      | None \<Rightarrow>
          do { parents \<leftarrow> findPotentialParents K E pc child;
               forAll (\<lambda>parent. enqueueParentObject K E pc (EvObject parent)) parents })"

definition onChildUpdate :: "'w k8s \<Rightarrow> 'w env \<Rightarrow> parentController \<Rightarrow> unstructured \<Rightarrow> unstructured \<Rightarrow> ('w, unit) state" where
  "onChildUpdate K E pc oldChild curChild =
     (if GetResourceVersion K oldChild = GetResourceVersion K curChild then State_Monad.return ()
      else onChildAdd K E pc curChild)"

fun parentHandlers :: "'w k8s \<Rightarrow> 'w env \<Rightarrow> parentController \<Rightarrow> informerEvent \<Rightarrow> ('w, unit) state" where
  "parentHandlers K E pc (OnAdd obj _) = enqueueParentObject K E pc (EvObject obj)"
| "parentHandlers K E pc (OnUpdate old cur) = updateParentObject K E pc old cur"
| "parentHandlers K E pc (OnDelete obj) = enqueueParentObject K E pc obj"

fun childHandlers :: "'w k8s \<Rightarrow> 'w env \<Rightarrow> parentController \<Rightarrow> informerEvent \<Rightarrow> ('w, unit) state" where
  "childHandlers K E pc (OnAdd obj _) = onChildAdd K E pc obj"
| "childHandlers K E pc (OnUpdate old cur) = onChildUpdate K E pc old cur"
| "childHandlers K E pc (OnDelete obj) = onChildDelete K E pc obj"

section \<open>The queue\<close>

definition sync :: "'w k8s \<Rightarrow> 'w env \<Rightarrow> parentController \<Rightarrow> string \<Rightarrow> ('w, err option) pstate" where
  "sync K E pc key =
     (case SplitMetaNamespaceKey E key of
        Inl e \<Rightarrow> State_Monad.return (Some e)
      | Inr (namespace, name) \<Rightarrow>
          do { r \<leftarrow> liftFst (GetObject E (ptParentInformer pc) namespace name);
               case r of
                 Inl e \<Rightarrow> State_Monad.return (if IsNotFound K e then None else Some e)
               | Inr parent \<Rightarrow> syncParentObject K E pc parent })"

definition processNextWorkItem :: "'w k8s \<Rightarrow> 'w env \<Rightarrow> parentController \<Rightarrow> ('w, err + bool) pstate" where
  "processNextWorkItem K E pc = processItem E (ptQueue pc) (sync K E pc)"

section \<open>The life of a controller\<close>

definition syncWebhook :: "CompositeController \<Rightarrow> Webhook option" where
  "syncWebhook cc =
     (case ccsHooks (ccSpec cc) of None \<Rightarrow> None | Some hooks \<Rightarrow> (case cchSync hooks of None \<Rightarrow> None | Some h \<Rightarrow> hkWebhook h))"

definition finalizeWebhook :: "CompositeController \<Rightarrow> Webhook option" where
  "finalizeWebhook cc =
     (case ccsHooks (ccSpec cc) of None \<Rightarrow> None | Some hooks \<Rightarrow> (case cchFinalize hooks of None \<Rightarrow> None | Some h \<Rightarrow> hkWebhook h))"

definition finishController :: "'w k8s \<Rightarrow> 'w env \<Rightarrow> Clientset \<Rightarrow> CompositeController \<Rightarrow> nat \<Rightarrow> ApplyOptions \<Rightarrow> ResourceClient \<Rightarrow> updateStrategyMap
    \<Rightarrow> ResourceInformer \<Rightarrow> InformerMap \<Rightarrow> ('w, err + parentController) pstate" where
  "finishController K E dynClient cc numWorkers ssaOptions parentClient updateStrategy parentInformer childInformers =
     (let parentResource = rcAPIResource parentClient in
      case ccsHooks (ccSpec cc) of
        None \<Rightarrow> State_Monad.return (Inl (Errorf ''no hooks defined'' None))
      | Some hooks \<Rightarrow>
          do { h \<leftarrow> liftFst (newHooks E (ccName cc) ''CompositeController'' (CompositeController_GetEndpointConfigs cc)
                 (cchSync hooks) (syncWebhook cc) (cchFinalize hooks) (finalizeWebhook cc));
               case h of
                 Inl e \<Rightarrow> State_Monad.return (Inl e)
               | Inr (syncHook, finalizeHook) \<Rightarrow>
                   (case (case prLabelSelector (ccsParentResource (ccSpec cc)) of
                            None \<Rightarrow> Inr (Everything K) | Some s \<Rightarrow> LabelSelectorAsSelector K s) of
                      Inl e \<Rightarrow> State_Monad.return (Inl e)
                    | Inr parentSelector \<Rightarrow>
                        do { m \<leftarrow> NewCustomizeManager K E (ccName cc) (Composite cc) dynClient
                               (SyncMap_Set [] \<lparr>gvrGroup = arGroup parentResource, gvrVersion = arVersion parentResource, gvrResource = arName parentResource\<rparr> parentInformer)
                               (SyncMap_Set [] (arGroup parentResource, arKind parentResource) parentResource) ''CompositeController'';
                             State_Monad.return (case m of
                                 Inl e \<Rightarrow> Inl e
                               | Inr customize \<Rightarrow> Inr
                                   \<lparr>ptCC = cc, ptParentResource = parentResource, ptDynClient = dynClient, ptParentClient = parentClient,
                                    ptParentInformer = parentInformer, ptParentSelector = Some parentSelector,
                                    ptQueue = ''CompositeController-'' @ ccName cc, ptUpdateStrategy = updateStrategy,
                                    ptChildInformers = childInformers, ptNumWorkers = numWorkers, ptSsaOptions = ssaOptions,
                                    ptFinalizer = NewManager (''metacontroller.io/compositecontroller-'' @ ccName cc) (cchFinalize hooks \<noteq> None),
                                    ptCustomize = customize, ptSyncHook = syncHook, ptFinalizeHook = finalizeHook\<rparr>) }) })"

definition newParentController :: "'w k8s \<Rightarrow> 'w env \<Rightarrow> ResourceMap \<Rightarrow> Clientset \<Rightarrow> CompositeController \<Rightarrow> nat \<Rightarrow> ApplyOptions
    \<Rightarrow> ('w, err + parentController) pstate" where
  "newParentController K E resources dynClient cc numWorkers ssaOptions =
     (let rule = ccsParentResource (ccSpec cc) in
      case Clientset_Resource K dynClient (rrAPIVersion rule) (rrResource rule) of
        Inl e \<Rightarrow> State_Monad.return (Inl e)
      | Inr parentClient \<Rightarrow>
          (case makeUpdateStrategyMap resources cc of
             Inl e \<Rightarrow> State_Monad.return (Inl e)
           | Inr updateStrategy \<Rightarrow>
               do { p \<leftarrow> liftFactory (Factory_Resource K E (rrAPIVersion rule) (rrResource rule));
                    case p of
                      Inl e \<Rightarrow> State_Monad.return (Inl (wrapErr ''can't create informer for parent resource'' e))
                    | Inr parentInformer \<Rightarrow>
                        do { (e, childInformers) \<leftarrow> openInformers K E ''child''
                               (map (\<lambda>c. (rrAPIVersion c, rrResource c)) (ccsChildResources (ccSpec cc))) [];
                             r \<leftarrow> (case e of
                                     Some e \<Rightarrow> State_Monad.return (Inl e)
                                   | None \<Rightarrow> finishController K E dynClient cc numWorkers ssaOptions parentClient updateStrategy parentInformer childInformers);
                             closeOnError E (map snd childInformers @ [parentInformer]) r } }))"

definition controllerId :: "parentController \<Rightarrow> string" where
  "controllerId pc = ''CompositeController/'' @ ccName (ptCC pc)"

definition Start :: "'w k8s \<Rightarrow> 'w env \<Rightarrow> parentController \<Rightarrow> ('w, parentController) pstate" where
  "Start K E pc =
     (let pc = pc\<lparr>ptCustomize := Manager_Start (ptCustomize pc)\<rparr> in
      do { subscribeHandler K E (parentHandlers K E pc) (ptParentInformer pc) (controllerId pc, ParentHandler)
             (resyncPeriodOf (ccsResyncPeriodSeconds (ccSpec (ptCC pc))));
           SyncMap_ForEach (\<lambda>_ ri. subscribeHandler K E (childHandlers K E pc) ri (controllerId pc, ChildHandler) None) (ptChildInformers pc);
           State_Monad.return pc })"

definition cachesSynced :: "'w env \<Rightarrow> parentController \<Rightarrow> ('w, bool) state" where
  "cachesSynced E pc =
     (if Clientset_HasSynced (ptDynClient pc) then allSynced E (ptParentInformer pc # map snd (ptChildInformers pc))
      else State_Monad.return False)"

definition Stop :: "'w env \<Rightarrow> parentController \<Rightarrow> ('w, err option) pstate" where
  "Stop E pc = stopInformers E (ptQueue pc) (map snd (ptChildInformers pc) @ [ptParentInformer pc]) (ptCustomize pc)"

section \<open>Reconciling controllers\<close>

definition HasStatusSubresource :: "CustomResourceDefinition \<Rightarrow> string \<Rightarrow> bool" where
  "HasStatusSubresource crd version \<longleftrightarrow>
     list_ex (\<lambda>v. cvName v = version \<and> cvSubresources v = Some True) (crdVersions crd)"

record Metacontroller =
  mcResources :: ResourceMap
  mcDynClient :: Clientset
  mcNumWorkers :: nat
  mcSsaOptions :: ApplyOptions
  mcParentControllers :: "(string, parentController) SyncMap"

text \<open>The controllers that run, beside the process.\<close>

type_synonym ('w, 'a) mstate = "('w \<times> proc, 'a \<times> Metacontroller) state"

definition stopController :: "'w env \<Rightarrow> Metacontroller \<Rightarrow> string \<Rightarrow> ('w, err option) mstate" where
  "stopController E mc name =
     (case SyncMap_LoadAndDelete (mcParentControllers mc) name of
        (None, _) \<Rightarrow> State_Monad.return (None, mc)
      | (Some pc, m) \<Rightarrow> do { r \<leftarrow> Stop E pc; State_Monad.return (r, mc\<lparr>mcParentControllers := m\<rparr>) })"

definition reconcileCompositeController :: "'w k8s \<Rightarrow> 'w env \<Rightarrow> Metacontroller \<Rightarrow> CompositeController \<Rightarrow> ('w, err option) mstate" where
  "reconcileCompositeController K E mc cc =
     do { ce \<leftarrow> liftFst (CtxErr K);
          case ce of
            Some e \<Rightarrow> State_Monad.return (Some e, mc)
          | None \<Rightarrow>
              if (case SyncMap_Load (mcParentControllers mc) (ccName cc) of None \<Rightarrow> False | Some pc \<Rightarrow> ccSpec cc = ccSpec (ptCC pc))
              then State_Monad.return (None, mc)
              else
                do { (r, mc) \<leftarrow> stopController E mc (ccName cc);
                     case r of
                       Some e \<Rightarrow> State_Monad.return (Some e, mc)
                     | None \<Rightarrow>
                         do { n \<leftarrow> newParentController K E (mcResources mc) (mcDynClient mc) cc (mcNumWorkers mc) (mcSsaOptions mc);
                              case n of
                                Inl e \<Rightarrow> State_Monad.return (Some e, mc)
                              | Inr pc \<Rightarrow>
                                  do { pc \<leftarrow> Start K E pc;
                                       State_Monad.return (None, mc\<lparr>mcParentControllers := SyncMap_Store (mcParentControllers mc) (ccName cc) pc\<rparr>) } } } }"

definition Reconcile :: "'w k8s \<Rightarrow> 'w env \<Rightarrow> Metacontroller \<Rightarrow> string \<Rightarrow> ('w, err option) mstate" where
  "Reconcile K E mc name =
     do { r \<leftarrow> liftFst (GetCompositeController E name);
          case r of
            Inl e \<Rightarrow> if IsNotFound K e then stopController E mc name else State_Monad.return (Some e, mc)
          | Inr cc \<Rightarrow>
              (case ParseGroupVersion K (rrAPIVersion (ccsParentResource (ccSpec cc))) of
                 Inl e \<Rightarrow> State_Monad.return (Some e, mc)
               | Inr (g, version) \<Rightarrow>
                   do { crd \<leftarrow> liftFst (GetCRD E (rrResource (ccsParentResource (ccSpec cc)) @ ''.'' @ g));
                        case crd of
                          Inl e \<Rightarrow> State_Monad.return (Some e, mc)
                        | Inr parentCRD \<Rightarrow>
                            if \<not> HasStatusSubresource parentCRD version then State_Monad.return (None, mc)
                            else reconcileCompositeController K E mc cc }) }"

section \<open>Subscriptions of a controller\<close>

text \<open>What a controller keeps open: its parent's and children's informers and those of its customize manager.\<close>

definition controllerInformers :: "parentController \<Rightarrow> ResourceInformer list" where
  "controllerInformers pc = map snd (ptChildInformers pc) @ [ptParentInformer pc] @ managerInformers (ptCustomize pc)"

lemma subscribed_finishController:
  assumes "fresh_law E alloc" "growing_env alloc E"
  shows "hoare (subscribed alloc M) (finishController K E dyn cc n opts client strategy pinf cinfs)
     (\<lambda>x s. case x of Inl _ \<Rightarrow> subscribed alloc M s
        | Inr pc \<Rightarrow> ptParentInformer pc = pinf \<and> ptChildInformers pc = cinfs \<and> subscribed alloc (M + mset (managerInformers (ptCustomize pc))) s)"
proof (cases "ccsHooks (ccSpec cc)")
  case None
  then show ?thesis by (simp add: finishController_def Let_def hoare_return)
next
  case (Some hooks)
  let ?Q = "\<lambda>x s. case x of Inl _ \<Rightarrow> subscribed alloc M s
        | Inr pc \<Rightarrow> ptParentInformer pc = pinf \<and> ptChildInformers pc = cinfs \<and> subscribed alloc (M + mset (managerInformers (ptCustomize pc))) s"
  have last: "hoare (subscribed alloc M) (do { m \<leftarrow> NewCustomizeManager K E name controller dyn' infs kinds t;
      State_Monad.return (case m of Inl e \<Rightarrow> Inl e | Inr customize \<Rightarrow> Inr (f customize)) }) ?Q"
    if "\<And>c. ptParentInformer (f c) = pinf \<and> ptChildInformers (f c) = cinfs \<and> ptCustomize (f c) = c" for name controller dyn' infs kinds t f
    using that by (intro hoare_bind [OF subscribed_NewCustomizeManager [OF assms]] hoare_return) (auto split: sum.splits)
  show ?thesis
    unfolding finishController_def Let_def Some option.case
    by (intro hoare_bind [OF hoare_preserves [OF subscribed_world [OF growing_newHooks [OF assms(2)]]]] hoare_cases last)
      (simp_all add: hoare_return)
qed

lemma hoare_newParentController:
  assumes "fresh_law E alloc" "growing_env alloc E"
    and "\<forall>c \<in> set (ccsChildResources (ccSpec cc)). \<exists>gv. ParseGroupVersion K (rrAPIVersion c) = Inr gv"
    and "distinct (map (\<lambda>c. resourceOf K (rrAPIVersion c) (rrResource c)) (ccsChildResources (ccSpec cc)))"
  shows "hoare (subscribed alloc M) (newParentController K E resources dyn cc n opts)
     (\<lambda>y s. case y of Inl _ \<Rightarrow> subscribed alloc M s | Inr pc \<Rightarrow> subscribed alloc (M + mset (controllerInformers pc)) s)"
    (is "hoare _ _ ?Q")
proof -
  let ?rs = "map (\<lambda>c. (rrAPIVersion c, rrResource c)) (ccsChildResources (ccSpec cc))"
  have children: "hoare (subscribed alloc (add_mset pinf M)) (openInformers K E ''child'' ?rs [])
      (\<lambda>x. subscribed alloc (M + mset (map snd (snd x) @ [pinf])))" for pinf
    using subscribed_openInformers [OF assms(1), of ?rs K "[]" "add_mset pinf M" "''child''"] assms(3,4) by (simp add: comp_def ac_simps)
  have finish: "hoare (subscribed alloc (M + mset (map snd m @ [pinf])))
      (case e of Some e \<Rightarrow> State_Monad.return (Inl e) | None \<Rightarrow> finishController K E dyn cc n opts client strategy pinf m)
      (\<lambda>x s. case x of Inl _ \<Rightarrow> subscribed alloc (M + mset (map snd m @ [pinf])) s
         | Inr pc \<Rightarrow> subscribed alloc (M + mset (controllerInformers pc)) s)" for e client strategy pinf m
  proof (cases e)
    case None
    then show ?thesis
      by (auto simp: controllerInformers_def ac_simps split: sum.splits intro!: hoare_weaken [OF subscribed_finishController [OF assms(1,2)]])
  qed (simp add: hoare_return)
  have opened: "hoare (subscribed alloc (case p of Inl _ \<Rightarrow> M | Inr ri \<Rightarrow> add_mset ri M))
      (case p of Inl e \<Rightarrow> State_Monad.return (Inl (f e)) | Inr pinf \<Rightarrow>
         do { (e, m) \<leftarrow> openInformers K E ''child'' ?rs [];
              r \<leftarrow> (case e of Some e \<Rightarrow> State_Monad.return (Inl e) | None \<Rightarrow> finishController K E dyn cc n opts client strategy pinf m);
              closeOnError E (map snd m @ [pinf]) r }) ?Q" for p client strategy and f :: "err \<Rightarrow> err"
  proof (cases p)
    case (Inr pinf)
    have "hoare (subscribed alloc (M + mset (map snd m @ [pinf])))
        (do { r \<leftarrow> (case e of Some e \<Rightarrow> State_Monad.return (Inl e) | None \<Rightarrow> finishController K E dyn cc n opts client strategy pinf m);
              closeOnError E (map snd m @ [pinf]) r }) ?Q" for e m
      by (rule hoare_bind [OF finish subscribed_closeOnError [OF assms(1)]])
    then show ?thesis
      unfolding Inr sum.case by (intro hoare_bind [OF children]) (auto intro!: hoare_cases)
  qed (simp add: hoare_return)
  show ?thesis
    unfolding newParentController_def Let_def
    by (intro hoare_cases hoare_bind [OF subscribed_open [OF assms(1)] opened]) (simp_all add: hoare_return)
qed

lemma hoare_Stop:
  assumes "fresh_law E alloc" "growing_env alloc E" "mset (map snd related @ controllerInformers pc) \<subseteq># M"
  shows "hoare (\<lambda>s. subscribed alloc M s \<and> relatedInformers (ptCustomize pc) s = related) (Stop E pc)
     (\<lambda>x s. x = None \<and> subscribed alloc (M - mset (map snd related @ controllerInformers pc)) s)"
  using hoare_stopInformers [OF assms(1,2), of related "map snd (ptChildInformers pc) @ [ptParentInformer pc]" "ptCustomize pc" M "ptQueue pc"] assms(3)
  by (simp add: Stop_def controllerInformers_def)

section \<open>Properties\<close>

text \<open>A controller's subscriptions are balanced.  When a controller cannot be created, every informer opened on the way is closed again:
  the open subscriptions are those from before.  When it is created, exactly its own are added.  This needs
  child resources to be listed once, with API versions that parse.\<close>

theorem newParentController_balanced:
  assumes "fresh_law E alloc" "growing_env alloc E" "subscribed alloc M s"
    and "\<forall>c \<in> set (ccsChildResources (ccSpec cc)). \<exists>gv. ParseGroupVersion K (rrAPIVersion c) = Inr gv"
    and "distinct (map (\<lambda>c. resourceOf K (rrAPIVersion c) (rrResource c)) (ccsChildResources (ccSpec cc)))"
    and "run_state (newParentController K E resources dyn cc n opts) s = (r, s')"
  shows "subscribed alloc (case r of Inl _ \<Rightarrow> M | Inr pc \<Rightarrow> M + mset (controllerInformers pc)) s'"
  using hoareD [OF hoare_newParentController [OF assms(1,2,4,5)] assms(3,6)] by (simp split: sum.splits)

text \<open>Stopping a controller closes what it opened, its related informers included, and nothing else, and does not panic.\<close>

theorem Stop_releases:
  assumes "fresh_law E alloc" "growing_env alloc E" "subscribed alloc M s"
    and "mset (map snd (relatedInformers (ptCustomize pc) s) @ controllerInformers pc) \<subseteq># M"
    and "run_state (Stop E pc) s = (r, s')"
  shows "r = None \<and> subscribed alloc (M - mset (map snd (relatedInformers (ptCustomize pc) s) @ controllerInformers pc)) s'"
  using hoareD [OF hoare_Stop [OF assms(1,2,4)], of s r s'] assms(3,5) by simp

theorem newParentController_balanced_witness:
  "\<exists>e s'. run_state (newParentController refK refE podResources podClientset compositeW 1 \<lparr>aoFieldManager = '''', aoStrategy = ''''\<rparr>) (podStore, emptyProc) = (Inl e, s') \<and>
     subscribed (\<lambda>w. {..<length (wLog w)}) {#} s'"
proof -
  obtain r s' where run: "run_state (newParentController refK refE podResources podClientset compositeW 1 \<lparr>aoFieldManager = '''', aoStrategy = ''''\<rparr>) (podStore, emptyProc) = (r, s')"
    by (metis surj_pair)
  have "r = Inl (Errorf ''no hooks defined'' None)"
    using run by (simp add: newParentController_def compositeW_def podClientset_Resource makeUpdateStrategyMap_def Factory_Resource_def getFactory_def
        modifyFactory_def newResourceInformer_def newSharedResourceInformer_def emptyProc_def NewSharedInformerFactory_def refEnv_simps logE_def
        finishController_def closeOnError_def ResourceInformer_Close_def closeFn_def refCountOf_def resourceKey_def Let_def)
  with newParentController_balanced [OF refE_fresh refE_growing emptyProc_subscribed _ _ run] run show ?thesis
    by (simp add: compositeW_def)
qed

theorem Stop_releases_witness:
  "\<exists>pc s s'. subscribed (\<lambda>w. {..<length (wLog w)}) (mset (controllerInformers pc)) s \<and> controllerInformers pc \<noteq> [] \<and>
     run_state (Stop refE pc) s = (None, s') \<and> subscribed (\<lambda>w. {..<length (wLog w)}) {#} s'"
proof -
  obtain x s where open': "run_state (liftFactory (Factory_Resource refK refE ''v1'' ''pods'')) (podStore, emptyProc) = (x, s)" by (metis surj_pair)
  obtain ri where sub: "subscribed (\<lambda>w. {..<length (wLog w)}) {#ri#} s" using open_pods(1) [OF open'] by blast
  define pc where "pc = parentControllerW\<lparr>ptParentInformer := ri, ptCustomize := relatedManager\<lparr>mgNsInformer := None\<rparr>\<rparr>"
  have ri: "controllerInformers pc = [ri]" "relatedInformers (ptCustomize pc) s = []"
    by (simp_all add: pc_def controllerInformers_def managerInformers_def parentControllerW_def relatedInformers_def open_pods(2) [OF open'])
  obtain r s' where run: "run_state (Stop refE pc) s = (r, s')" by (metis surj_pair)
  have "r = None" "subscribed (\<lambda>w. {..<length (wLog w)}) {#} s'"
    using Stop_releases [OF refE_fresh refE_growing sub _ run] ri by simp_all
  with run ri sub show ?thesis by (intro exI [of _ pc] exI [of _ s] exI [of _ s']) simp
qed

text \<open>C17: No parent is forgotten after a failure: whatever error its sync ends in, its key is queued again when the worker
  is done with it, and the worker goes on.\<close>

theorem failed_sync_requeued:
  assumes "queue_law E pending" "run_state (QueueGet E (ptQueue pc)) w = (Some key, w1)"
    and "run_state (sync K E pc key) (w1, p) = (Some e, (w2, p2))" "e \<noteq> GoPanic"
  shows "\<exists>w'. run_state (processNextWorkItem K E pc) (w, p) = (Inr True, (w', p2)) \<and> key \<in> pending (ptQueue pc) w'"
  unfolding processNextWorkItem_def by (rule processItem_requeues [where syncKey = "sync K E pc", OF assms])

theorem failed_sync_requeued_witness:
  "\<exists>w'. run_state (processNextWorkItem refK queueEnv parentControllerW) (emptyWorld, emptyProc) = (Inr True, (w', emptyProc)) \<and>
     ''ns/p'' \<in> refPending (ptQueue parentControllerW) w'"
proof (rule failed_sync_requeued [where e = "LibErr ''bad key''"])
  show "queue_law queueEnv refPending" by (rule queueEnv_law)
qed (auto simp: queueEnv_def sync_def)

end
