(* ===== verification/Wake.thy ===== *)
theory Wake
  imports Composite_Control
begin

text \<open>
  Events of children and the parents they wake, \<^verbatim>\<open>composite/controller.go\<close>: an event about a child that a parent owns, or that it may
  adopt, ends with the parent's key in the work queue.
\<close>

section \<open>Parents in the cache\<close>

text \<open>What the cache of parents shows: all of them in a list, and each by its namespace and name.\<close>

definition parents_shown :: "'w k8s \<Rightarrow> 'w env \<Rightarrow> nat \<Rightarrow> 'w \<Rightarrow> unstructured list \<Rightarrow> bool" where
  "parents_shown K E i w cached \<longleftrightarrow>
     lister_shows K E i w cached \<and>
     (\<forall>p \<in> set cached. run_state (ListerGet E i (GetNamespace K p) (GetName K p)) w = (Inr p, w))"

lemma GetObject_shown:
  assumes "parents_shown K E (sriInformer (riShared ri)) w cached" "parent \<in> set cached"
  shows "run_state (GetObject E ri (GetNamespace K parent) (GetName K parent)) w = (Inr parent, w)"
  using assms by (auto simp: parents_shown_def GetObject_def)

text \<open>The parents are all namespaced or all not, as their resource is.\<close>

definition placed :: "'w k8s \<Rightarrow> parentController \<Rightarrow> unstructured \<Rightarrow> bool" where
  "placed K pc parent \<longleftrightarrow> (if arNamespaced (ptParentResource pc) then GetNamespace K parent \<noteq> '''' else GetNamespace K parent = '''')"

text \<open>A parent owns a child that names it as its controller; it may adopt a child without a controller that matches its selector.  Both are in the
  same namespace when the parent has one.\<close>

definition sameNamespace :: "'w k8s \<Rightarrow> parentController \<Rightarrow> unstructured \<Rightarrow> unstructured \<Rightarrow> bool" where
  "sameNamespace K pc parent child \<longleftrightarrow> (arNamespaced (ptParentResource pc) \<longrightarrow> GetNamespace K parent = GetNamespace K child)"

definition owns :: "'w k8s \<Rightarrow> parentController \<Rightarrow> unstructured \<Rightarrow> unstructured \<Rightarrow> bool" where
  "owns K pc parent child \<longleftrightarrow>
     (\<exists>ref. GetControllerOf K (GetOwnerReferences K child) = Some ref \<and> orUID ref = GetUID K parent \<and> orName ref = GetName K parent \<and>
        orKind ref = arKind (ptParentResource pc) \<and> fst (ParseAPIVersion (orAPIVersion ref)) = arGroup (ptParentResource pc)) \<and>
     sameNamespace K pc parent child"

definition mayAdopt :: "'w k8s \<Rightarrow> 'w env \<Rightarrow> parentController \<Rightarrow> unstructured \<Rightarrow> unstructured \<Rightarrow> bool" where
  "mayAdopt K E pc parent child \<longleftrightarrow>
     GetControllerOf K (GetOwnerReferences K child) = None \<and> GetDeletionTimestamp K child = None \<and>
     (\<exists>sel. makeSelector K E pc parent [] = Inr sel \<and> \<not> SelEmpty sel \<and> Matches sel (GetLabels K child)) \<and>
     sameNamespace K pc parent child"

section \<open>Waking\<close>

lemma forAll_pending:
  assumes "\<And>x w. pending w \<subseteq> pending (snd (run_state (f x) w))" "x \<in> set xs" "\<And>w. k \<in> pending (snd (run_state (f x) w))"
  shows "k \<in> pending (snd (run_state (forAll f xs) w))"
proof -
  have keep: "k \<in> pending w \<Longrightarrow> k \<in> pending (snd (run_state (forAll f xs) w))" for w xs
    using assms(1) by (induction xs arbitrary: w) (auto simp: case_prod_beta)
  from assms(2) show ?thesis
  proof (induction xs arbitrary: w)
    case (Cons y ys)
    then show ?case using keep assms(3) by (cases "x = y") (auto simp: case_prod_beta)
  qed simp
qed

lemma enqueue_pending:
  assumes "queue_law E pending"
  shows "pending q w \<subseteq> pending q (snd (run_state (QueueAdd E q k) w))" "k \<in> pending q (snd (run_state (QueueAdd E q k) w))"
  using assms by (auto simp: queue_law_def)

lemma enqueueParentObject_pending:
  assumes "queue_law E pending"
  shows "pending (ptQueue pc) w \<subseteq> pending (ptQueue pc) (snd (run_state (enqueueParentObject K E pc obj) w))"
    and "\<not> ignoresParent K pc parent \<Longrightarrow> KeyFunc E (EvObject parent) = Inr key \<Longrightarrow>
      key \<in> pending (ptQueue pc) (snd (run_state (enqueueParentObject K E pc (EvObject parent)) w))"
  using enqueue_pending [OF assms] by (auto simp: enqueueParentObject_def split: sum.split)

text \<open>A parent of the controller that is in the cache and that the controller does not ignore.\<close>

definition tracked :: "'w k8s \<Rightarrow> 'w env \<Rightarrow> parentController \<Rightarrow> 'w \<Rightarrow> unstructured \<Rightarrow> string \<Rightarrow> bool" where
  "tracked K E pc w parent key \<longleftrightarrow>
     (\<exists>cached. parents_shown K E (sriInformer (riShared (ptParentInformer pc))) w cached \<and> parent \<in> set cached) \<and>
     placed K pc parent \<and> \<not> ignoresParent K pc parent \<and> KeyFunc E (EvObject parent) = Inr key"

lemma resolveControllerRef_owner:
  assumes "tracked K E pc w parent key" "owns K pc parent child" "GetControllerOf K (GetOwnerReferences K child) = Some ref"
  shows "run_state (resolveControllerRef K E pc (GetNamespace K child) ref) w = (Some parent, w)"
proof -
  have ns: "(if arNamespaced (ptParentResource pc) then GetNamespace K child else '''') = GetNamespace K parent"
    using assms(1,2) by (simp add: tracked_def owns_def placed_def sameNamespace_def split: if_splits)
  have "run_state (GetObject E (ptParentInformer pc) (GetNamespace K parent) (GetName K parent)) w = (Inr parent, w)"
    using assms(1) GetObject_shown by (auto simp: tracked_def)
  with assms show ?thesis unfolding resolveControllerRef_def ns by (auto simp: owns_def tracked_def)
qed

lemma notifyParent_owner:
  assumes "queue_law E pending" "tracked K E pc w parent key" "owns K pc parent child" "GetControllerOf K (GetOwnerReferences K child) = Some ref"
  shows "key \<in> pending (ptQueue pc) (snd (run_state (notifyParent K E pc (GetNamespace K child) ref) w))"
  using assms(2) resolveControllerRef_owner [OF assms(2-4)] enqueueParentObject_pending(2) [OF assms(1)]
  by (simp add: notifyParent_def tracked_def)

lemma childDeleted_owner:
  assumes "queue_law E pending" "tracked K E pc w parent key" "owns K pc parent child"
  shows "key \<in> pending (ptQueue pc) (snd (run_state (childDeleted K E pc child) w))"
  using notifyParent_owner [OF assms] assms(3) by (auto simp: childDeleted_def owns_def)

lemma findPotentialParents_adopter:
  assumes "everything_law K" "tracked K E pc w parent key" "mayAdopt K E pc parent child"
  shows "\<exists>parents. run_state (findPotentialParents K E pc child) w = (parents, w) \<and> parent \<in> set parents"
proof -
  obtain cached where c: "parents_shown K E (sriInformer (riShared (ptParentInformer pc))) w cached" "parent \<in> set cached"
    using assms(2) by (auto simp: tracked_def)
  let ?ns = "if arNamespaced (ptParentResource pc) then GetNamespace K child else ''''"
  have "?ns = '''' \<or> GetNamespace K parent = ?ns" using assms(3) by (auto simp: mayAdopt_def sameNamespace_def)
  moreover have "run_state (ListerList E (sriInformer (riShared (ptParentInformer pc))) ?ns (Everything K)) w =
      (Inr (filter (\<lambda>obj. ?ns = '''' \<or> GetNamespace K obj = ?ns) cached), w)"
    using c(1) assms(1) by (auto simp: parents_shown_def lister_shows_def everything_law_def)
  ultimately show ?thesis
    using assms(3) c(2) unfolding findPotentialParents_def by (auto simp: mayAdopt_def)
qed

section \<open>Properties\<close>

text \<open>The events that tell of a change of a child: it was added, it was updated, or it is gone, possibly known from a tombstone only.\<close>

inductive childEvent :: "'w k8s \<Rightarrow> unstructured \<Rightarrow> informerEvent \<Rightarrow> bool" for K :: "'w k8s" and child where
  added: "childEvent K child (OnAdd child initial)"
| updated: "GetResourceVersion K old \<noteq> GetResourceVersion K child \<Longrightarrow> childEvent K child (OnUpdate old child)"

inductive childGone :: "unstructured \<Rightarrow> informerEvent \<Rightarrow> bool" for child where
  deleted: "childGone child (OnDelete (EvObject child))"
| tombstone: "childGone child (OnDelete (EvTombstone k (Some child)))"

inductive_simps childEvent_simps: "childEvent K child ev"
inductive_simps childGone_simps: "childGone child ev"

lemma onChildAdd_wakes:
  assumes "queue_law E pending" "everything_law K" "tracked K E pc w parent key" "owns K pc parent child \<or> mayAdopt K E pc parent child"
  shows "key \<in> pending (ptQueue pc) (snd (run_state (onChildAdd K E pc child) w))"
proof (cases "owns K pc parent child")
  case True
  then show ?thesis
    using notifyParent_owner [OF assms(1,3) True] childDeleted_owner [OF assms(1,3) True] by (auto simp: onChildAdd_def owns_def)
next
  case False
  then have may: "mayAdopt K E pc parent child" using assms(4) by simp
  then obtain parents where parents: "run_state (findPotentialParents K E pc child) w = (parents, w)" "parent \<in> set parents"
    using findPotentialParents_adopter [OF assms(2,3)] by blast
  have "key \<in> pending (ptQueue pc) (snd (run_state (enqueueParentObject K E pc (EvObject parent)) v))" for v
    using enqueueParentObject_pending(2) [OF assms(1)] assms(3) by (auto simp: tracked_def)
  from forAll_pending [where pending = "pending (ptQueue pc)" and f = "\<lambda>parent. enqueueParentObject K E pc (EvObject parent)", OF enqueueParentObject_pending(1) [OF assms(1)] parents(2) this] show ?thesis
    using may parents(1) by (simp add: onChildAdd_def mayAdopt_def)
qed

text \<open>C13: No event is lost on a parent that it concerns: when a child is added or updated, the parent that owns it is queued, or, if
  it has no controller, every parent that may adopt it; when a child is gone, the parent that owned it.\<close>

theorem child_event_wakes_parent:
  assumes "queue_law E pending" "everything_law K" "tracked K E pc w parent key"
    and "childEvent K child ev \<and> (owns K pc parent child \<or> mayAdopt K E pc parent child) \<or> childGone child ev \<and> owns K pc parent child"
  shows "key \<in> pending (ptQueue pc) (snd (run_state (childHandlers K E pc ev) w))"
  using assms(4)
proof
  assume "childEvent K child ev \<and> (owns K pc parent child \<or> mayAdopt K E pc parent child)"
  then show ?thesis
    using onChildAdd_wakes [OF assms(1-3)] by (auto simp: childEvent_simps onChildUpdate_def)
next
  assume "childGone child ev \<and> owns K pc parent child"
  then show ?thesis
    using childDeleted_owner [OF assms(1,3)] by (auto simp: childGone_simps)
qed

definition ownedPodW :: unstructured where
  "ownedPodW = SetOwnerReferences refK (podObj ''c'') [MakeControllerRef refK (podObj ''q'')]"

definition parentStoreW :: world where
  "parentStoreW = emptyWorld\<lparr>wObjects := [((''pods'', ''ns'', ''q''), podObj ''q'')]\<rparr>"

lemma parentStoreW_tracked: "tracked refK queueEnv parentControllerW parentStoreW (podObj ''q'') ''q''"
proof -
  have "parents_shown refK queueEnv 0 parentStoreW [podObj ''q'']"
    by (simp add: parents_shown_def lister_shows_def queueEnv_def refEnv_simps parentStoreW_def emptyWorld_def refStore_def refK_simps podObj_def
        refName_def metaOf_def jget_def)
  then have "\<exists>cached. parents_shown refK queueEnv (sriInformer (riShared (ptParentInformer parentControllerW))) parentStoreW cached \<and> podObj ''q'' \<in> set cached"
    by (intro exI [of _ "[podObj ''q'']"]) (simp add: parentControllerW_def podInformer_def)
  moreover have "placed refK parentControllerW (podObj ''q'') \<and> \<not> ignoresParent refK parentControllerW (podObj ''q'') \<and> KeyFunc queueEnv (EvObject (podObj ''q'')) = Inr ''q''"
    by (simp add: placed_def parentControllerW_def podClient_def ignoresParent_def doNotMatchLabels_def queueEnv_def refEnv_simps podObj_def refK_simps
        refName_def metaOf_def jget_def)
  ultimately show ?thesis by (simp add: tracked_def)
qed

lemma ownedPodW_owned: "owns refK parentControllerW (podObj ''q'') ownedPodW"
  by (simp add: owns_def sameNamespace_def ownedPodW_def MakeControllerRef_def refK_simps refControllerOf_def ownersOf_def parentControllerW_def podClient_def
      podObj_def putMeta_def metaOf_def jget_def refName_def ParseAPIVersion_def comp_def numeral_2_eq_2 Let_def)

theorem child_event_wakes_parent_witness:
  "''q'' \<in> refPending (ptQueue parentControllerW)
     (snd (run_state (childHandlers refK queueEnv parentControllerW (OnDelete (EvTombstone ''ns/c'' (Some ownedPodW)))) parentStoreW))"
  by (rule child_event_wakes_parent [where child = ownedPodW, OF queueEnv_law _ parentStoreW_tracked])
    (simp_all add: everything_law_def refK_simps childGone_simps ownedPodW_owned)

end
