(* ===== verification/Attachments.thy ===== *)
theory Attachments
  imports Decorator_Control Wake
begin

text \<open>
  What a decorator sees of its attachments and which events wake it, \<^verbatim>\<open>decorator/controller.go\<close>: \<open>getChildren\<close> returns exactly the
  attachments the caches show for an object, and an event about an attachment ends with the key of the object that controls it in the queue.
\<close>

section \<open>Maps that hold a set of objects\<close>

definition identity :: "'w k8s \<Rightarrow> unstructured \<Rightarrow> gvk \<times> string" where
  "identity K obj = (GroupVersionKind K obj, qualifiedName K obj)"

definition holdsExactly :: "'w k8s \<Rightarrow> unstructured set \<Rightarrow> objectMap \<Rightarrow> bool" where
  "holdsExactly K objs m \<longleftrightarrow> (\<forall>g n obj. lookupObj m g n = Some obj \<longleftrightarrow> obj \<in> objs \<and> identity K obj = (g, n))"

lemma holdsExactly_Nil [simp]: "holdsExactly K {} []"
  by (simp add: holdsExactly_def lookupObj_def)

lemma lookupObj_InitGroup [simp]: "lookupObj (UniformObjectMap_InitGroup m g) = lookupObj m"
  by (intro ext) (simp add: UniformObjectMap_InitGroup_def lookupObj_def update_conv')

lemma holdsExactly_InitGroup: "holdsExactly K objs m \<Longrightarrow> holdsExactly K objs (UniformObjectMap_InitGroup m g)"
  by (simp add: holdsExactly_def)

lemma lookupObj_Insert:
  "lookupObj (UniformObjectMap_Insert K p m obj) g n = (if identity K obj = (g, n) then Some obj else lookupObj m g n)"
  using uom.lookup_ins [of K p m obj g n] by (simp add: lookup_uom identity_def eq_commute)

lemma holdsExactly_Insert:
  assumes "holdsExactly K objs m" "inj_on (identity K) (insert obj objs)"
  shows "holdsExactly K (insert obj objs) (UniformObjectMap_Insert K p m obj)"
  using assms by (auto simp: holdsExactly_def lookupObj_Insert inj_on_def)

lemma holdsExactly_foldl:
  "holdsExactly K objs m \<Longrightarrow> inj_on (identity K) (objs \<union> set xs) \<Longrightarrow>
   holdsExactly K (objs \<union> set xs) (foldl (UniformObjectMap_Insert K p) m xs)"
proof (induction xs arbitrary: m objs)
  case (Cons x xs)
  have "holdsExactly K (insert x objs) (UniformObjectMap_Insert K p m x)"
    by (rule holdsExactly_Insert [OF Cons.prems(1)]) (rule inj_on_subset [OF Cons.prems(2)], auto)
  from Cons.IH [OF this] Cons.prems(2) show ?case by simp
qed simp

lemma groups_InitGroup: "dom (map_of (UniformObjectMap_InitGroup m g)) = insert g (dom (map_of m))"
  by (auto simp: UniformObjectMap_InitGroup_def update_conv')

lemma groups_Insert: "dom (map_of m) \<subseteq> dom (map_of (UniformObjectMap_Insert K p m obj))"
  by (auto simp: UniformObjectMap_Insert_def UniformObjectMap_InitGroup_def update_conv' Let_def)

lemma groups_foldl: "dom (map_of m) \<subseteq> dom (map_of (foldl (UniformObjectMap_Insert K p) m xs))"
proof (induction xs arbitrary: m)
  case (Cons x xs)
  from order_trans [OF groups_Insert Cons.IH] show ?case unfolding foldl_Cons .
qed simp

section \<open>The attachments in the caches\<close>

text \<open>Every attachment rule names a resource that discovery knows, with an informer whose cache is listed.\<close>

definition attachmentShown :: "'w k8s \<Rightarrow> 'w env \<Rightarrow> decoratorController \<Rightarrow> 'w \<Rightarrow> (nat \<Rightarrow> unstructured list) \<Rightarrow> DecoratorControllerAttachmentRule
    \<Rightarrow> gvk \<Rightarrow> bool" where
  "attachmentShown K E dt w cached c g \<longleftrightarrow>
     (\<exists>ri resource. SyncMap_Get (dtChildInformers dt) (resourceOf K (rrAPIVersion c) (rrResource c)) = Some ri \<and>
        lister_shows K E (sriInformer (riShared ri)) w (cached (sriInformer (riShared ri))) \<and>
        ResourceMap_Get (dtResources dt) (rrAPIVersion c) (rrResource c) = Some resource \<and> APIResource_GroupVersionKind K resource = Inr g)"

definition attachmentCache :: "'w k8s \<Rightarrow> decoratorController \<Rightarrow> (nat \<Rightarrow> unstructured list) \<Rightarrow> DecoratorControllerAttachmentRule \<Rightarrow> unstructured list" where
  "attachmentCache K dt cached c =
     (case SyncMap_Get (dtChildInformers dt) (resourceOf K (rrAPIVersion c) (rrResource c)) of None \<Rightarrow> [] | Some ri \<Rightarrow> cached (sriInformer (riShared ri)))"

text \<open>The decorator made the object for the parent: the parent controls it, and its annotation has the decorator's name.\<close>

definition madeFor :: "'w k8s \<Rightarrow> string \<Rightarrow> unstructured \<Rightarrow> unstructured \<Rightarrow> bool" where
  "madeFor K name parent obj \<longleftrightarrow>
     (\<exists>ref. GetControllerOf K (GetOwnerReferences K obj) = Some ref \<and> orUID ref = GetUID K parent) \<and>
     map_of (orNil (GetAnnotations K obj)) ''metacontroller.k8s.io/decorator-controller'' = Some name"

lemma ownAttachment_iff: "dcName (dtDC dt) \<noteq> '''' \<Longrightarrow> ownAttachment K dt parent obj \<longleftrightarrow> madeFor K (dcName (dtDC dt)) parent obj"
  by (simp add: ownAttachment_def madeFor_def decoratedBy_def decoratorControllerAnnotation_def split: option.split)

definition attachmentsIn :: "'w k8s \<Rightarrow> decoratorController \<Rightarrow> (nat \<Rightarrow> unstructured list) \<Rightarrow> unstructured
    \<Rightarrow> DecoratorControllerAttachmentRule list \<Rightarrow> unstructured set" where
  "attachmentsIn K dt cached parent cs =
     {obj \<in> (\<Union>c \<in> set cs. set (attachmentCache K dt cached c)).
        madeFor K (dcName (dtDC dt)) parent obj \<and> (GetNamespace K parent = '''' \<or> GetNamespace K obj = GetNamespace K parent)}"

definition inNamespace :: "'w k8s \<Rightarrow> unstructured \<Rightarrow> unstructured list \<Rightarrow> unstructured list" where
  "inNamespace K parent objs = filter (\<lambda>obj. GetNamespace K parent = '''' \<or> GetNamespace K obj = GetNamespace K parent) objs"

lemma attachmentsIn_Cons:
  "dcName (dtDC dt) \<noteq> '''' \<Longrightarrow> attachmentsIn K dt cached parent (c # cs) =
     set (filter (ownAttachment K dt parent) (inNamespace K parent (attachmentCache K dt cached c))) \<union> attachmentsIn K dt cached parent cs"
  by (auto simp: attachmentsIn_def inNamespace_def ownAttachment_iff)

text \<open>One turn of the loop over the attachment rules.\<close>

lemma childrenOf_step:
  assumes "everything_law K" "attachmentShown K E dt w cached c g"
  shows "run_state (childrenOf K E dt parent (c # cs) m) w =
     run_state (childrenOf K E dt parent cs (foldl (UniformObjectMap_Insert K (metaU K parent)) (UniformObjectMap_InitGroup m g)
       (filter (ownAttachment K dt parent) (inNamespace K parent (attachmentCache K dt cached c))))) w"
  using assms by (auto simp: attachmentShown_def lister_shows_def everything_law_def attachmentCache_def inNamespace_def)

lemma childrenOf_exact:
  assumes "everything_law K" "dcName (dtDC dt) \<noteq> ''''" "list_all (\<lambda>c. \<exists>g. attachmentShown K E dt w cached c g) cs"
    and "inj_on (identity K) (objs \<union> attachmentsIn K dt cached parent cs)" "holdsExactly K objs m"
  shows "\<exists>m'. run_state (childrenOf K E dt parent cs m) w = (Inr m', w) \<and>
     holdsExactly K (objs \<union> attachmentsIn K dt cached parent cs) m' \<and> dom (map_of m) \<subseteq> dom (map_of m') \<and>
     (\<forall>c \<in> set cs. \<forall>g. attachmentShown K E dt w cached c g \<longrightarrow> g \<in> dom (map_of m'))"
  using assms(3-5)
proof (induction cs arbitrary: objs m)
  case Nil
  then show ?case by (simp add: attachmentsIn_def)
next
  case (Cons c cs)
  obtain g where g: "attachmentShown K E dt w cached c g" using Cons.prems(1) by auto
  define own where "own = filter (ownAttachment K dt parent) (inNamespace K parent (attachmentCache K dt cached c))"
  define m1 where "m1 = foldl (UniformObjectMap_Insert K (metaU K parent)) (UniformObjectMap_InitGroup m g) own"
  note run = childrenOf_step [OF assms(1) g, of parent cs m, folded own_def, folded m1_def]
  note own = attachmentsIn_Cons [OF assms(2), of K cached parent c cs, folded own_def]
  have "holdsExactly K (objs \<union> set own) m1"
    unfolding m1_def using Cons.prems(2,3) unfolding own
    by (intro holdsExactly_foldl holdsExactly_InitGroup) (auto intro: inj_on_subset)
  from Cons.IH [OF _ _ this] obtain m' where m': "run_state (childrenOf K E dt parent cs m1) w = (Inr m', w)"
    "holdsExactly K (objs \<union> set own \<union> attachmentsIn K dt cached parent cs) m'" "dom (map_of m1) \<subseteq> dom (map_of m')"
    "\<forall>c \<in> set cs. \<forall>g. attachmentShown K E dt w cached c g \<longrightarrow> g \<in> dom (map_of m')"
    using Cons.prems(1,2) unfolding own by (auto simp: Un_assoc)
  have "insert g (dom (map_of m)) \<subseteq> dom (map_of m')"
    using m'(3) groups_foldl unfolding m1_def groups_InitGroup [symmetric] by (rule subset_trans [rotated])
  moreover have "g' = g" if "attachmentShown K E dt w cached c g'" for g' using that g by (auto simp: attachmentShown_def)
  ultimately show ?case using m' unfolding run own by (auto simp: Un_assoc)
qed

text \<open>Names and types as Kubernetes allows them, so that the text of a type and a qualified name can be read back.\<close>

definition plainObject :: "'w k8s \<Rightarrow> unstructured \<Rightarrow> bool" where
  "plainObject K obj \<longleftrightarrow> plainName K obj \<and> plainType (GroupVersionKind K obj)"

definition plainMap :: "objectMap \<Rightarrow> bool" where
  "plainMap m \<longleftrightarrow> wfMap m \<and> list_all (\<lambda>p. plainType (fst p)) m"

lemma plainMap_update: "plainMap m \<Longrightarrow> plainType g \<Longrightarrow> distinct (map fst x) \<Longrightarrow> plainMap (AList.update g x m)"
proof -
  assume m: "plainMap m" "plainType g" "distinct (map fst x)"
  have "set (AList.update g x m) \<subseteq> insert (g, x) (set m)" by (induction m) auto
  with m show ?thesis by (auto simp: plainMap_def list_all_iff wfMap_update)
qed

lemma plainMap_InitGroup: "plainMap m \<Longrightarrow> plainType g \<Longrightarrow> plainMap (UniformObjectMap_InitGroup m g)"
  by (simp add: UniformObjectMap_InitGroup_def plainMap_update)

lemma plainMap_Insert:
  assumes "plainMap m" "plainType (GroupVersionKind K obj)"
  shows "plainMap (UniformObjectMap_Insert K p m obj)"
proof -
  let ?g = "GroupVersionKind K obj" and ?m = "if map_of m (GroupVersionKind K obj) = None then UniformObjectMap_InitGroup m (GroupVersionKind K obj) else m"
  have m: "plainMap ?m" using assms plainMap_InitGroup by simp
  then have "distinct (map fst (case map_of ?m ?g of None \<Rightarrow> [] | Some x \<Rightarrow> x))"
    using wfMap_group [of ?m ?g] by (simp add: plainMap_def split: option.split)
  then show ?thesis
    unfolding UniformObjectMap_Insert_def Let_def by (intro plainMap_update [OF m assms(2)] distinct_update)
qed

lemma plainMap_foldl:
  "plainMap m \<Longrightarrow> \<forall>x \<in> set xs. plainType (GroupVersionKind K x) \<Longrightarrow> plainMap (foldl (UniformObjectMap_Insert K p) m xs)"
  by (induction xs arbitrary: m) (simp_all add: plainMap_Insert)

lemma childrenOf_plain:
  assumes "everything_law K" "list_all (\<lambda>c. \<exists>g. plainType g \<and> attachmentShown K E dt w cached c g) cs"
    and "\<forall>c \<in> set cs. \<forall>x \<in> set (attachmentCache K dt cached c). plainType (GroupVersionKind K x)" "plainMap m"
    and "run_state (childrenOf K E dt parent cs m) w = (Inr m', w')"
  shows "plainMap m'"
  using assms(2-5)
proof (induction cs arbitrary: m)
  case (Cons c cs)
  obtain g where g: "plainType g" "attachmentShown K E dt w cached c g" using Cons.prems(1) by auto
  let ?own = "filter (ownAttachment K dt parent) (inNamespace K parent (attachmentCache K dt cached c))"
  have "plainMap (foldl (UniformObjectMap_Insert K (metaU K parent)) (UniformObjectMap_InitGroup m g) ?own)"
    using Cons.prems(2,3) g(1) by (intro plainMap_foldl plainMap_InitGroup) (auto simp: inNamespace_def)
  then show ?case using Cons.IH Cons.prems(1,2,4) unfolding childrenOf_step [OF assms(1) g(2)] by simp
qed simp

section \<open>Objects in the queue\<close>

text \<open>An object of a decorated resource that is in the cache and that the controller does not ignore.\<close>

definition decoratedObject :: "'w k8s \<Rightarrow> 'w env \<Rightarrow> decoratorController \<Rightarrow> 'w \<Rightarrow> APIResource \<Rightarrow> unstructured \<Rightarrow> bool" where
  "decoratedObject K E dt w resource parent \<longleftrightarrow>
     SyncMap_Get (dtParentKinds dt) (arGroup resource, arKind resource) = Some resource \<and>
     (\<exists>ri cached. SyncMap_Get (dtParentInformers dt) (resourceOf K (arAPIVersion resource) (arName resource)) = Some ri \<and>
        parents_shown K E (sriInformer (riShared ri)) w cached \<and> parent \<in> set cached) \<and>
     (arNamespaced resource \<longleftrightarrow> GetNamespace K parent \<noteq> '''') \<and> \<not> ignoresObject K dt parent"

text \<open>The object controls the attachment: it is its controller, by kind, name and UID, from the same namespace if it has one.\<close>

definition controls :: "'w k8s \<Rightarrow> APIResource \<Rightarrow> unstructured \<Rightarrow> unstructured \<Rightarrow> bool" where
  "controls K resource parent child \<longleftrightarrow>
     (\<exists>ref. GetControllerOf K (GetOwnerReferences K child) = Some ref \<and> orUID ref = GetUID K parent \<and> orName ref = GetName K parent \<and>
        orKind ref = arKind resource \<and> gvrGroup (resourceOf K (orAPIVersion ref) '''') = arGroup resource) \<and>
     (arNamespaced resource \<longrightarrow> GetNamespace K parent = GetNamespace K child)"

lemma Decorator_resolveControllerRef_controller:
  assumes "decoratedObject K E dt w resource parent" "controls K resource parent child" "GetControllerOf K (GetOwnerReferences K child) = Some ref"
  shows "run_state (Decorator_resolveControllerRef K E dt (GetNamespace K child) ref) w = (Some parent, w)"
proof -
  have ns: "(if arNamespaced resource then GetNamespace K child else '''') = GetNamespace K parent"
    using assms(1,2) by (simp add: decoratedObject_def controls_def)
  obtain ri cached where ri: "SyncMap_Get (dtParentInformers dt) (resourceOf K (arAPIVersion resource) (arName resource)) = Some ri"
    "parents_shown K E (sriInformer (riShared ri)) w cached" "parent \<in> set cached"
    using assms(1) by (auto simp: decoratedObject_def)
  have "run_state (GetObject E ri (GetNamespace K parent) (GetName K parent)) w = (Inr parent, w)"
    by (rule GetObject_shown [OF ri(2,3)])
  moreover have "SyncMap_Get (dtParentKinds dt) (gvrGroup (resourceOf K (orAPIVersion ref) ''''), orKind ref) = Some resource"
    "orUID ref = GetUID K parent" "orName ref = GetName K parent" "\<not> ignoresObject K dt parent"
    using assms by (auto simp: decoratedObject_def controls_def)
  ultimately show ?thesis using ri(1) by (simp add: Decorator_resolveControllerRef_def ns)
qed

lemma Decorator_enqueueParentObject_pending:
  assumes "queue_law E pending" "\<not> ignoresObject K dt parent" "parentQueueKey K (EvObject parent) = Inr key"
  shows "key \<in> pending (dtQueue dt) (snd (run_state (Decorator_enqueueParentObject K E dt (EvObject parent)) w))"
  using assms(2,3) enqueue_pending(2) [OF assms(1)] by (simp add: Decorator_enqueueParentObject_def)

lemma attachmentChanged_wakes:
  assumes "queue_law E pending" "decoratedObject K E dt w resource parent" "controls K resource parent child"
    and "parentQueueKey K (EvObject parent) = Inr key"
  shows "key \<in> pending (dtQueue dt) (snd (run_state (attachmentChanged K E dt child) w))"
proof -
  obtain ref where ref: "GetControllerOf K (GetOwnerReferences K child) = Some ref" using assms(3) by (auto simp: controls_def)
  have "\<not> ignoresObject K dt parent" using assms(2) by (simp add: decoratedObject_def)
  from Decorator_enqueueParentObject_pending [OF assms(1) this assms(4)] show ?thesis
    by (simp add: attachmentChanged_def ref Decorator_resolveControllerRef_controller [OF assms(2,3) ref])
qed

text \<open>Discovery serves the object under the version it has, and nothing but its name may hold the separator of queue keys.\<close>

definition queueKeyed :: "'w k8s \<Rightarrow> decoratorController \<Rightarrow> APIResource \<Rightarrow> unstructured \<Rightarrow> bool" where
  "queueKeyed K dt resource parent \<longleftrightarrow>
     ResourceMap_GetKind (dtResources dt) (GetAPIVersion K parent) (GetKind K parent) = Some resource \<and> GetAPIVersion K parent = arAPIVersion resource \<and>
     CHR '':'' \<notin> set (GetAPIVersion K parent) \<union> set (GetKind K parent) \<union> set (GetNamespace K parent)"

lemma Decorator_sync_key:
  assumes "decoratedObject K E dt w resource parent" "queueKeyed K dt resource parent" "parentQueueKey K (EvObject parent) = Inr key"
  shows "run_state (Decorator_sync K E dt key) (w, p) = run_state (Decorator_syncParentObject K E dt parent) (w, p)"
proof -
  obtain ri cached where ri: "SyncMap_Get (dtParentInformers dt) (resourceOf K (arAPIVersion resource) (arName resource)) = Some ri"
    "parents_shown K E (sriInformer (riShared ri)) w cached" "parent \<in> set cached"
    using assms(1) by (auto simp: decoratedObject_def)
  have key: "splitParentQueueKey key = Inr (GetAPIVersion K parent, GetKind K parent, GetNamespace K parent, GetName K parent)"
    using assms(2,3) by (auto simp: splitParentQueueKey_def eval_nat_numeral queueKeyed_def)
  have "ResourceMap_GetKind (dtResources dt) (GetAPIVersion K parent) (GetKind K parent) = Some resource" "GetAPIVersion K parent = arAPIVersion resource"
    using assms(2) unfolding queueKeyed_def by blast+
  then show ?thesis using ri(1) by (simp add: Decorator_sync_def key GetObject_shown [OF ri(2,3)])
qed

section \<open>Properties\<close>

text \<open>What a decorator observes is exact.  When discovery knows every attachment resource and its informer is there, the sync
  lists the object's attachments without an error, and the map it gets has, under its type and its qualified name, every object in the caches
  that the decorator made for this object, in the object's namespace if it has one, and nothing else; every attachment type has a group, empty or not.\<close>

theorem attachments_exact:
  assumes "everything_law K" "dcName (dtDC dt) \<noteq> ''''"
    and "list_all (\<lambda>c. \<exists>g. attachmentShown K E dt w cached c g) (dcsAttachments (dcSpec (dtDC dt)))"
    and "inj_on (identity K) (attachmentsIn K dt cached parent (dcsAttachments (dcSpec (dtDC dt))))"
  shows "\<exists>m. run_state (getChildren K E dt parent) w = (Inr m, w) \<and>
     holdsExactly K (attachmentsIn K dt cached parent (dcsAttachments (dcSpec (dtDC dt)))) m \<and>
     (\<forall>c \<in> set (dcsAttachments (dcSpec (dtDC dt))). \<forall>g. attachmentShown K E dt w cached c g \<longrightarrow> map_of m g \<noteq> None)"
  using childrenOf_exact [OF assms(1-3), where objs = "{}" and m = "[]" and parent = parent] assms(4) by (auto simp: getChildren_def)

text \<open>C14: A decorator's hook sees exactly the attachments of its object.  When discovery knows every attachment resource and its informer is there,
  the sync lists the attachments without an error, and the request it sends for a namespaced object has, under a type and a name of that
  namespace, the object of the caches that the decorator made for this object and that has this type and name, and nothing else.  A hook of version 1
  finds it under its plain name, a hook of version 2 under the name qualified by the namespace.\<close>

theorem decorator_hook_sees_attachments:
  assumes "everything_law K" "dcName (dtDC dt) \<noteq> ''''"
    and "list_all (\<lambda>c. \<exists>g. plainType g \<and> attachmentShown K E dt w cached c g) (dcsAttachments (dcSpec (dtDC dt)))"
    and "\<forall>c \<in> set (dcsAttachments (dcSpec (dtDC dt))). \<forall>obj \<in> set (attachmentCache K dt cached c). plainObject K obj"
    and "inj_on (identity K) (attachmentsIn K dt cached parent (dcsAttachments (dcSpec (dtDC dt))))"
    and "GetNamespace K parent \<noteq> ''''" "CHR ''/'' \<notin> set (GetNamespace K parent)" "CHR ''/'' \<notin> set n" "plainType g"
  shows "\<exists>m c. run_state (getChildren K E dt parent) w = (Inr m, w) \<and>
     readField (Decorator_buildHookRequest K E dt hookInfo parent (UniformObjectMap m) related) ''attachments'' = Some c \<and>
     (\<forall>obj. readObject c g (if hciVersion hookInfo = HookVersionV2 then GetNamespace K parent @ ''/'' @ n else n) = Some (JObj obj) \<longleftrightarrow>
        obj \<in> attachmentsIn K dt cached parent (dcsAttachments (dcSpec (dtDC dt))) \<and> identity K obj = (g, GetNamespace K parent @ ''/'' @ n))"
proof -
  let ?cs = "dcsAttachments (dcSpec (dtDC dt))" and ?n = "GetNamespace K parent @ ''/'' @ n"
  have "list_all (\<lambda>c. \<exists>g. attachmentShown K E dt w cached c g) ?cs" using assms(3) by (auto simp: list_all_iff)
  from attachments_exact [OF assms(1,2) this assms(5)] obtain m where
    m: "run_state (getChildren K E dt parent) w = (Inr m, w)" "holdsExactly K (attachmentsIn K dt cached parent ?cs) m" by blast
  have "plainMap []" by (simp add: plainMap_def)
  from childrenOf_plain [OF assms(1,3) _ this] m(1) assms(4) have plain: "wfMap m" "list_all (\<lambda>p. plainType (fst p)) m"
    by (auto simp: getChildren_def plainObject_def plainMap_def)
  have "plainName K obj" if "obj \<in> attachmentsIn K dt cached parent ?cs" for obj
    using that assms(4) by (auto simp: attachmentsIn_def plainObject_def)
  then have keyed: "uniformlyKeyed K m" using m(2) plain(1) by (auto simp: uniformlyKeyed_def holdsExactly_def identity_def)
  note read = requestMap_read [OF keyed plain(2) assms(9,6-8)]
  have "lookupObj m g ?n = Some obj \<longleftrightarrow> obj \<in> attachmentsIn K dt cached parent ?cs \<and> identity K obj = (g, ?n)" for obj
    using m(2) unfolding holdsExactly_def by blast
  then have "map_option JObj (lookupObj m g ?n) = Some (JObj obj) \<longleftrightarrow> obj \<in> attachmentsIn K dt cached parent ?cs \<and> identity K obj = (g, ?n)" for obj
    by auto
  then show ?thesis
    using m(1) read unfolding Decorator_buildHookRequest_def buildDecoratorRequest_fields by (cases "hciVersion hookInfo = HookVersionV2") simp_all
qed

text \<open>C15: A change of an attachment reaches the object it belongs to: when an attachment is added, updated or gone, the object that
  controls it is queued, and a worker that takes its key while the object is in the cache syncs this very object.\<close>

theorem attachment_event_syncs_object:
  assumes "queue_law E pending" "decoratedObject K E dt w resource parent" "queueKeyed K dt resource parent" "controls K resource parent child"
    and "childEvent K child ev \<or> childGone child ev"
  shows "\<exists>key. key \<in> pending (dtQueue dt) (snd (run_state (Decorator_childHandlers K E dt ev) w)) \<and>
     (\<forall>v p. decoratedObject K E dt v resource parent \<longrightarrow>
        run_state (Decorator_sync K E dt key) (v, p) = run_state (Decorator_syncParentObject K E dt parent) (v, p))"
proof -
  obtain key where key: "parentQueueKey K (EvObject parent) = Inr key" by simp
  have "key \<in> pending (dtQueue dt) (snd (run_state (attachmentChanged K E dt child) w))"
    by (rule attachmentChanged_wakes [OF assms(1,2,4) key])
  then have "key \<in> pending (dtQueue dt) (snd (run_state (Decorator_childHandlers K E dt ev) w))"
    using assms(5) by (auto simp: childEvent_simps childGone_simps Decorator_onChildUpdate_def Decorator_onChildAdd_def)
  then show ?thesis using Decorator_sync_key [OF _ assms(3) key] by blast
qed

section \<open>Witnesses\<close>

text \<open>A decorator that attaches pods to pods, and a store with a pod and its attachment.\<close>

definition attachW :: decoratorController where
  "attachW = decoratorControllerW\<lparr>dtDC := decoratorW\<lparr>dcSpec := (dcSpec decoratorW)\<lparr>dcsAttachments :=
       [\<lparr>rrAPIVersion = ''v1'', rrResource = ''pods'', daUpdateStrategy = None\<rparr>]\<rparr>\<rparr>,
     dtResources := podResources, dtParentKinds := [(('''', ''Pod''), rcAPIResource podClient)],
     dtParentInformers := [(riResource (rcRootClient podClient), podInformer 0)], dtChildInformers := [(riResource (rcRootClient podClient), podInformer 0)]\<rparr>"

definition attachmentW :: unstructured where
  "attachmentW = SetAnnotations refK ownedPodW [(decoratorControllerAnnotation, ''dc'')]"

definition attachStoreW :: world where
  "attachStoreW = emptyWorld\<lparr>wObjects := [((''pods'', ''ns'', ''q''), podObj ''q''), ((''pods'', ''ns'', ''c''), attachmentW)]\<rparr>"

lemmas storedW_simps = attachmentW_def ownedPodW_def MakeControllerRef_def podObj_def refK_simps refName_def metaOf_def putMeta_def jget_def refControllerOf_def
  ownersOf_def

lemma attachmentW_controlled: "controls refK (rcAPIResource podClient) (podObj ''q'') attachmentW"
  by (simp add: controls_def storedW_simps resourceOf_def refGroupVersion_def podClient_def comp_def numeral_2_eq_2 Let_def)

lemma attachmentW_made: "madeFor refK ''dc'' (podObj ''q'') attachmentW" "\<not> madeFor refK ''dc'' (podObj ''q'') (podObj ''q'')"
  by (simp_all add: madeFor_def decoratorControllerAnnotation_def storedW_simps comp_def strMapOf_def ofStrMap_def)

lemma storedW_identity:
  "identity refK attachmentW = (\<lparr>gvkGroup = '''', gvkVersion = ''v1'', gvkKind = ''Pod''\<rparr>, ''ns/c'')"
  "identity refK (podObj ''q'') = (\<lparr>gvkGroup = '''', gvkVersion = ''v1'', gvkKind = ''Pod''\<rparr>, ''ns/q'')"
  by (simp_all add: identity_def qualifiedName_def storedW_simps refGroupVersion_def numeral_2_eq_2 Let_def)

lemma attachStoreW_shown: "parents_shown refK queueEnv 0 attachStoreW [podObj ''q'', attachmentW]"
proof -
  have "lister_shows refK queueEnv 0 attachStoreW [podObj ''q'', attachmentW]"
    by (simp add: lister_shows_def queueEnv_def refEnv_simps attachStoreW_def emptyWorld_def refStore_def refK_simps)
  then show ?thesis
    by (simp add: parents_shown_def queueEnv_def refEnv_simps attachStoreW_def emptyWorld_def refStore_def storedW_simps)
qed

lemma attachW_decorates: "decoratedObject refK queueEnv attachW attachStoreW (rcAPIResource podClient) (podObj ''q'')"
proof -
  have ri: "SyncMap_Get (dtParentInformers attachW) (resourceOf refK (arAPIVersion (rcAPIResource podClient)) (arName (rcAPIResource podClient))) =
      Some (podInformer 0)"
    by (simp add: attachW_def resourceOf_def refK_simps refGroupVersion_def podClient_def numeral_2_eq_2 SyncMap_Get_def SyncMap_Load_def)
  have shown: "parents_shown refK queueEnv (sriInformer (riShared (podInformer 0))) attachStoreW [podObj ''q'', attachmentW]"
    using attachStoreW_shown by (simp add: podInformer_def)
  have "SyncMap_Get (dtParentKinds attachW) (arGroup (rcAPIResource podClient), arKind (rcAPIResource podClient)) = Some (rcAPIResource podClient)"
    by (simp add: attachW_def podClient_def SyncMap_Get_def SyncMap_Load_def)
  moreover have "arNamespaced (rcAPIResource podClient) \<longleftrightarrow> GetNamespace refK (podObj ''q'') \<noteq> ''''"
    by (simp add: podClient_def storedW_simps)
  moreover have "\<not> ignoresObject refK attachW (podObj ''q'')"
    by (simp add: ignoresObject_def decoratorSelector_Matches_def attachW_def decoratorControllerW_def selectorMapKey_def storedW_simps ParseAPIVersion_def
        SyncMap_Load_def numeral_2_eq_2 Let_def)
  ultimately show ?thesis
    unfolding decoratedObject_def using ri shown by (intro conjI exI [of _ "podInformer 0"] exI [of _ "[podObj ''q'', attachmentW]"]) simp_all
qed

lemma attachW_keyed: "queueKeyed refK attachW (rcAPIResource podClient) (podObj ''q'')"
  by (simp add: queueKeyed_def attachW_def podResources_def ResourceMap_GetKind_def podClient_def storedW_simps)

theorem attachment_event_syncs_object_witness:
  "\<exists>key. key \<in> refPending (dtQueue attachW) (snd (run_state (Decorator_childHandlers refK queueEnv attachW (OnDelete (EvObject attachmentW))) attachStoreW)) \<and>
     run_state (Decorator_sync refK queueEnv attachW key) (attachStoreW, emptyProc) =
       run_state (Decorator_syncParentObject refK queueEnv attachW (podObj ''q'')) (attachStoreW, emptyProc)"
proof -
  have "childEvent refK attachmentW (OnDelete (EvObject attachmentW)) \<or> childGone attachmentW (OnDelete (EvObject attachmentW))"
    by (simp add: childGone_simps)
  from attachment_event_syncs_object [OF queueEnv_law attachW_decorates attachW_keyed attachmentW_controlled this] attachW_decorates show ?thesis by blast
qed

lemma attachW_shown:
  "attachmentShown refK queueEnv attachW attachStoreW (\<lambda>_. [podObj ''q'', attachmentW]) \<lparr>rrAPIVersion = ''v1'', rrResource = ''pods'', daUpdateStrategy = None\<rparr>
     \<lparr>gvkGroup = '''', gvkVersion = ''v1'', gvkKind = ''Pod''\<rparr>"
proof -
  have "SyncMap_Get (dtChildInformers attachW) (resourceOf refK ''v1'' ''pods'') = Some (podInformer 0)"
    by (simp add: attachW_def resourceOf_def refK_simps refGroupVersion_def podClient_def numeral_2_eq_2 SyncMap_Get_def SyncMap_Load_def)
  moreover have "ResourceMap_Get (dtResources attachW) ''v1'' ''pods'' = Some (rcAPIResource podClient)"
    by (simp add: attachW_def podResources_def ResourceMap_Get_def)
  moreover have "APIResource_GroupVersionKind refK (rcAPIResource podClient) = Inr \<lparr>gvkGroup = '''', gvkVersion = ''v1'', gvkKind = ''Pod''\<rparr>"
    by (simp add: APIResource_GroupVersionKind_def APIResource_GroupVersion_def podClient_def refK_simps refGroupVersion_def numeral_2_eq_2)
  ultimately show ?thesis
    using attachStoreW_shown by (simp add: attachmentShown_def podInformer_def parents_shown_def)
qed

lemma attachW_attachments:
  "attachmentsIn refK attachW (\<lambda>_. [podObj ''q'', attachmentW]) (podObj ''q'') (dcsAttachments (dcSpec (dtDC attachW))) = {attachmentW}"
  "\<forall>c \<in> set (dcsAttachments (dcSpec (dtDC attachW))). \<forall>obj \<in> set (attachmentCache refK attachW (\<lambda>_. [podObj ''q'', attachmentW]) c). plainObject refK obj"
proof -
  let ?c = "\<lparr>rrAPIVersion = ''v1'', rrResource = ''pods'', daUpdateStrategy = None\<rparr>"
  have cs: "dcsAttachments (dcSpec (dtDC attachW)) = [?c]" "dcName (dtDC attachW) = ''dc''" by (simp_all add: attachW_def decoratorW_def)
  have cache: "set (attachmentCache refK attachW (\<lambda>_. [podObj ''q'', attachmentW]) ?c) = {podObj ''q'', attachmentW}"
    using attachW_shown by (auto simp: attachmentCache_def attachmentShown_def)
  have "GetNamespace refK attachmentW = GetNamespace refK (podObj ''q'')" by (simp add: storedW_simps)
  then show "attachmentsIn refK attachW (\<lambda>_. [podObj ''q'', attachmentW]) (podObj ''q'') (dcsAttachments (dcSpec (dtDC attachW))) = {attachmentW}"
    unfolding cs attachmentsIn_def using attachmentW_made cache by auto
  have "plainObject refK (podObj ''q'')" "plainObject refK attachmentW"
    by (simp_all add: plainObject_def plainName_def plainType_def storedW_simps refGroupVersion_def numeral_2_eq_2 Let_def)
  then show "\<forall>c \<in> set (dcsAttachments (dcSpec (dtDC attachW))). \<forall>obj \<in> set (attachmentCache refK attachW (\<lambda>_. [podObj ''q'', attachmentW]) c). plainObject refK obj"
    unfolding cs using cache by simp
qed

theorem decorator_hook_sees_attachments_witness:
  "\<exists>m c. run_state (getChildren refK queueEnv attachW (podObj ''q'')) attachStoreW = (Inr m, attachStoreW) \<and>
     readField (Decorator_buildHookRequest refK queueEnv attachW \<lparr>hciVersion = HookVersionV1, hciIsFinalizing = False, hciHookType = ''sync''\<rparr> (podObj ''q'')
       (UniformObjectMap m) (UniformObjectMap [])) ''attachments'' = Some c \<and>
     readObject c \<lparr>gvkGroup = '''', gvkVersion = ''v1'', gvkKind = ''Pod''\<rparr> ''c'' = Some (JObj attachmentW)"
proof -
  let ?cached = "\<lambda>_. [podObj ''q'', attachmentW]" and ?cs = "dcsAttachments (dcSpec (dtDC attachW))" and ?g = "\<lparr>gvkGroup = '''', gvkVersion = ''v1'', gvkKind = ''Pod''\<rparr>"
  let ?h = "\<lparr>hciVersion = HookVersionV1, hciIsFinalizing = False, hciHookType = ''sync''\<rparr>"
  have g: "plainType ?g" by (simp add: plainType_def)
  have shown: "list_all (\<lambda>c. \<exists>g. plainType g \<and> attachmentShown refK queueEnv attachW attachStoreW ?cached c g) ?cs"
    using attachW_shown g by (auto simp: attachW_def decoratorW_def)
  have all: "everything_law refK" by (simp add: everything_law_def refK_simps)
  have name: "dcName (dtDC attachW) \<noteq> ''''" by (simp add: attachW_def decoratorW_def)
  have ns: "GetNamespace refK (podObj ''q'') = ''ns''" by (simp add: storedW_simps)
  from decorator_hook_sees_attachments [OF all name shown attachW_attachments(2), of "podObj ''q''" "''c''" ?g ?h "UniformObjectMap []"]
  obtain m c where "run_state (getChildren refK queueEnv attachW (podObj ''q'')) attachStoreW = (Inr m, attachStoreW)"
    "readField (Decorator_buildHookRequest refK queueEnv attachW ?h (podObj ''q'') (UniformObjectMap m) (UniformObjectMap [])) ''attachments'' = Some c"
    "\<forall>obj. readObject c ?g ''c'' = Some (JObj obj) \<longleftrightarrow> obj \<in> {attachmentW} \<and> identity refK obj = (?g, ''ns/c'')"
    unfolding attachW_attachments(1) ns by (auto simp: g)
  then show ?thesis using storedW_identity(1) by blast
qed

end
