(* ===== verification/Steady.thy ===== *)
theory Steady
  imports ManageChildren Informer
begin

text \<open>
  Steady states: what happens when the same desired state is applied again.  The merge of \<^verbatim>\<open>dynamic/apply/apply.go\<close> is idempotent, list maps
  included; the update of a child by \<^verbatim>\<open>ApplyUpdate\<close> reaches a fixed point at once; and \<^verbatim>\<open>ManageChildren\<close> leaves settled children alone.
\<close>

section \<open>List maps\<close>

lemma objectM_idem:
  assumes "keys_sorted d" "keys_sorted u"
    and "\<And>k v. map_of u k = Some v \<Longrightarrow>
           merged (merged (jget d k) (jget l k) v) v v = merged (jget d k) (jget l k) v"
  shows "objectM (objectM d l u) u u = objectM d l u"
proof (rule keys_sorted_ext)
  show "map_of (objectM (objectM d l u) u u) = map_of (objectM d l u)"
  proof
    fix k
    show "map_of (objectM (objectM d l u) u u) k = map_of (objectM d l u) k"
      using assms(3) [of k] keys_sorted_distinct [OF assms(2)]
      by (cases "map_of u k") (simp_all add: map_of_objectM jget_def)
  qed
qed (simp_all add: objectM_sorted assms(1))

text \<open>The keys of a merged list map, in the order of its items.\<close>

definition mergedKeys :: "string \<Rightarrow> json list \<Rightarrow> json list \<Rightarrow> json list \<Rightarrow> string list" where
  "mergedKeys k d l u =
     filter (\<lambda>x. x \<in> itemKey k ` set u \<or> x \<notin> itemKey k ` set l) (map (itemKey k) d) @ filter (\<lambda>x. x \<notin> itemKey k ` set d) (map (itemKey k) u)"

lemma mergedKeys_dom: "x \<in> set (mergedKeys k d l u) \<longleftrightarrow> map_of (mergedMap k d l u) x \<noteq> None"
  using map_of_makeListMap_None [of k u x] map_of_makeListMap_None [of k d x]
  by (auto simp: mergedKeys_def map_of_mergedMap split: option.split)

lemma mergedMap_item:
  assumes "scalarKeyed k d" "scalarKeyed k u" "distinct (map (itemKey k) d)" "distinct (map (itemKey k) u)"
    and "map_of (mergedMap k d l u) x = Some y"
  shows "itemKey k y = x \<and> scalarKeyed k [y]"
proof -
  have item: "v \<in> set xs \<and> itemKey k v = x" if "distinct (map (itemKey k) xs)" "map_of (makeListMap k xs) x = Some v" for xs v
    using that(2) unfolding map_of_makeListMap [OF that(1)] by (auto dest: map_of_SomeD)
  have single: "scalarKeyed k [v]" if "v \<in> set xs" "scalarKeyed k xs" for v xs using that by (simp add: scalarKeyed_def)
  show ?thesis
  proof (cases "map_of (makeListMap k u) x")
    case None
    then have "map_of (makeListMap k d) x = Some y" using assms(5) by (simp add: map_of_mergedMap split: if_splits)
    then show ?thesis using item [OF assms(3)] single assms(1) by blast
  next
    case (Some v)
    note v = item [OF assms(4) Some] 
    have y: "y = merged (jget (makeListMap k d) x) (jget (makeListMap k l) x) v" using assms(5) Some by (simp add: map_of_mergedMap)
    show ?thesis
    proof (cases "map_of (makeListMap k d) x")
      case None
      then have "y = v" unfolding y by (simp add: jget_def merged_simps)
      then show ?thesis using v single assms(2) by blast
    next
      case d: (Some w)
      note w = item [OF assms(3) d]
      have "y = merged w (jget (makeListMap k l) x) v" unfolding y by (simp add: jget_def d)
      then show ?thesis using itemKey_merged [of k w v] single [of w d] single [of v u] v w assms(1,2) by auto
    qed
  qed
qed

lemma listM_idem:
  assumes "scalarKeyed k d" "scalarKeyed k u" "distinct (map (itemKey k) d)" "distinct (map (itemKey k) u)"
    and "\<And>x v. map_of (makeListMap k u) x = Some v \<Longrightarrow>
           merged (merged (jget (makeListMap k d) x) (jget (makeListMap k l) x) v) v v = merged (jget (makeListMap k d) x) (jget (makeListMap k l) x) v"
  shows "scalarKeyed k (listM k d l u)" "listM k (listM k d l u) u u = listM k d l u"
proof -
  define m where "m = mergedMap k d l u"
  define ks where "ks = mergedKeys k d l u"
  have r: "listM k d l u = map (jget m) ks" unfolding m_def ks_def mergedKeys_def by (rule listM_keys [OF assms(1-4)])
  have some: "map_of m x = Some (jget m x)" if "x \<in> set ks" for x
    using that mergedKeys_dom [of x k d l u] by (auto simp: m_def ks_def jget_def)
  have item: "itemKey k (jget m x) = x" "scalarKeyed k [jget m x]" if "x \<in> set ks" for x
    using mergedMap_item [OF assms(1-4)] some [OF that] unfolding m_def by blast+
  have keys: "map (itemKey k) (map (jget m) ks) = ks" using item(1) by (simp add: comp_def map_idI)
  have dist: "distinct ks" using assms(3,4) by (auto simp: ks_def mergedKeys_def)
  show scal: "scalarKeyed k (listM k d l u)" using item(2) by (auto simp: r scalarKeyed_def)
  have map: "makeListMap k (map (jget m) ks) = m"
  proof (rule keys_sorted_ext)
    show "map_of (makeListMap k (map (jget m) ks)) = map_of m"
    proof
      fix x
      have "map_of (map (\<lambda>x. (x, jget m x)) ks) x = map_of m x"
        using some [of x] mergedKeys_dom [of x k d l u] by (auto simp: map_of_map_restrict restrict_map_def m_def ks_def)
      moreover have "map (\<lambda>y. (itemKey k y, y)) (map (jget m) ks) = map (\<lambda>x. (x, jget m x)) ks" using item(1) by simp
      moreover have "distinct (map (itemKey k) (map (jget m) ks))" unfolding keys by (rule dist)
      ultimately show "map_of (makeListMap k (map (jget m) ks)) x = map_of m x" by (simp only: map_of_makeListMap)
    qed
  qed (simp_all add: m_def mergedMap_def objectM_sorted)
  have "objectM m (makeListMap k u) (makeListMap k u) = m"
    unfolding m_def mergedMap_def by (rule objectM_idem) (simp_all add: assms(5))
  then have again: "mergedMap k (map (jget m) ks) u u = m" by (simp add: mergedMap_def map)
  have sub: "x \<in> set ks" if "x \<in> itemKey k ` set u" for x using that by (auto simp: ks_def mergedKeys_def)
  have "itemKey k ` set (map (jget m) ks) = set ks" using arg_cong [OF keys, of set] by (simp add: image_image)
  then have new: "filter (\<lambda>x. x \<notin> itemKey k ` set (map (jget m) ks)) (map (itemKey k) u) = []"
    using sub by (auto simp: filter_empty_conv)
  show "listM k (listM k d l u) u u = listM k d l u"
    using listM_keys [OF scal assms(2) _ assms(4), of u] dist new unfolding r keys again by simp
qed

section \<open>The merge key\<close>

lemma hd_filter_stronger:
  "filter Q xs \<noteq> [] \<Longrightarrow> (\<And>x. P x \<Longrightarrow> Q x) \<Longrightarrow> P (hd (filter Q xs)) \<Longrightarrow> filter P xs \<noteq> [] \<and> hd (filter P xs) = hd (filter Q xs)"
  by (induction xs) (auto split: if_splits)

text \<open>Items that have the merge key of the desired list do not change it.\<close>

lemma detect_again:
  assumes "detectListMapKey [u, u, u] = k" "k \<noteq> ''''" "scalarKeyed k r"
  shows "detectListMapKey [r, u, u] = k"
proof -
  let ?Q = "\<lambda>k. list_all (\<lambda>x. map_of (itemMap x) k \<noteq> None) (concat [u, u, u])"
  let ?P = "\<lambda>k. list_all (\<lambda>x. map_of (itemMap x) k \<noteq> None) (concat [r, u, u])"
  have u: "concat [u, u, u] \<noteq> []" "list_all (\<lambda>x. snd (assertObj x)) (concat [u, u, u])" "filter ?Q knownMergeKeys \<noteq> []" "hd (filter ?Q knownMergeKeys) = k"
    using assms(1,2) unfolding detectListMapKey_spec Let_def by (simp_all split: if_splits)
  have "?Q k" using u(3,4) using hd_in_set [OF u(3)] unfolding set_filter by simp
  then have "?P k" using assms(3) by (auto simp: list_all_iff scalarKeyed_def)
  then have "filter ?P knownMergeKeys \<noteq> [] \<and> hd (filter ?P knownMergeKeys) = k"
    using hd_filter_stronger [of ?Q knownMergeKeys ?P] u(3,4) by simp
  moreover have "list_all (\<lambda>x. snd (assertObj x)) (concat [r, u, u])" using u(2) assms(3) by (auto simp: list_all_iff scalarKeyed_def)
  ultimately show ?thesis using u(1) unfolding detectListMapKey_spec Let_def by simp
qed

section \<open>Idempotence\<close>

text \<open>Where the destination has a value, the desired one is of the same kind, and an array that is merged as a list map has one scalar merge key
  per item, the one that the desired items have by themselves.\<close>

function settles :: "json \<Rightarrow> json \<Rightarrow> json \<Rightarrow> bool" where
  "settles d l u =
     (if snd (assertArr d) then
        (case u of
           JArr us \<Rightarrow>
             (let ds = orNil (fst (assertArr d)); ls = orNil (fst (assertArr l)); k = detectListMapKey [ds, ls, us] in
              k = '''' \<or>
              detectListMapKey [us, us, us] = k \<and> scalarKeyed k ds \<and> scalarKeyed k us \<and> distinct (map (itemKey k) ds) \<and>
              (\<forall>x \<in> set us. settles (jget (makeListMap k ds) (itemKey k x)) (jget (makeListMap k ls) (itemKey k x)) x))
         | _ \<Rightarrow> False)
      else
        case d of
          JObj dm \<Rightarrow>
            (case u of
               JObj um \<Rightarrow> \<forall>p \<in> set um. settles (jget dm (fst p)) (jget (orNil (fst (assertObj l))) (fst p)) (snd p)
             | _ \<Rightarrow> False)
        | _ \<Rightarrow> True)"
  by pat_completeness auto
termination
  by (relation "measure (\<lambda>(d, l, u). jweight u)") (auto dest: jweight_field jweight_item)

declare settles.simps [simp del]

lemma settles_scalar [simp]: "scalar d \<Longrightarrow> settles d l u"
  by (subst settles.simps, cases d) simp_all

lemma settles_JObj:
  "settles (JObj d) l (JObj u) \<longleftrightarrow> (\<forall>p \<in> set u. settles (jget d (fst p)) (jget (orNil (fst (assertObj l))) (fst p)) (snd p))"
  by (subst settles.simps) simp

lemma settles_JArr:
  "settles (JArr ds) l (JArr us) \<longleftrightarrow>
     (let ls = orNil (fst (assertArr l)); k = detectListMapKey [ds, ls, us] in
      k = '''' \<or>
      detectListMapKey [us, us, us] = k \<and> scalarKeyed k ds \<and> scalarKeyed k us \<and> distinct (map (itemKey k) ds) \<and>
      (\<forall>x \<in> set us. settles (jget (makeListMap k ds) (itemKey k x)) (jget (makeListMap k ls) (itemKey k x)) x))"
  by (subst settles.simps) (simp add: Let_def)

lemma merged_array:
  assumes "snd (assertArr d)"
  shows "merged d l u = arrayM (orNil (fst (assertArr d))) (orNil (fst (assertArr l))) (fst (assertArr u))"
  using assms by (cases d) (simp_all add: merged_simps)

lemma merged_idem_array:
  assumes "snd (assertArr d)" "wf_json (JArr us)" "uniqueKeys (JArr us)" "settles d l (JArr us)"
    and "\<And>x c y. x \<in> set us \<Longrightarrow> wf_json c \<Longrightarrow> settles c y x \<Longrightarrow> merged (merged c y x) x x = merged c y x"
  shows "merged (merged d l (JArr us)) (JArr us) (JArr us) = merged d l (JArr us)"
proof -
  define ds where "ds = orNil (fst (assertArr d))"
  define ls where "ls = orNil (fst (assertArr l))"
  define k where "k = detectListMapKey [ds, ls, us]"
  have r: "merged d l (JArr us) = arrayM ds ls (Some us)" using assms(1) by (simp add: merged_array ds_def ls_def)
  show ?thesis
  proof (cases "k = ''''")
    case True
    then have "merged d l (JArr us) = JArr us" by (simp add: r arrayM_def k_def)
    then show ?thesis using merged_self [OF assms(2,3)] by simp
  next
    case False
    then have s: "detectListMapKey [us, us, us] = k" "scalarKeyed k ds" "scalarKeyed k us" "distinct (map (itemKey k) ds)"
      "\<forall>x \<in> set us. settles (jget (makeListMap k ds) (itemKey k x)) (jget (makeListMap k ls) (itemKey k x)) x"
      using assms(1,4) by (simp_all add: settles.simps [of d] ds_def [symmetric] ls_def [symmetric] Let_def k_def [symmetric])
    have dist: "distinct (map (itemKey k) us)" using assms(3) s(1) False by (simp add: Let_def)
    have "wf_json (JObj (makeListMap k ds))" using s(2) by (intro wf_makeListMap) (simp add: scalarKeyed_def)
    then have wf: "wf_json (jget (makeListMap k ds) x)" for x by (rule wf_json_jget)
    have step: "merged (merged (jget (makeListMap k ds) x) (jget (makeListMap k ls) x) v) v v = merged (jget (makeListMap k ds) x) (jget (makeListMap k ls) x) v"
      if "map_of (makeListMap k us) x = Some v" for x v
    proof -
      have "v \<in> set us" "itemKey k v = x" using that unfolding map_of_makeListMap [OF dist] by (auto dest: map_of_SomeD)
      with s(5) show ?thesis by (intro assms(5) wf) auto
    qed
    note idem = listM_idem [OF s(2-4) dist step]
    have "merged d l (JArr us) = JArr (listM k ds ls us)" using False by (simp add: r arrayM_def k_def)
    moreover have "arrayM (listM k ds ls us) us (Some us) = JArr (listM k ds ls us)"
      using False detect_again [OF s(1) False idem(1)] idem(2) by (simp add: arrayM_def Let_def)
    ultimately show ?thesis by (simp add: merged_simps)
  qed
qed

lemma merged_idem:
  "wf_json d \<Longrightarrow> wf_json u \<Longrightarrow> uniqueKeys u \<Longrightarrow> settles d l u \<Longrightarrow> merged (merged d l u) u u = merged d l u"
proof (induction u arbitrary: d l rule: measure_induct_rule [of jweight])
  case (less u)
  show ?case
  proof (cases "snd (assertArr d)")
    case True
    with less.prems(4) obtain us where us: "u = JArr us" by (cases u) (auto simp: settles.simps)
    have IH: "merged (merged c y x) x x = merged c y x" if "x \<in> set us" "wf_json c" "settles c y x" for x c y
      using that less.prems(2,3) by (intro less.IH) (use jweight_item [OF that(1)] in \<open>auto simp: us\<close>)
    show ?thesis unfolding us by (rule merged_idem_array [OF True]) (use less.prems IH in \<open>simp_all add: us\<close>)
  next
    case arr: False
    show ?thesis
    proof (cases d)
      case (JObj dm)
      with less.prems(4) obtain um where um: "u = JObj um"
        and ag: "\<forall>p \<in> set um. settles (jget dm (fst p)) (jget (orNil (fst (assertObj l))) (fst p)) (snd p)"
        by (cases u) (auto simp: settles.simps)
      have step: "merged (merged (jget dm k) (jget (orNil (fst (assertObj l))) k) v) v v = merged (jget dm k) (jget (orNil (fst (assertObj l))) k) v"
        if "map_of um k = Some v" for k v
      proof (rule less.IH)
        have kv: "(k, v) \<in> set um" using that by (rule map_of_SomeD)
        then show "jweight v < jweight u" unfolding um by (rule jweight_field)
        show "wf_json (jget dm k)" using less.prems(1) unfolding JObj by (rule wf_json_jget)
        show "wf_json v" "uniqueKeys v" using less.prems(2,3) kv unfolding um by auto
        show "settles (jget dm k) (jget (orNil (fst (assertObj l))) k) v" using ag kv by force
      qed
      have "keys_sorted dm" "keys_sorted um"
        using less.prems(1,2) unfolding JObj um by simp_all
      then show ?thesis unfolding JObj um by (simp add: merged_simps objectM_idem [OF _ _ step])
    qed (use less.prems arr in \<open>simp_all add: merged_scalar merged_self\<close>)
  qed
qed

lemma settles_field:
  assumes "wf_json (JObj d)" "wf_json (JObj u)" "uniqueKeys (JObj u)" "settles (JObj d) l (JObj u)" "map_of u f = Some v"
  shows "settles (jget d f) (jget (orNil (fst (assertObj l))) f) v" "wf_json v" "uniqueKeys v"
    and "merged (merged (jget d f) (jget (orNil (fst (assertObj l))) f) v) v v = merged (jget d f) (jget (orNil (fst (assertObj l))) f) v"
proof -
  have "(f, v) \<in> set u" using assms(5) by (rule map_of_SomeD)
  then show v: "settles (jget d f) (jget (orNil (fst (assertObj l))) f) v" "wf_json v" "uniqueKeys v"
    using assms(2-4) unfolding settles.simps [of "JObj d"] by fastforce+
  then show "merged (merged (jget d f) (jget (orNil (fst (assertObj l))) f) v) v v = merged (jget d f) (jget (orNil (fst (assertObj l))) f) v"
    by (intro merged_idem wf_json_jget [OF assms(1)])
qed

section \<open>Objects with metadata\<close>

text \<open>How the helpers of \<^verbatim>\<open>unstructured\<close> read and write objects whose metadata is a map.\<close>

definition meta_law :: "'w k8s \<Rightarrow> bool" where
  "meta_law K \<longleftrightarrow>
     (\<forall>m n. map_of m ''metadata'' = Some (JObj n) \<longrightarrow>
        NestedFieldNoCopy K m [''status''] = Inr (map_of m ''status'') \<and>
        (\<forall>f. NestedFieldNoCopy K m [''metadata'', f] = Inr (map_of n f)) \<and>
        (\<forall>v. SetNestedField K m v [''status''] = Inr (jput ''status'' v m)) \<and>
        (\<forall>f v. SetNestedField K m v [''metadata'', f] = Inr (jput ''metadata'' (JObj (jput f v n)) m)) \<and>
        RemoveNestedField K m [''status''] = jdel ''status'' m \<and>
        (\<forall>f. RemoveNestedField K m [''metadata'', f] = jput ''metadata'' (JObj (jdel f n)) m) \<and>
        (\<forall>a. SetAnnotations K m a = jput ''metadata'' (JObj (jput ''annotations'' (ofStrMap a) n)) m) \<and>
        (\<forall>a. map_of n ''annotations'' = Some (ofStrMap a) \<longrightarrow> GetAnnotations K m = Some a) \<and>
        (map_of n ''annotations'' = None \<longrightarrow> GetAnnotations K m = None))"

lemma refK_meta: "meta_law refK"
  by (auto simp: meta_law_def refK_simps putMeta_def metaOf_def jget_def strMapOf_def ofStrMap_def comp_def split: option.split)

definition marshal_law :: "'w k8s \<Rightarrow> bool" where
  "marshal_law K \<longleftrightarrow> (\<forall>m j. Marshal K (JObj m) = Inr j \<longrightarrow> j \<noteq> '''' \<and> Unmarshal K j = Inr m)"

definition setField :: "string \<Rightarrow> json option \<Rightarrow> jobj \<Rightarrow> jobj" where
  "setField f x m = (case x of None \<Rightarrow> jdel f m | Some v \<Rightarrow> jput f v m)"

lemma map_of_setField [simp]: "map_of (setField f x m) g = (if g = f then x else map_of m g)"
  by (simp add: setField_def split: option.split)

lemma keys_sorted_setField [simp]: "keys_sorted m \<Longrightarrow> keys_sorted (setField f x m)"
  by (simp add: setField_def split: option.split)

lemma revertField_run:
  assumes "meta_law K" "map_of orig ''metadata'' = Some (JObj om)" "map_of m ''metadata'' = Some (JObj n)"
  shows "revertField K orig [''status''] m = Inr (setField ''status'' (map_of orig ''status'') m)"
    and "revertField K orig [''metadata'', f] m = Inr (jput ''metadata'' (JObj (setField f (map_of om f) n)) m)"
  using assms(1) [unfolded meta_law_def, rule_format, OF assms(2)] assms(1) [unfolded meta_law_def, rule_format, OF assms(3)]
  by (simp_all add: revertField_def setField_def split: option.split)

lemma revertFields_run:
  assumes "meta_law K" "map_of orig ''metadata'' = Some (JObj om)" "map_of m ''metadata'' = Some (JObj n)" "keys_sorted m" "keys_sorted n"
  shows "\<exists>m' n'. revertFields K orig fs m = Inr m' \<and> keys_sorted m' \<and> keys_sorted n' \<and>
     (\<forall>g. map_of m' g = (if g = ''metadata'' then Some (JObj n') else map_of m g)) \<and>
     (\<forall>g. map_of n' g = (if g \<in> set fs then map_of om g else map_of n g))"
  using assms(3-5)
proof (induction fs arbitrary: m n)
  case Nil
  then show ?case by (intro exI [of _ m] exI [of _ n]) simp
next
  case (Cons f fs)
  let ?n = "setField f (map_of om f) n" and ?m = "jput ''metadata'' (JObj (setField f (map_of om f) n)) m"
  have "map_of ?m ''metadata'' = Some (JObj ?n)" by simp
  from Cons.IH [OF this keys_sorted_jput [OF Cons.prems(2)] keys_sorted_setField [OF Cons.prems(3)]]
  obtain m' n' where *: "revertFields K orig fs ?m = Inr m'" "keys_sorted m'" "keys_sorted n'"
    "\<forall>g. map_of m' g = (if g = ''metadata'' then Some (JObj n') else map_of ?m g)" "\<forall>g. map_of n' g = (if g \<in> set fs then map_of om g else map_of ?n g)"
    by blast
  have "revertFields K orig (f # fs) m = Inr m'" using revertField_run(2) [OF assms(1,2) Cons.prems(1), of f] *(1) by simp
  moreover have "map_of m' g = (if g = ''metadata'' then Some (JObj n') else map_of m g)" for g using *(4) by simp
  moreover have "map_of n' g = (if g \<in> set (f # fs) then map_of om g else map_of n g)" for g using *(5) by simp
  ultimately show ?case using *(2,3) by blast
qed

section \<open>Annotations\<close>

lemma ofStrMap_lookup: "map_of (map (\<lambda>p. (fst p, JString (snd p))) a) x = map_option JString (map_of a x)"
  by (induction a) auto

lemma strings_ofStrMap:
  assumes "\<forall>p \<in> set m. \<exists>s. snd p = JString s"
  shows "\<exists>a. JObj m = ofStrMap a"
proof -
  have "map (\<lambda>p. (fst p, JString (case snd p of JString s \<Rightarrow> s))) m = m" using assms by (intro map_idI) auto
  then show ?thesis by (intro exI [of _ "map (\<lambda>p. (fst p, case snd p of JString s \<Rightarrow> s)) m"]) (simp add: ofStrMap_def comp_def)
qed

lemma ofStrMap_inj [simp]: "ofStrMap a = ofStrMap b \<longleftrightarrow> a = b"
proof -
  have "inj (\<lambda>p :: string \<times> string. (fst p, JString (snd p)))" by (auto simp: inj_def)
  then show ?thesis by (simp add: ofStrMap_def)
qed

lemma keys_sorted_ofStrMap: "keys_sorted (map (\<lambda>p. (fst p, JString (snd p))) a) \<longleftrightarrow> keys_sorted a"
  by (simp add: comp_def)

lemma map_option_JString_inj [simp]: "map_option JString a = map_option JString b \<longleftrightarrow> a = b"
  by (cases a; cases b) simp_all

lemma map_option_ofStrMap_inj [simp]: "map_option ofStrMap a = map_option ofStrMap b \<longleftrightarrow> a = b"
  by (cases a; cases b) simp_all

text \<open>Merging maps of strings gives a map of strings.\<close>

lemma objectM_strings:
  assumes "keys_sorted a" "keys_sorted u"
  shows "\<exists>r. JObj (objectM (map (\<lambda>p. (fst p, JString (snd p))) a) l (map (\<lambda>p. (fst p, JString (snd p))) u)) = ofStrMap r \<and> keys_sorted r \<and>
     (\<forall>x. map_of r x = (case map_of u x of Some s \<Rightarrow> Some s | None \<Rightarrow> if map_of l x \<noteq> None then None else map_of a x))"
proof -
  let ?m = "objectM (map (\<lambda>p. (fst p, JString (snd p))) a) l (map (\<lambda>p. (fst p, JString (snd p))) u)"
  have sorted: "keys_sorted ?m" using assms(1) by (intro objectM_sorted) (simp add: comp_def)
  have look: "map_of ?m x = (case map_of u x of Some s \<Rightarrow> Some (JString s) | None \<Rightarrow> if map_of l x \<noteq> None then None else map_option JString (map_of a x))" for x
    using keys_sorted_distinct [OF assms(2)]
    by (auto simp: map_of_objectM comp_def ofStrMap_lookup jget_def merged_simps split: option.split)
  have "\<exists>s. snd p = JString s" if "p \<in> set ?m" for p
  proof -
    have "map_of ?m (fst p) = Some (snd p)" using that keys_sorted_distinct [OF sorted] by simp
    then show ?thesis unfolding look by (cases "snd p") (auto split: option.splits if_splits)
  qed
  then obtain r where r: "JObj ?m = ofStrMap r" using strings_ofStrMap by blast
  then have m: "?m = map (\<lambda>p. (fst p, JString (snd p))) r" by (simp add: ofStrMap_def)
  have "map_of r x = (case map_of u x of Some s \<Rightarrow> Some s | None \<Rightarrow> if map_of l x \<noteq> None then None else map_of a x)" for x
    using look [of x] unfolding m ofStrMap_lookup by (auto split: option.splits if_splits)
  moreover have "keys_sorted r" using sorted unfolding m keys_sorted_ofStrMap .
  ultimately show ?thesis using r by blast
qed

text \<open>The metadata of an object is a map, its annotations, if any, a map of strings.\<close>

definition plainMeta :: "jobj \<Rightarrow> jobj \<Rightarrow> strmap option \<Rightarrow> bool" where
  "plainMeta m n a \<longleftrightarrow>
     map_of m ''metadata'' = Some (JObj n) \<and> map_of n ''annotations'' = map_option ofStrMap a \<and> keys_sorted m \<and> keys_sorted n \<and> keys_sorted (orNil a)"

lemma GetAnnotations_plain: "meta_law K \<Longrightarrow> plainMeta m n a \<Longrightarrow> GetAnnotations K m = a"
  unfolding meta_law_def plainMeta_def by (cases a) (fastforce, fastforce)

lemma SetAnnotations_plain: "meta_law K \<Longrightarrow> plainMeta m n a \<Longrightarrow> SetAnnotations K m b = jput ''metadata'' (JObj (jput ''annotations'' (ofStrMap b) n)) m"
  unfolding meta_law_def plainMeta_def by blast

lemma merged_annotations:
  assumes "plainMeta d dm da" "plainMeta u um ua"
  shows "\<exists>a. map_of (objectM dm lm um) ''annotations'' = map_option ofStrMap a \<and> keys_sorted (orNil a) \<and>
     (\<forall>x s. map_of (orNil ua) x = Some s \<longrightarrow> map_of (orNil a) x = Some s)"
proof (cases ua)
  case None
  with assms have "map_of (objectM dm lm um) ''annotations'' = (if map_of lm ''annotations'' \<noteq> None then None else map_option ofStrMap da)" "keys_sorted (orNil da)"
    by (simp_all add: plainMeta_def map_of_objectM)
  then show ?thesis by (intro exI [of _ "if map_of lm ''annotations'' \<noteq> None then None else da"]) (simp add: None del: not_None_eq)
next
  case (Some b)
  then have b: "map_of um ''annotations'' = Some (ofStrMap b)" "keys_sorted b" "distinct (map fst um)" using assms(2) by (simp_all add: plainMeta_def)
  show ?thesis
  proof (cases da)
    case None
    then have "map_of (objectM dm lm um) ''annotations'' = Some (ofStrMap b)"
      using assms(1) b by (simp add: plainMeta_def map_of_objectM jget_def merged_simps)
    then show ?thesis using b(2) Some by (intro exI [of _ "Some b"]) simp
  next
    case (Some a)
    then have a: "map_of dm ''annotations'' = Some (ofStrMap a)" "keys_sorted a" using assms(1) by (simp_all add: plainMeta_def)
    obtain r where "JObj (objectM (map (\<lambda>p. (fst p, JString (snd p))) a) (orNil (fst (assertObj (jget lm ''annotations''))))
        (map (\<lambda>p. (fst p, JString (snd p))) b)) = ofStrMap r" "keys_sorted r"
        "\<forall>x. map_of r x = (case map_of b x of Some s \<Rightarrow> Some s | None \<Rightarrow>
           if map_of (orNil (fst (assertObj (jget lm ''annotations'')))) x \<noteq> None then None else map_of a x)"
      using objectM_strings [OF a(2) b(2)] by blast
    then show ?thesis
      using a b \<open>ua = Some b\<close> by (intro exI [of _ "Some r"]) (simp add: map_of_objectM jget_def merged_simps ofStrMap_def)
  qed
qed

section \<open>Applying an update\<close>

text \<open>What applying an update yields, field by field.\<close>

definition applied :: "jobj \<Rightarrow> jobj \<Rightarrow> jobj \<Rightarrow> jobj \<Rightarrow> jobj \<Rightarrow> string \<Rightarrow> jobj \<Rightarrow> jobj \<Rightarrow> strmap option \<Rightarrow> bool" where
  "applied orig om la upd um j new nm ra \<longleftrightarrow>
     plainMeta new nm (Some (jput LastAppliedAnnotation j (orNil ra))) \<and> keys_sorted (orNil ra) \<and> map_of new ''status'' = map_of orig ''status'' \<and>
     (\<forall>f. f \<noteq> ''metadata'' \<longrightarrow> f \<noteq> ''status'' \<longrightarrow> map_of new f = map_of (objectM orig la upd) f) \<and>
     (\<forall>g. g \<noteq> ''annotations'' \<longrightarrow> map_of nm g =
        (if g \<in> set objectMetaSystemFields then map_of om g else map_of (objectM om (orNil (fst (assertObj (jget la ''metadata'')))) um) g)) \<and>
     map_of (objectM om (orNil (fst (assertObj (jget la ''metadata'')))) um) ''annotations'' = map_option ofStrMap ra"

lemma appliedD:
  assumes "applied orig om la upd um j new nm ra"
  shows "plainMeta new nm (Some (jput LastAppliedAnnotation j (orNil ra)))" "keys_sorted (orNil ra)" "map_of new ''status'' = map_of orig ''status''"
    and "f \<noteq> ''metadata'' \<Longrightarrow> f \<noteq> ''status'' \<Longrightarrow> map_of new f = map_of (objectM orig la upd) f"
    and "g \<noteq> ''annotations'' \<Longrightarrow> g \<in> set objectMetaSystemFields \<Longrightarrow> map_of nm g = map_of om g"
    and "g \<noteq> ''annotations'' \<Longrightarrow> g \<notin> set objectMetaSystemFields \<Longrightarrow> map_of nm g = map_of (objectM om (orNil (fst (assertObj (jget la ''metadata'')))) um) g"
    and "map_of (objectM om (orNil (fst (assertObj (jget la ''metadata'')))) um) ''annotations'' = map_option ofStrMap ra"
  using assms unfolding applied_def by simp_all

lemma ApplyUpdate_applied:
  assumes "meta_law K" "plainMeta orig om oa" "plainMeta (nullifyLastAppliedAnnotation K update) um ua"
    and "GetLastApplied K orig = Inr la" "Marshal K (JObj (nullifyLastAppliedAnnotation K update)) = Inr j"
  shows "\<exists>new nm ra. ApplyUpdate K orig update = Inr new \<and> applied orig om la (nullifyLastAppliedAnnotation K update) um j new nm ra"
proof -
  define upd where "upd = nullifyLastAppliedAnnotation K update"
  define r where "r = objectM orig la upd"
  define rm where "rm = objectM om (orNil (fst (assertObj (jget la ''metadata'')))) um"
  have o: "map_of orig ''metadata'' = Some (JObj om)" "keys_sorted orig" "keys_sorted om" using assms(2) by (simp_all add: plainMeta_def)
  have u: "map_of upd ''metadata'' = Some (JObj um)" "keys_sorted upd" using assms(3) by (simp_all add: plainMeta_def upd_def)
  have merge: "Merge orig la upd = Inr r" by (simp add: Merge_def merge_merged merged_simps r_def)
  have r: "map_of r ''metadata'' = Some (JObj rm)" "keys_sorted r" "keys_sorted rm"
    using o u by (simp_all add: r_def rm_def map_of_objectM jget_def merged_simps objectM_sorted)
  obtain ra where ra: "map_of rm ''annotations'' = map_option ofStrMap ra" "keys_sorted (orNil ra)"
    using merged_annotations [OF assms(2,3)] unfolding rm_def by blast
  obtain m1 n1 where m1: "revertFields K orig objectMetaSystemFields r = Inr m1" "keys_sorted m1" "keys_sorted n1"
    "\<forall>g. map_of m1 g = (if g = ''metadata'' then Some (JObj n1) else map_of r g)"
    "\<forall>g. map_of n1 g = (if g \<in> set objectMetaSystemFields then map_of om g else map_of rm g)"
    using revertFields_run [OF assms(1) o(1) r] by blast
  define m2 where "m2 = setField ''status'' (map_of orig ''status'') m1"
  have m2: "revertField K orig [''status''] m1 = Inr m2" using revertField_run(1) [OF assms(1) o(1)] m1(4) by (simp add: m2_def)
  have "''annotations'' \<notin> set objectMetaSystemFields" by (simp add: objectMetaSystemFields_def)
  then have plain: "plainMeta m2 n1 ra" using m1 ra by (simp add: plainMeta_def m2_def)
  define nm where "nm = jput ''annotations'' (ofStrMap (jput LastAppliedAnnotation j (orNil ra))) n1"
  define new where "new = jput ''metadata'' (JObj nm) m2"
  have "SetLastApplied K m2 upd = Inr new"
    using assms(5) by (simp add: SetLastApplied_def upd_def GetAnnotations_plain [OF assms(1) plain] SetAnnotations_plain [OF assms(1) plain] new_def nm_def)
  then have "ApplyUpdate K orig update = Inr new"
    by (simp add: ApplyUpdate_def assms(4) upd_def [symmetric] merge revertObjectMetaSystemFields_def m1(1) m2)
  moreover have "plainMeta new nm (Some (jput LastAppliedAnnotation j (orNil ra)))"
    using plain ra(2) by (simp add: plainMeta_def new_def nm_def)
  ultimately show ?thesis
    using m1(4,5) ra unfolding applied_def upd_def [symmetric] r_def [symmetric] rm_def [symmetric]
    by (intro exI [of _ new] exI [of _ nm] exI [of _ ra]) (simp add: new_def nm_def m2_def)
qed

lemma merged_annotations_again:
  assumes "plainMeta u um ua" "plainMeta new nm (Some (jput LastAppliedAnnotation j b))" "map_of (orNil ua) LastAppliedAnnotation = None"
    and "\<And>x s. map_of (orNil ua) x = Some s \<Longrightarrow> map_of b x = Some s"
  shows "map_of (objectM nm um um) ''annotations'' = Some (ofStrMap (jput LastAppliedAnnotation j b))"
proof (cases ua)
  case None
  then show ?thesis using assms(1,2) by (simp add: plainMeta_def map_of_objectM)
next
  case (Some c)
  let ?b = "jput LastAppliedAnnotation j b" and ?s = "map (\<lambda>p. (fst p, JString (snd p)))"
  have c: "keys_sorted c" "keys_sorted ?b" "map_of um ''annotations'' = Some (ofStrMap c)" "map_of nm ''annotations'' = Some (ofStrMap ?b)" "distinct (map fst um)"
    using assms(1,2) Some by (simp_all add: plainMeta_def)
  obtain r where r: "JObj (objectM (?s ?b) (?s c) (?s c)) = ofStrMap r" "keys_sorted r"
    "\<forall>x. map_of r x = (case map_of c x of Some s \<Rightarrow> Some s | None \<Rightarrow> if map_of (?s c) x \<noteq> None then None else map_of ?b x)"
    using objectM_strings [OF c(2,1)] by blast
  have "map_of r x = map_of ?b x" for x
    using r(3) assms(3) assms(4) [of x] Some by (cases "map_of c x") (auto simp: ofStrMap_lookup)
  then have "r = ?b" by (intro keys_sorted_ext r(2) c(2) ext)
  then show ?thesis using c r(1) by (simp add: map_of_objectM jget_def merged_simps ofStrMap_def)
qed

lemma objectM_again:
  assumes "distinct (map fst u)" "\<And>v. map_of u f = Some v \<Longrightarrow> merged (merged (jget d f) (jget l f) v) v v = merged (jget d f) (jget l f) v"
    and "map_of new f = map_of (objectM d l u) f"
  shows "map_of (objectM new u u) f = map_of new f"
  using assms(2,3) by (cases "map_of u f") (simp_all add: map_of_objectM [OF assms(1)] jget_def)

lemma applied_again:
  assumes "applied orig om la upd um j new nm ra" "applied new nm upd upd um j new' nm' ra'"
    and "plainMeta orig om oa" "plainMeta upd um ua" "map_of (orNil ua) LastAppliedAnnotation = None"
    and "\<And>f v. map_of upd f = Some v \<Longrightarrow> merged (merged (jget orig f) (jget la f) v) v v = merged (jget orig f) (jget la f) v"
    and "\<And>g v. map_of um g = Some v \<Longrightarrow>
      merged (merged (jget om g) (jget (orNil (fst (assertObj (jget la ''metadata'')))) g) v) v v = merged (jget om g) (jget (orNil (fst (assertObj (jget la ''metadata'')))) g) v"
  shows "new' = new"
proof -
  let ?lm = "orNil (fst (assertObj (jget la ''metadata'')))" and ?b = "jput LastAppliedAnnotation j (orNil ra)"
  have u: "distinct (map fst upd)" "distinct (map fst um)" "orNil (fst (assertObj (jget upd ''metadata''))) = um"
    using assms(4) by (simp_all add: plainMeta_def jget_def)
  note first = appliedD [OF assms(1)] and second = appliedD [OF assms(2), unfolded u(3)]
  obtain a where a: "map_of (objectM om ?lm um) ''annotations'' = map_option ofStrMap a" "\<forall>x s. map_of (orNil ua) x = Some s \<longrightarrow> map_of (orNil a) x = Some s"
    using merged_annotations [OF assms(3,4)] by blast
  have "a = ra" using first(7) unfolding a(1) map_option_ofStrMap_inj .
  then have "map_of (objectM nm um um) ''annotations'' = Some (ofStrMap ?b)"
    using a(2) by (intro merged_annotations_again [OF assms(4) first(1) assms(5)]) simp
  then have "ra' = Some ?b" using second(7) by (cases ra') simp_all
  moreover have "jput LastAppliedAnnotation j ?b = ?b" using first(2) by (intro keys_sorted_ext ext) simp_all
  ultimately have ann: "map_of nm' ''annotations'' = map_of nm ''annotations''" using first(1) second(1) by (simp add: plainMeta_def)
  have "map_of nm' g = map_of nm g" for g
  proof (cases "g = ''annotations'' \<or> g \<in> set objectMetaSystemFields")
    case True
    then show ?thesis using ann second(5) [of g] by (cases "g = ''annotations''") simp_all
  next
    case False
    then have "map_of (objectM nm um um) g = map_of nm g" using first(6) [of g] by (intro objectM_again [OF u(2) assms(7)]) simp_all
    then show ?thesis using False second(6) [of g] by simp
  qed
  then have nm: "nm' = nm" using first(1) second(1) by (intro keys_sorted_ext ext) (simp_all add: plainMeta_def)
  have "map_of new' f = map_of new f" for f
  proof (cases "f = ''metadata'' \<or> f = ''status''")
    case True
    then show ?thesis using nm first(1) second(1,3) by (auto simp: plainMeta_def)
  next
    case False
    then have "map_of (objectM new upd upd) f = map_of new f" using first(4) [of f] by (intro objectM_again [OF u(1) assms(6)]) simp_all
    then show ?thesis using False second(4) [of f] by simp
  qed
  then show ?thesis using first(1) second(1) by (intro keys_sorted_ext ext) (simp_all add: plainMeta_def)
qed

section \<open>The recorded state\<close>

lemma jput_wf:
  "wf_json (JObj m) \<Longrightarrow> wf_json v \<Longrightarrow> wf_json (JObj (jput k v m))" "uniqueKeys (JObj m) \<Longrightarrow> uniqueKeys v \<Longrightarrow> uniqueKeys (JObj (jput k v m))"
  using set_jput_subset [of k v m] by auto

lemma nullify_plain:
  assumes "meta_law K" "plainMeta update um ua" "wf_json (JObj update)" "uniqueKeys (JObj update)"
  shows "\<exists>n a. plainMeta (nullifyLastAppliedAnnotation K update) n a \<and> map_of (orNil a) LastAppliedAnnotation = None \<and>
     wf_json (JObj (nullifyLastAppliedAnnotation K update)) \<and> uniqueKeys (JObj (nullifyLastAppliedAnnotation K update))"
proof (cases "map_of (orNil ua) LastAppliedAnnotation")
  case None
  then have "nullifyLastAppliedAnnotation K update = update"
    by (cases ua) (simp_all add: nullifyLastAppliedAnnotation_def GetAnnotations_plain [OF assms(1,2)])
  then show ?thesis using assms None by auto
next
  case (Some s)
  then obtain b where b: "ua = Some b" by (cases ua) simp_all
  let ?n = "jput ''annotations'' (ofStrMap (jdel LastAppliedAnnotation b)) um"
  have upd: "nullifyLastAppliedAnnotation K update = jput ''metadata'' (JObj ?n) update"
    using Some b by (simp add: nullifyLastAppliedAnnotation_def GetAnnotations_plain [OF assms(1,2)] SetAnnotations_plain [OF assms(1,2)])
  have um: "(''metadata'', JObj um) \<in> set update" "keys_sorted um" "keys_sorted b" "keys_sorted update"
    using assms(2) b by (auto simp: plainMeta_def dest: map_of_SomeD)
  have wf: "wf_json (JObj um)" "uniqueKeys (JObj um)" using assms(3,4) um(1) by fastforce+
  have ann: "wf_json (ofStrMap (jdel LastAppliedAnnotation b))" "uniqueKeys (ofStrMap (jdel LastAppliedAnnotation b))"
    using um(3) by (auto simp: ofStrMap_def comp_def)
  note n = jput_wf(1) [OF wf(1) ann(1)] jput_wf(2) [OF wf(2) ann(2)]
  have "wf_json (JObj (jput ''metadata'' (JObj ?n) update))" "uniqueKeys (JObj (jput ''metadata'' (JObj ?n) update))"
    by (rule jput_wf(1) [OF assms(3) n(1)], rule jput_wf(2) [OF assms(4) n(2)])
  moreover have "plainMeta (jput ''metadata'' (JObj ?n) update) ?n (Some (jdel LastAppliedAnnotation b))" using um by (simp add: plainMeta_def)
  ultimately show ?thesis unfolding upd by (intro exI [of _ ?n] exI [of _ "Some (jdel LastAppliedAnnotation b)"]) simp
qed

lemma GetLastApplied_applied:
  assumes "meta_law K" "marshal_law K" "plainMeta new nm (Some (jput LastAppliedAnnotation j a))" "Marshal K (JObj upd) = Inr j"
  shows "GetLastApplied K new = Inr upd"
  using assms(2,4) by (simp add: GetLastApplied_def GetAnnotations_plain [OF assms(1,3)] marshal_law_def)

text \<open>An object that has metadata, with annotations that are strings, and lists whose merge keys are unique.\<close>

definition regular :: "jobj \<Rightarrow> bool" where
  "regular m \<longleftrightarrow> wf_json (JObj m) \<and> uniqueKeys (JObj m) \<and> (\<exists>n a. plainMeta m n a)"

section \<open>Properties\<close>

text \<open>Merging the same desired state again changes nothing: once a merge result has been stored and \<^verbatim>\<open>desired\<close> recorded as last applied,
  the next merge returns the stored value.\<close>

theorem merge_idempotent:
  assumes "wf_json destination" "wf_json desired" "uniqueKeys desired" "settles destination lastApplied desired"
    and "merge p destination lastApplied desired = Inr r"
  shows "merge p r desired desired = Inr r"
  using merged_idem [OF assms(1-4)] assms(5) by (auto simp: merge_merged)


text \<open>A child that applying the desired state does not change.\<close>

definition settledChild :: "'w k8s \<Rightarrow> unstructured option \<Rightarrow> unstructured \<Rightarrow> bool" where
  "settledChild K observed desired \<longleftrightarrow> (\<exists>ob. observed = Some ob \<and> ApplyUpdate K ob desired = Inr ob)"

definition kindKnown :: "'w k8s \<Rightarrow> Clientset \<Rightarrow> gvk \<Rightarrow> bool" where
  "kindKnown K dynClient g \<longleftrightarrow> (\<exists>client. Clientset_Kind K dynClient (GroupVersionString K (gvkGroup g) (gvkVersion g)) (gvkKind g) = Inr client)"

lemma deleteChildren_settled:
  assumes "aggregate_law K" "list_all (\<lambda>p. GetDeletionTimestamp K (snd p) \<noteq> None \<or> map_of (orNil desired) (fst p) \<noteq> None) observed"
  shows "run_state (deleteChildren K client observed desired) s = (None, s)"
proof -
  have "run_state (deleteChild K client desired p) s = (None, s)" if "p \<in> set observed" for p s
    using assms(2) that by (cases desired) (auto simp: list_all_iff deleteChild_def Let_def)
  then show ?thesis using assms(1) by (simp add: deleteChildren_def collectErrs_skip aggregate_law_def)
qed

lemma updateChildren_settled:
  assumes "aggregate_law K" "aoStrategy opts \<in> {'''', ''dynamic-apply''}"
    and "list_all (\<lambda>p. settledChild K (map_of (orNil observed) (fst p)) (snd p)) desired"
  shows "run_state (updateChildren K client strategy parent observed desired opts) s = (None, s)"
proof -
  have "run_state (DynamicApply_Apply K client \<lparr>opUpdateStrategy = strategy, opParent = parent, opObserved = map_of (orNil observed) (fst p),
      opDesired = snd p\<rparr>) s = (None, s)" if "p \<in> set desired" for p s
    using assms(3) that by (auto simp: list_all_iff settledChild_def DynamicApply_Apply_def)
  then show ?thesis
    using assms(1,2) by (auto simp: updateChildren_def NewApplier_def collectErrs_skip aggregate_law_def)
qed


section \<open>Witnesses\<close>

text \<open>A pod whose container gets a new image, beside a container that someone else has added.\<close>

definition containerW :: "string \<Rightarrow> string \<Rightarrow> json" where
  "containerW name img = JObj [(''image'', JString img), (''name'', JString name)]"

definition runningW :: jobj where
  "runningW = [(''metadata'', JObj [(''name'', JString ''c''), (''uid'', JString ''1'')]),
     (''spec'', JObj [(''containers'', JArr [containerW ''main'' ''v1'', containerW ''proxy'' ''p''])]), (''status'', JString ''Running'')]"

definition desiredW :: jobj where
  "desiredW = [(''metadata'', JObj [(''name'', JString ''c'')]), (''spec'', JObj [(''containers'', JArr [containerW ''main'' ''v2''])])]"

definition steadyK :: "world k8s" where
  "steadyK = refK\<lparr>Marshal := (\<lambda>j. if j = JObj desiredW then Inr ''d'' else Inl (LibErr ''marshal'')),
     Unmarshal := (\<lambda>s. if s = ''d'' then Inr desiredW else Inl (LibErr ''unmarshal''))\<rparr>"

lemma steadyK_laws: "meta_law steadyK" "marshal_law steadyK"
  using refK_meta by (simp_all add: meta_law_def marshal_law_def steadyK_def)

lemma desiredW_nullify: "nullifyLastAppliedAnnotation steadyK desiredW = desiredW"
  by (simp add: nullifyLastAppliedAnnotation_def steadyK_def desiredW_def refK_simps metaOf_def jget_def strMapOf_def)

lemma runningW_settles: "settles (JObj runningW) (JObj []) (JObj desiredW)"
proof -
  let ?ds = "[containerW ''main'' ''v1'', containerW ''proxy'' ''p'']" and ?us = "[containerW ''main'' ''v2'']"
  have key: "detectListMapKey [?ds, [], ?us] = ''name''" "detectListMapKey [?us, ?us, ?us] = ''name''"
    by (simp_all add: detectListMapKey_spec knownMergeKeys_def containerW_def)
  have "settles (containerW ''main'' ''v1'') JNull (containerW ''main'' ''v2'')" by (simp add: containerW_def settles_JObj jget_def)
  then have "settles (JArr ?ds) JNull (JArr ?us)"
    unfolding settles_JArr by (simp add: key) (simp add: scalarKeyed_def containerW_def makeListMap_def stringMergeKey_def jget_def)
  then show ?thesis by (simp add: runningW_def desiredW_def settles_JObj jget_def)
qed


text \<open>A pod that has been created from an empty desired state.\<close>

definition settledW :: unstructured where
  "settledW = SetAnnotations refK (podObj ''c'') [(LastAppliedAnnotation, ''{}'')]"

lemma settledW_settled: "settledChild refK (Some settledW) []"
  by (simp add: settledChild_def settledW_def ApplyUpdate_def GetLastApplied_def nullifyLastAppliedAnnotation_def refK_simps podObj_def metaOf_def putMeta_def jget_def
      strMapOf_def ofStrMap_def Merge_def merge_merged merged_simps objectM_def removeStale_def revertObjectMetaSystemFields_def
      objectMetaSystemFields_def revertField_def SetLastApplied_def jdel_def)


end
