(* ===== verification/Worker.thy ===== *)
theory Worker
  imports Composite_Control Decorator_Control
begin

text \<open>
  The workers of both controllers, \<^verbatim>\<open>composite/controller.go\<close> and \<^verbatim>\<open>decorator/controller.go\<close>: a loop around the queue that may run for ever,
  and that ends once the queue is shut down, so that \<^verbatim>\<open>Stop\<close>, which waits for the workers, returns.
\<close>

section \<open>The loop\<close>

text \<open>The loop ends when a turn says that the queue is shut down, or with a panic.\<close>

partial_function (option) workLoop :: "('s \<Rightarrow> (err + bool) \<times> 's) \<Rightarrow> 's \<Rightarrow> (err option \<times> 's) option" where
  "workLoop turn s =
     (case turn s of
        (Inl e, s') \<Rightarrow> Some (Some e, s')
      | (Inr again, s') \<Rightarrow> if again then workLoop turn s' else Some (None, s'))"

definition worker :: "'w k8s \<Rightarrow> 'w env \<Rightarrow> parentController \<Rightarrow> 'w \<times> proc \<Rightarrow> (err option \<times> 'w \<times> proc) option" where
  "worker K E pc s = workLoop (run_state (processNextWorkItem K E pc)) s"

definition Decorator_worker :: "'w k8s \<Rightarrow> 'w env \<Rightarrow> decoratorController \<Rightarrow> 'w \<times> proc \<Rightarrow> (err option \<times> 'w \<times> proc) option" where
  "Decorator_worker K E dt s = workLoop (run_state (Decorator_processNextWorkItem K E dt)) s"

lemma workLoop_ends:
  assumes "\<And>s s'. I s \<Longrightarrow> turn s = (Inr True, s') \<Longrightarrow> I s' \<and> todo s' < (todo s :: nat)" "I s"
  shows "\<exists>r s'. workLoop turn s = Some (r, s')"
  using assms(2)
proof (induction s rule: measure_induct_rule [of todo])
  case (less s)
  obtain x s' where t: "turn s = (x, s')" by (metis surj_pair)
  show ?case
  proof (cases "x = Inr True")
    case True
    then have "I s' \<and> todo s' < todo s" using assms(1) [OF less.prems] t by simp
    then obtain r s'' where "workLoop turn s' = Some (r, s'')" using less.IH by blast
    then show ?thesis using t True by (subst workLoop.simps) simp
  next
    case False
    then show ?thesis using t by (subst workLoop.simps) (auto split: sum.split)
  qed
qed

section \<open>A queue that was shut down\<close>

text \<open>The keys that still wait in the queue \<open>q\<close> are among \<open>W\<close>, and the queue is shut down.\<close>

definition drained :: "('w \<Rightarrow> bool) \<Rightarrow> ('w \<Rightarrow> string set) \<Rightarrow> string set \<Rightarrow> 'w \<Rightarrow> bool" where
  "drained shut waiting W w \<longleftrightarrow> shut w \<and> waiting w \<subseteq> W"

text \<open>After \<^verbatim>\<open>ShutDown\<close>, \<^verbatim>\<open>Get\<close> hands out the keys that still wait, one after the other, then says that the queue is closed, and the queue takes no
  more keys.\<close>

definition closed_law :: "'w env \<Rightarrow> string \<Rightarrow> ('w \<Rightarrow> bool) \<Rightarrow> ('w \<Rightarrow> string set) \<Rightarrow> bool" where
  "closed_law E q shut waiting \<longleftrightarrow>
     (\<forall>w. shut w \<longrightarrow> finite (waiting w)) \<and>
     (\<forall>w k w'. shut w \<longrightarrow> run_state (QueueGet E q) w = (Some k, w') \<longrightarrow> shut w' \<and> k \<in> waiting w \<and> waiting w' \<subseteq> waiting w - {k}) \<and>
     (\<forall>W k d. preserves (drained shut waiting W) (QueueAddAfter E q k d)) \<and> (\<forall>W k. preserves (drained shut waiting W) (QueueAddRateLimited E q k)) \<and>
     (\<forall>W k. preserves (drained shut waiting W) (QueueForget E q k)) \<and> (\<forall>W k. preserves (drained shut waiting W) (QueueDone E q k))"

lemma closed_pres:
  assumes "closed_law E q shut waiting"
  shows "preserves (drained shut waiting W) (QueueAddAfter E q k d)" "preserves (drained shut waiting W) (QueueAddRateLimited E q k)"
    "preserves (drained shut waiting W) (QueueForget E q k)" "preserves (drained shut waiting W) (QueueDone E q k)"
  using assms by (simp_all add: closed_law_def)

lemma processItem_shrinks:
  assumes "closed_law E q shut waiting" "\<And>W key. preserves (\<lambda>(w, p). drained shut waiting W w) (syncKey key)"
    and "shut w" "run_state (processItem E q syncKey) (w, p) = (Inr True, (w', p'))"
  shows "shut w' \<and> card (waiting w') < card (waiting w)"
proof -
  obtain k w1 where get: "run_state (QueueGet E q) w = (k, w1)" by (metis surj_pair)
  then obtain key where k: "k = Some key" using assms(4) by (cases k) (auto simp: processItem_def)
  have w1: "shut w1" "key \<in> waiting w" "waiting w1 \<subseteq> waiting w - {key}"
    using assms(1,3) get unfolding k closed_law_def by blast+
  let ?P = "\<lambda>(w, p :: proc). drained shut waiting (waiting w1) w"
  have rq: "preserves (drained shut waiting (waiting w1)) (requeue E q key err)" for err
    unfolding requeue_def by (auto intro!: pres closed_pres [OF assms(1)] split: option.split)
  note [pres] = rq assms(2) closed_pres(4) [OF assms(1)]
  let ?body = "do { err \<leftarrow> syncKey key; x \<leftarrow> liftFst (requeue E q key err); liftFst (QueueDone E q key);
      State_Monad.return (case x of Some e \<Rightarrow> Inl e | None \<Rightarrow> Inr True) }"
  have "preserves ?P ?body" by (auto intro!: pres)
  moreover have "run_state ?body (w1, p) = (Inr True, (w', p'))" using assms(4) get k by (simp add: processItem_def)
  moreover have "?P (w1, p)" using w1(1) by (simp add: drained_def)
  ultimately have "?P (w', p')" by (rule preserves_run)
  then have "drained shut waiting (waiting w1) w'" by simp
  then have "shut w'" "waiting w' \<subseteq> waiting w - {key}" using w1(3) by (auto simp: drained_def)
  moreover have "finite (waiting w)" using assms(1,3) by (simp add: closed_law_def)
  ultimately show ?thesis using w1(2) by (metis Diff_subset card_mono card_Diff1_less finite_Diff order_le_less_trans)
qed

lemma processItem_loop_ends:
  assumes "closed_law E q shut waiting" "\<And>W key. preserves (\<lambda>(w, p). drained shut waiting W w) (syncKey key)" "shut w"
  shows "\<exists>r s'. workLoop (run_state (processItem E q syncKey)) (w, p) = Some (r, s')"
proof (rule workLoop_ends [where I = "\<lambda>(w, p). shut w" and todo = "\<lambda>(w, p). card (waiting w)"])
  show "(case s' of (w, p) \<Rightarrow> shut w) \<and> (case s' of (w, p) \<Rightarrow> card (waiting w)) < (case s of (w, p) \<Rightarrow> card (waiting w))"
    if "case s of (w, p) \<Rightarrow> shut w" "run_state (processItem E q syncKey) s = (Inr True, s')" for s s'
    using processItem_shrinks [OF assms(1,2)] that by (cases s; cases s') simp
qed (use assms(3) in simp)

lemma allowed_sync:
  assumes "quiet P K E" "retry_law K" "labels_law K" "syncAllows P K E pc"
  shows "preserves (\<lambda>(w, p). P w) (sync K E pc key)"
proof -
  note [pres] = allowed_syncParentObject [OF assms] quiet_pres(8) [OF assms(1)]
  show ?thesis unfolding sync_def GetObject_def by (auto intro!: pres split: sum.split)
qed

lemma allowed_Decorator_sync:
  assumes "quiet P K E" "retry_law K" "annotations_law K" "decoratorAllows P K dt"
  shows "preserves (\<lambda>(w, p). P w) (Decorator_sync K E dt key)"
proof -
  note [pres] = allowed_Decorator_syncParentObject [OF assms] quiet_pres(8) [OF assms(1)]
  show ?thesis unfolding Decorator_sync_def GetObject_def by (auto intro!: pres split: sum.split option.split)
qed

section \<open>Properties\<close>


theorem Decorator_worker_ends:
  assumes "closed_law E (dtQueue dt) shut waiting" "retry_law K" "annotations_law K"
    and "\<And>W. quiet (drained shut waiting W) K E" "\<And>W. decoratorAllows (drained shut waiting W) K dt" "shut w"
  shows "\<exists>r s'. Decorator_worker K E dt (w, p) = Some (r, s')"
  unfolding Decorator_worker_def Decorator_processNextWorkItem_def
  by (rule processItem_loop_ends [OF assms(1) allowed_Decorator_sync [OF assms(4,2,3,5)] assms(6)])

section \<open>Witnesses\<close>

text \<open>A queue that was shut down while one key waited.\<close>

definition closedEnv :: "world env" where
  "closedEnv = refE\<lparr>QueueGet := (\<lambda>_. State (\<lambda>w. if (''get'', ''ns/p'') \<in> set (wLog w) then (None, w)
     else (Some ''ns/p'', w\<lparr>wLog := wLog w @ [(''get'', ''ns/p'')]\<rparr>)))\<rparr>"

definition waitingW :: "world \<Rightarrow> string set" where
  "waitingW w = (if (''get'', ''ns/p'') \<in> set (wLog w) then {} else {''ns/p''})"

lemma closedEnv_law: "closed_law closedEnv q (\<lambda>_. True) waitingW"
  by (auto simp: closed_law_def closedEnv_def waitingW_def drained_def preserves_def refEnv_simps logE_def split: if_splits)

lemma closedEnv_quiet: "quiet (drained (\<lambda>_. True) waitingW W) refK closedEnv"
  by (simp add: quiet_def drained_def waitingW_def closedEnv_def preserves_def refK_simps refEnv_simps logE_def refGet_def del: split_paired_All)


end
