(* ===== verification/Ledger.thy ===== *)
theory Ledger
  imports Control
begin

text \<open>
  Who has opened which informer.  Controllers share the informers of a process; each keeps those of its parents and children and
  opens further ones for related resources while it works.  A ledger lists the running controllers with their informers, and a state
  is accounted for when exactly the informers in the ledger are open.  The locale \<open>controller\<close> says what one controller
  promises about its account; working and stopping are then shown to keep the ledger.
\<close>

lemma hoareI: "(\<And>s x t. P s \<Longrightarrow> run_state c s = (x, t) \<Longrightarrow> Q x t) \<Longrightarrow> hoare P c Q"
  by (simp add: hoare_def)

lemma hoare_if: "(b \<Longrightarrow> hoare P c Q) \<Longrightarrow> (\<not> b \<Longrightarrow> hoare P d Q) \<Longrightarrow> hoare P (if b then c else d) Q"
  by simp

section \<open>Identities\<close>

text \<open>The identity of an informer is fresh when it is made, and nothing outside takes one back.\<close>

definition identity_law :: "('w \<Rightarrow> nat set) \<Rightarrow> 'w k8s \<Rightarrow> 'w env \<Rightarrow> bool" where
  "identity_law alloc K E \<longleftrightarrow>
     fresh_law E alloc \<and> growing_env alloc E \<and> (\<forall>A. quiet (\<lambda>w. A \<subseteq> alloc w) K E) \<and>
     (\<forall>ri obj. growing alloc (ApiUpdate K ri obj)) \<and> (\<forall>ri obj. growing alloc (ApiUpdateStatus K ri obj)) \<and>
     (\<forall>ri obj. growing alloc (ApiCreate K ri obj)) \<and> (\<forall>ri n o'. growing alloc (ApiDelete K ri n o')) \<and>
     (\<forall>ri n t d o'. growing alloc (ApiPatch K ri n t d o')) \<and>
     (\<forall>ns n. growing alloc (RevGet K ns n)) \<and> (\<forall>ns r. growing alloc (RevCreate K ns r)) \<and>
     (\<forall>ns r. growing alloc (RevUpdate K ns r)) \<and> (\<forall>ns n o'. growing alloc (RevDelete K ns n o')) \<and>
     (\<forall>q k. growing alloc (QueueAddRateLimited E q k)) \<and> (\<forall>q. growing alloc (QueueGet E q)) \<and>
     (\<forall>q k. growing alloc (QueueForget E q k)) \<and> (\<forall>q k. growing alloc (QueueDone E q k)) \<and>
     (\<forall>n. growing alloc (GetCompositeController E n)) \<and> (\<forall>n. growing alloc (GetCRD E n)) \<and>
     (\<forall>n. growing alloc (GetDecoratorController E n)) \<and> growing alloc (ServerGroupsAndResources K)"

lemma identityD:
  assumes "identity_law alloc K E"
  shows "fresh_law E alloc" "growing_env alloc E" "quiet (\<lambda>w. A \<subseteq> alloc w) K E"
    "growing alloc (ApiUpdate K ri obj)" "growing alloc (ApiUpdateStatus K ri obj)" "growing alloc (ApiCreate K ri obj)"
    "growing alloc (ApiDelete K ri n o1)" "growing alloc (ApiPatch K ri n t d o2)" "growing alloc (RevGet K ns n)" "growing alloc (RevCreate K ns r)"
    "growing alloc (RevUpdate K ns r)" "growing alloc (RevDelete K ns n o3)" "growing alloc (QueueAddRateLimited E q k)" "growing alloc (QueueGet E q)"
    "growing alloc (QueueForget E q k)" "growing alloc (QueueDone E q k)" "growing alloc (GetCompositeController E n)" "growing alloc (GetCRD E n)"
    "growing alloc (GetDecoratorController E n)" "growing alloc (ServerGroupsAndResources K)"
  using assms by (simp_all add: identity_law_def)

lemma ManageChildren_keeps:
  assumes "\<And>ri obj. preserves P (ApiUpdate K ri obj)" "\<And>ri obj. preserves P (ApiCreate K ri obj)"
    and "\<And>ri n o'. preserves P (ApiDelete K ri n o')" "\<And>ri n t d o'. preserves P (ApiPatch K ri n t d o')"
  shows "keepsW P (ManageChildren K cs strategy parent observed desired opts)"
proof -
  have [pres]: "keepsW P (deleteChild K client d p)" for client d p
    unfolding deleteChild_def Let_def by (auto intro!: pres assms split: option.split)
  have [pres]: "keepsW P (childUpdateRecreate K client ob des)" for client ob des
    unfolding childUpdateRecreate_def by (intro pres assms)
  have [pres]: "keepsW P (ssaPatch K client opts d data st)" if "\<And>g r u. keepsW P (st g r u)" for client opts d data st
    unfolding ssaPatch_def by (auto intro!: pres assms that split: sum.split)
  have [pres]: "keepsW P (ssaRecreate K client opts ob d data st)" if "\<And>g r u. keepsW P (st g r u)" for client opts ob d data st
    unfolding ssaRecreate_def by (auto intro!: pres assms that split: sum.split option.split)
  have [pres]: "keepsW P (ssaDropAnnotation K client ob d)" for client ob d
    unfolding ssaDropAnnotation_def by (auto intro!: pres assms)
  have [pres]: "keepsW P (DynamicApply_Apply K client op)" "keepsW P (ServerSideApply_Apply K client opts op)" for client opts op
    unfolding DynamicApply_Apply_def createChild_def updateInPlace_def ServerSideApply_Apply_def Let_def
    by (auto intro!: pres assms split: option.split sum.split)
  have [pres]: "keepsW P (Applier_Apply K ap op)" for ap op by (cases ap) (auto intro!: pres)
  show ?thesis
    unfolding ManageChildren_def manageDeletes_def manageUpdates_def deleteChildren_def updateChildren_def
    by (auto intro!: pres split: option.split sum.split)
qed

section \<open>One controller's account\<close>

definition relatedOf :: "'w \<times> proc \<Rightarrow> string \<Rightarrow> InformerMap" where
  "relatedOf s c = orNil (map_of (pcRelated (snd s)) c)"

text \<open>Open are \<open>M\<close> and the related informers of the controller \<open>c\<close>; those of the others are \<open>R\<close>.\<close>

definition account :: "('w \<Rightarrow> nat set) \<Rightarrow> string \<Rightarrow> ResourceInformer multiset \<Rightarrow> (string \<Rightarrow> InformerMap) \<Rightarrow> 'w \<times> proc \<Rightarrow> bool" where
  "account alloc c M R s \<longleftrightarrow>
     subscribed alloc (M + mset (map snd (relatedOf s c))) s \<and> (\<forall>c'. c' \<noteq> c \<longrightarrow> relatedOf s c' = R c')"

lemma account_frame:
  assumes "\<And>M. preserves (subscribed alloc M) f" "\<And>s. pcRelated (snd (snd (run_state f s))) = pcRelated (snd s)"
  shows "preserves (account alloc c M R) f"
proof (rule preservesI)
  fix s assume a: "account alloc c M R s"
  have "relatedOf (snd (run_state f s)) c' = relatedOf s c'" for c' using assms(2) by (simp add: relatedOf_def)
  with a preservesD [OF assms(1)] show "account alloc c M R (snd (run_state f s))" unfolding account_def by simp
qed

lemma account_world: "growing alloc f \<Longrightarrow> preserves (account alloc c M R) (liftFst f)"
  by (rule account_frame [OF subscribed_world]) (auto simp: liftFst_def split: prod.split)

lemma account_cache:
  assumes "\<And>A. keepsW (\<lambda>w. A \<subseteq> alloc w) f"
  shows "preserves (account alloc c M R) (liftCache f)"
proof (rule account_frame)
  fix M
  show "preserves (subscribed alloc M) (liftCache f)"
  proof (rule preservesI)
    fix s :: "'a \<times> proc"
    assume "subscribed alloc M s"
    then obtain subs where "mset subs = M" "factory_inv alloc (fst s, pcFactory (snd s)) subs" by (auto simp: subscribed_def)
    moreover have "alloc (fst s) \<subseteq> alloc (fst (snd (run_state f (fst s, pcLastUpdated (snd s)))))"
      using assms [of "alloc (fst s)"] by (auto simp: preserves_def case_prod_beta)
    ultimately show "subscribed alloc M (snd (run_state (liftCache f) s))"
      by (cases s) (auto simp: subscribed_def intro: factory_inv_mono)
  qed
  show "pcRelated (snd (snd (run_state (liftCache f) s))) = pcRelated (snd s)" for s by (cases s) simp
qed

lemma account_handler:
  assumes "identity_law alloc K E" "\<And>ev. growing alloc (h ev)"
  shows "preserves (account alloc c M R) (subscribeHandler K E h ri hid d)"
proof (rule account_frame)
  fix M
  have q: "preserves (\<lambda>(w, p). A \<subseteq> alloc w) (subscribeHandler K E h ri hid d)" for A
    by (rule quiet_subscribeHandler [OF identityD(3) [OF assms(1)]]) (use assms(2) in \<open>simp add: growing_def\<close>)
  show "preserves (subscribed alloc M) (subscribeHandler K E h ri hid d)"
  proof (rule preservesI)
    fix s :: "'a \<times> proc"
    assume "subscribed alloc M s"
    then obtain subs where "mset subs = M" "factory_inv alloc (fst s, pcFactory (snd s)) subs" by (auto simp: subscribed_def)
    moreover have "alloc (fst s) \<subseteq> alloc (fst (snd (run_state (subscribeHandler K E h ri hid d) s)))"
      using q [of "alloc (fst s)"] by (cases s) (force simp: preserves_def case_prod_beta)
    moreover have "pcFactory (snd (snd (run_state (subscribeHandler K E h ri hid d) s))) = pcFactory (snd s)"
      by (cases s) (simp add: subscribeHandler_def case_prod_beta)
    ultimately show "subscribed alloc M (snd (run_state (subscribeHandler K E h ri hid d) s))"
      by (auto simp: subscribed_def intro: factory_inv_mono)
  qed
  show "pcRelated (snd (snd (run_state (subscribeHandler K E h ri hid d) s))) = pcRelated (snd s)" for s
    by (cases s) (simp add: subscribeHandler_def case_prod_beta)
qed

text \<open>An informer opened for a related resource is entered in the controller's account.\<close>

lemma account_getOrCreateRelatedInformer:
  assumes "identity_law alloc K E" "\<And>obj. growing alloc (enqueue obj)"
  shows "preserves (account alloc (mgId rm) M R) (getOrCreateRelatedInformer K E enqueue rm a r g)"
proof (rule preservesI)
  fix s :: "'a \<times> proc"
  let ?c = "mgId rm" and ?f = "getOrCreateRelatedInformer K E enqueue rm a r g"
  assume acc: "account alloc ?c M R s"
  have handler: "growing alloc (relatedHandler K E enqueue rm ev)" for ev
    unfolding growing_def using assms(2) by (intro allI quiet_relatedHandler [OF identityD(3) [OF assms(1)]]) (simp add: growing_def)
  have get: "run_state (getRelated ?c) t = (relatedOf t ?c, t)" for t :: "'a \<times> proc"
    by (simp add: getRelated_def relatedOf_def case_prod_beta)
  show "account alloc ?c M R (snd (run_state ?f s))"
  proof (cases "SyncMap_Get (relatedOf s ?c) g")
    case (Some i)
    then show ?thesis using acc by (simp add: getOrCreateRelatedInformer_def get)
  next
    case None
    obtain x t where open': "run_state (liftFactory (Factory_Resource K E a r)) s = (x, t)" by (metis surj_pair)
    have rel: "pcRelated (snd t) = pcRelated (snd s)" using open' by (cases s) auto
    have sub: "subscribed alloc (case x of Inl _ \<Rightarrow> M + mset (map snd (relatedOf s ?c)) | Inr ri \<Rightarrow> add_mset ri (M + mset (map snd (relatedOf s ?c)))) t"
      using hoareD [OF subscribed_open [OF identityD(1) [OF assms(1)]] _ open'] acc unfolding account_def by blast
    show ?thesis
    proof (cases x)
      case (Inl e)
      then have "snd (run_state ?f s) = t" by (simp add: getOrCreateRelatedInformer_def get None open')
      moreover have "account alloc ?c M R t" using acc sub rel Inl by (simp add: account_def relatedOf_def)
      ultimately show ?thesis by simp
    next
      case (Inr ri)
      let ?m = "SyncMap_Set (relatedOf s ?c) g ri"
      have new: "g \<notin> fst ` set (relatedOf s ?c)"
        using None by (simp add: SyncMap_Get_def SyncMap_Load_def map_of_eq_None_iff)
      have t: "relatedOf t ?c = relatedOf s ?c" using rel by (simp add: relatedOf_def)
      define u where "u = snd (run_state (setRelated ?c ?m) t)"
      have u: "relatedOf u c' = (if c' = ?c then ?m else relatedOf s c')" "pcFactory (snd u) = pcFactory (snd t)" "fst u = fst t" for c'
        using rel by (auto simp: u_def setRelated_def relatedOf_def update_conv' case_prod_beta)
      have "subscribed alloc (M + mset (map snd ?m)) u"
        using sub Inr u(2,3) unfolding subscribed_def mset_SyncMap_Set [OF new] by simp
      then have acc': "account alloc ?c M R u" using acc u(1) by (simp add: account_def)
      have "account alloc ?c M R (snd (run_state (subscribeHandler K E (relatedHandler K E enqueue rm) ri (?c, RelatedHandler) None) u))"
        by (rule preservesD [OF account_handler [OF assms(1) handler] acc'])
      moreover have "SyncMap_GetOrCreate (relatedOf t ?c) g ri = (ri, False, ?m)"
        using None by (simp add: t SyncMap_GetOrCreate_def SyncMap_LoadOrStore_def SyncMap_Get_def SyncMap_Load_def SyncMap_Set_def)
      ultimately show ?thesis
        by (simp add: getOrCreateRelatedInformer_def get None open' Inr u_def case_prod_beta)
    qed
  qed
qed

section \<open>A sync\<close>

lemma account_GetRelatedObjects:
  assumes "identity_law alloc K E" "\<And>obj. growing alloc (enqueue obj)"
  shows "preserves (account alloc (mgId rm) M R) (GetRelatedObjects K E enqueue rm parent)"
proof -
  note q = identityD(3) [OF assms(1)]
  have synced: "growing alloc (InformerHasSynced E i)" and rule: "growing alloc (relatedByRule K E rm v pn parent rule client informer)"
    and response: "growing alloc (getCustomizeHookResponse K E rm parent)" for i v pn rule client informer
    unfolding growing_def by (intro allI quiet_pres(7) [OF q] quiet_relatedByRule q quiet_getCustomizeHookResponse)+
  note [pres] = account_world [OF synced] account_world [OF rule] account_world [OF response] account_getOrCreateRelatedInformer [OF assms]
  have [pres]: "preserves (account alloc (mgId rm) M R) (getRelatedClient K E enqueue rm a r)" for a r
    unfolding getRelatedClient_def Let_def by (auto intro!: pres split: sum.split prod.split)
  have [pres]: "preserves (account alloc (mgId rm) M R) (relatedByRules K E enqueue rm v pn parent m rules)" for v pn m rules
    by (induction rules arbitrary: m) (auto intro!: pres split: sum.split)
  show ?thesis
    unfolding GetRelatedObjects_def Let_def by (auto intro!: pres split: option.split sum.split)
qed

lemma account_ForEach: "(\<And>k v. preserves (account alloc c M R) (f k v)) \<Longrightarrow> preserves (account alloc c M R) (SyncMap_ForEach f m)"
  unfolding SyncMap_ForEach_def by (induction m) (auto intro!: pres)

lemma account_processItem:
  assumes "identity_law alloc K E" "\<And>key. preserves (account alloc c M R) (syncKey key)"
  shows "preserves (account alloc c M R) (processItem E queue syncKey)"
proof -
  have "preserves (\<lambda>w. A \<subseteq> alloc w) (requeue E queue key e)" for A key e
    unfolding requeue_def
    by (auto intro!: pres identityD(3,13,15) [OF assms(1), unfolded growing_def, rule_format] split: option.split)
  then have g: "growing alloc (requeue E queue key e)" for key e by (simp add: growing_def)
  note [pres] = g [THEN account_world] identityD(14,16) [OF assms(1), THEN account_world] assms(2)
  show ?thesis
    unfolding processItem_def by (auto intro!: pres split: option.split)
qed

lemma account_GetObject:
  assumes "identity_law alloc K E"
  shows "preserves (account alloc c M R) (liftFst (GetObject E ri ns n))"
proof (rule account_world)
  show "growing alloc (GetObject E ri ns n)"
    unfolding growing_def GetObject_def by (auto intro!: pres identityD(3) [OF assms])
qed

section \<open>Related informers elsewhere\<close>

text \<open>Making, starting and stopping controllers leaves the related informers of all others alone.\<close>

definition untouched :: "('w, 'a) pstate \<Rightarrow> bool" where
  "untouched f \<longleftrightarrow> (\<forall>s. relatedOf (snd (run_state f s)) = relatedOf s)"

named_theorems untouched_rules

lemma untouched_monad [untouched_rules]:
  "untouched (State_Monad.return x)"
  "untouched f \<Longrightarrow> (\<And>x. untouched (g x)) \<Longrightarrow> untouched (f \<bind> g)"
  "untouched f1 \<Longrightarrow> untouched f2 \<Longrightarrow> untouched (if b then f1 else f2)"
  "(\<And>x. untouched (l x)) \<Longrightarrow> (\<And>y. untouched (r y)) \<Longrightarrow> untouched (case v of Inl x \<Rightarrow> l x | Inr y \<Rightarrow> r y)"
  "untouched n \<Longrightarrow> (\<And>x. untouched (o1 x)) \<Longrightarrow> untouched (case z of None \<Rightarrow> n | Some x \<Rightarrow> o1 x)"
  "(\<And>a b. untouched (k a b)) \<Longrightarrow> untouched (case p of (a, b) \<Rightarrow> k a b)"
  unfolding untouched_def State_Monad.bind_def by (simp_all add: case_prod_beta split: sum.split option.split del: split_paired_All)

lemma untouched_lift [untouched_rules]:
  "untouched (liftFst f)" "untouched (liftFactory g)" "untouched (liftCache h)" "untouched (getRelated c)"
  "untouched (unsubscribeHandlers ri)" "untouched (subscribeHandler K E ev ri hid d)"
  by (auto simp: untouched_def relatedOf_def fun_eq_iff getRelated_def unsubscribeHandlers_def subscribeHandler_def case_prod_beta)

lemma untouched_loops [untouched_rules]:
  "(\<And>ri. untouched (before ri)) \<Longrightarrow> untouched (closeInformers E before ris)"
  "untouched (openInformers K E what rs m)"
  "(\<And>k v. untouched (f k v)) \<Longrightarrow> untouched (SyncMap_ForEach f sm)"
proof -
  show "untouched (closeInformers E before ris)" if "\<And>ri. untouched (before ri)"
    by (induction ris) (auto intro!: untouched_rules that)
  show "untouched (openInformers K E what rs m)"
    by (induction rs arbitrary: m) (auto intro!: untouched_rules)
  show "untouched (SyncMap_ForEach f sm)" if "\<And>k v. untouched (f k v)"
    unfolding SyncMap_ForEach_def by (induction sm) (auto intro!: untouched_rules that)
qed

lemma untouched_control [untouched_rules]: "untouched (closeOnError E ris r)" "untouched (stopInformers E q ris rm)"
  unfolding closeOnError_def stopInformers_def Manager_Stop_def by (intro untouched_rules)+

lemma untouched_hoare: "untouched f \<Longrightarrow> hoare (\<lambda>s. Q (relatedOf s)) f (\<lambda>_ s. Q (relatedOf s))"
  by (simp add: untouched_def hoare_def)

lemma untouchedD: "untouched f \<Longrightarrow> relatedOf (snd (run_state f s)) = relatedOf s"
  unfolding untouched_def by blast

lemma related_closeOnError:
  "hoare (\<lambda>s. Q (relatedOf s) \<and> (case r of Inl _ \<Rightarrow> True | Inr x \<Rightarrow> Q' x (relatedOf s))) (closeOnError E ris r)
     (\<lambda>y s. Q (relatedOf s) \<and> (case y of Inl _ \<Rightarrow> True | Inr x \<Rightarrow> Q' x (relatedOf s)))"
proof (cases r)
  case (Inl e)
  have "hoare (\<lambda>s. Q (relatedOf s)) (closeOnError E ris r) (\<lambda>_ s. Q (relatedOf s))"
    by (rule untouched_hoare) (intro untouched_rules)
  then show ?thesis by (auto simp: Inl closeOnError_def hoare_def case_prod_beta)
qed (simp add: closeOnError_def hoare_return)

text \<open>Only the manager that is made starts afresh, without related informers.\<close>

definition others :: "string \<Rightarrow> (string \<Rightarrow> InformerMap) \<Rightarrow> (string \<Rightarrow> InformerMap) \<Rightarrow> bool" where
  "others c R R' \<longleftrightarrow> (\<forall>c'. c' \<noteq> c \<longrightarrow> R' c' = R c')"

lemma related_NewCustomizeManager:
  fixes R :: "string \<Rightarrow> InformerMap" and t name :: string
  defines "c \<equiv> t @ ''/'' @ name"
  shows "hoare (\<lambda>s. others c R (relatedOf s)) (NewCustomizeManager K E name controller dyn infs kinds t)
     (\<lambda>x s. others c R (relatedOf s) \<and> (case x of Inl _ \<Rightarrow> True | Inr rm \<Rightarrow> mgId rm = c \<and> relatedOf s c = []))"
    (is "hoare ?P _ ?Q")
proof -
  have set: "hoare ?P (setRelated c []) (\<lambda>_ s. others c R (relatedOf s) \<and> relatedOf s c = [])"
    by (auto simp: hoare_def setRelated_def others_def relatedOf_def update_conv')
  have err: "hoare ?P (State_Monad.return (Inl e)) ?Q" for e by (simp add: hoare_return)
  have tail: "hoare ?P (do { cache \<leftarrow> liftFst (newResponseCache E); setRelated c []; State_Monad.return (Inr (m cache)) }) ?Q"
    if "\<And>cache. mgId (m cache) = c" for m
    using that by (intro hoare_bind [OF untouched_hoare] hoare_bind [OF set] untouched_rules hoare_return) simp
  have "hoare ?P (if b then do { r \<leftarrow> liftFactory (Factory_Resource K E ''v1'' ''namespaces''); State_Monad.return (F r) }
      else State_Monad.return y) (\<lambda>_. ?P)" for b F and y :: "err + ResourceInformer option"
    by (rule untouched_hoare) (intro untouched_rules)
  note ns = hoare_bind [OF this]
  show ?thesis
    unfolding NewCustomizeManager_def c_def [symmetric]
    by (intro hoare_bind [OF untouched_hoare] hoare_cases err ns tail untouched_rules) simp_all
qed

section \<open>The ledger\<close>

type_synonym ledger = "(string \<times> ResourceInformer list) list"

definition holds :: "'w \<times> proc \<Rightarrow> string \<times> ResourceInformer list \<Rightarrow> ResourceInformer multiset" where
  "holds s e = mset (map snd (relatedOf s (fst e)) @ snd e)"

definition accounted :: "('w \<Rightarrow> nat set) \<Rightarrow> ResourceInformer multiset \<Rightarrow> ledger \<Rightarrow> 'w \<times> proc \<Rightarrow> bool" where
  "accounted alloc M ledger s \<longleftrightarrow> distinct (map fst ledger) \<and> subscribed alloc (M + sum_list (map (holds s) ledger)) s"

lemma accounted_perm:
  assumes "mset ledger = mset ledger'"
  shows "accounted alloc M ledger s \<longleftrightarrow> accounted alloc M ledger' s"
proof -
  have "mset (map fst ledger) = mset (map fst ledger')" "mset (map (holds s) ledger) = mset (map (holds s) ledger')" using assms by simp_all
  then have "distinct (map fst ledger) = distinct (map fst ledger')" "sum_list (map (holds s) ledger) = sum_list (map (holds s) ledger')"
    by (metis mset_eq_imp_distinct_iff, metis sum_mset_sum_list)
  then show ?thesis by (simp add: accounted_def)
qed

lemma holds_cong: "(\<And>c. c \<in> fst ` set l \<Longrightarrow> relatedOf t c = relatedOf s c) \<Longrightarrow> sum_list (map (holds t) l) = sum_list (map (holds s) l)"
  by (induction l) (auto simp: holds_def)

text \<open>A step that keeps one controller's account keeps the ledger.\<close>

lemma accounted_step:
  assumes "\<And>M R. preserves (account alloc c M R) f" "accounted alloc M ((c, ris) # ledger) s"
  shows "accounted alloc M ((c, ris) # ledger) (snd (run_state f s))"
proof -
  let ?t = "snd (run_state f s)" and ?N = "M + mset ris + sum_list (map (holds s) ledger)"
  have new: "c \<notin> fst ` set ledger" using assms(2) by (simp add: accounted_def)
  have "account alloc c ?N (relatedOf s) s" using assms(2) by (simp add: accounted_def account_def holds_def ac_simps)
  then have t: "account alloc c ?N (relatedOf s) ?t" by (rule preservesD [OF assms(1)])
  have "sum_list (map (holds ?t) ledger) = sum_list (map (holds s) ledger)"
    by (rule holds_cong) (use t new in \<open>auto simp: account_def\<close>)
  then show ?thesis using t assms(2) by (simp add: accounted_def account_def holds_def ac_simps)
qed

lemma accounted_member:
  assumes "\<And>M R. preserves (account alloc c M R) f" "accounted alloc M ledger s" "(c, ris) \<in> set ledger"
  shows "accounted alloc M ledger (snd (run_state f s))"
proof -
  have m: "mset ledger = mset ((c, ris) # remove1 (c, ris) ledger)" using assms(3) by simp
  from assms(2) have "accounted alloc M ((c, ris) # remove1 (c, ris) ledger) s" by (simp only: accounted_perm [OF m])
  from accounted_step [OF assms(1) this] show ?thesis by (simp only: accounted_perm [OF m])
qed

lemma accounted_world:
  assumes "growing alloc f" "accounted alloc M ledger s"
  shows "accounted alloc M ledger (snd (run_state (liftFst f) s))"
proof -
  have "relatedOf (snd (run_state (liftFst f) s)) c = relatedOf s c" for c by (cases s) (simp add: relatedOf_def)
  then have "sum_list (map (holds (snd (run_state (liftFst f) s))) ledger) = sum_list (map (holds s) ledger)" by (intro holds_cong)
  then show ?thesis using assms(2) preservesD [OF subscribed_world [OF assms(1)]] by (simp add: accounted_def)
qed

text \<open>A new controller enters with the informers it opened and no related ones.\<close>

lemma accounted_enter:
  assumes "distinct (map fst ledger)" "c \<notin> fst ` set ledger" "\<And>c'. c' \<noteq> c \<Longrightarrow> relatedOf t c' = relatedOf s c'" "relatedOf t c = []"
    and "subscribed alloc (M + sum_list (map (holds s) ledger) + mset ris) t"
  shows "accounted alloc M ((c, ris) # ledger) t"
proof -
  have "sum_list (map (holds t) ledger) = sum_list (map (holds s) ledger)"
    by (rule holds_cong) (metis assms(2,3))
  then show ?thesis using assms by (simp add: accounted_def holds_def ac_simps)
qed

section \<open>Controllers\<close>

text \<open>The interface of a controller: the kind its identity starts with, its identity, the informers it opened when it was made, what a
  worker does and how it is stopped.\<close>

locale controller =
  fixes kind :: string and idOf :: "'c \<Rightarrow> string" and informersOf :: "'c \<Rightarrow> ResourceInformer list"
    and work :: "'w k8s \<Rightarrow> 'w env \<Rightarrow> 'c \<Rightarrow> ('w, err + bool) pstate"
    and stop :: "'w env \<Rightarrow> 'c \<Rightarrow> ('w, err option) pstate"
  assumes work_account: "identity_law alloc K E \<Longrightarrow> retry_law K \<Longrightarrow> preserves (account alloc (idOf c) M R) (work K E c)"
    and stop_releases: "fresh_law E alloc \<Longrightarrow> growing_env alloc E \<Longrightarrow> mset (map snd related @ informersOf c) \<subseteq># M \<Longrightarrow>
      hoare (\<lambda>s. subscribed alloc M s \<and> relatedOf s (idOf c) = related) (stop E c)
        (\<lambda>x s. x = None \<and> subscribed alloc (M - mset (map snd related @ informersOf c)) s)"
    and stop_keeps: "relatedOf (snd (run_state (stop E c) s)) c' = relatedOf s c'"
begin

definition entry :: "'c \<Rightarrow> string \<times> ResourceInformer list" where
  "entry c = (idOf c, informersOf c)"

lemma work_accounted:
  assumes "identity_law alloc K E" "retry_law K" "accounted alloc M ledger s" "entry c \<in> set ledger"
  shows "accounted alloc M ledger (snd (run_state (work K E c) s))"
  by (rule accounted_member [OF work_account [OF assms(1,2)] assms(3)]) (use assms(4) in \<open>simp add: entry_def\<close>)

lemma stop_accounted:
  assumes "identity_law alloc K E" "accounted alloc M ledger s" "entry c \<in> set ledger" "run_state (stop E c) s = (r, t)"
  shows "r = None \<and> accounted alloc M (remove1 (entry c) ledger) t"
proof -
  let ?l = "remove1 (entry c) ledger" and ?N = "M + sum_list (map (holds s) ledger)"
  have m: "mset ledger = mset (entry c # ?l)" using assms(3) by simp
  have split: "sum_list (map (holds s) ledger) = holds s (entry c) + sum_list (map (holds s) ?l)"
    by (metis m mset_map sum_mset_sum_list list.simps(9) sum_list.Cons)
  have h: "holds s (entry c) = mset (map snd (relatedOf s (idOf c)) @ informersOf c)" by (simp add: holds_def entry_def)
  have sub: "mset (map snd (relatedOf s (idOf c)) @ informersOf c) \<subseteq># ?N" unfolding split h by simp
  have "subscribed alloc ?N s" using assms(2) by (simp add: accounted_def)
  with hoareD [OF stop_releases [OF identityD(1,2) [OF assms(1)] sub] _ assms(4)]
  have r: "r = None" and open': "subscribed alloc (?N - holds s (entry c)) t" by (simp_all add: h)
  have "relatedOf t c' = relatedOf s c'" for c' using stop_keeps [of E c s c'] assms(4) by simp
  then have "sum_list (map (holds t) ?l) = sum_list (map (holds s) ?l)" by (intro holds_cong)
  moreover have "?N - holds s (entry c) = M + sum_list (map (holds s) ?l)" unfolding split by simp
  moreover have "distinct (map fst (entry c # ?l))" using iffD1 [OF accounted_perm [OF m] assms(2)] by (simp add: accounted_def)
  ultimately show ?thesis using r open' by (simp add: accounted_def)
qed

text \<open>The controllers of a kind that run, by name.\<close>

definition keyed :: "(string, 'c) SyncMap \<Rightarrow> bool" where
  "keyed m \<longleftrightarrow> distinct (map fst m) \<and> (\<forall>p \<in> set m. idOf (snd p) = kind @ fst p)"

definition ledgerOf :: "(string, 'c) SyncMap \<Rightarrow> ledger" where
  "ledgerOf m = map (entry \<circ> snd) m"

lemma entry_ledgerOf: "map_of m n = Some c \<Longrightarrow> entry c \<in> set (ledgerOf m)"
  by (force simp: ledgerOf_def dest: map_of_SomeD)

lemma keyed_delete: "keyed m \<Longrightarrow> keyed (AList.delete n m)"
  unfolding keyed_def by (auto simp: distinct_delete) (auto simp: AList.delete_eq)

lemma mset_ledgerOf_delete:
  assumes "keyed m" "map_of m n = Some c"
  shows "mset (ledgerOf m) = add_mset (entry c) (mset (ledgerOf (AList.delete n m)))"
proof -
  have "distinct (map fst m) \<Longrightarrow> map_of m n = Some c \<Longrightarrow> mset m = add_mset (n, c) (mset (AList.delete n m))"
    by (induction m) auto
  with assms show ?thesis by (simp add: ledgerOf_def keyed_def)
qed

lemma keyed_update:
  assumes "keyed m" "map_of m n = None" "idOf c = kind @ n"
  shows "keyed (AList.update n c m)" "mset (ledgerOf (AList.update n c m)) = add_mset (entry c) (mset (ledgerOf m))"
proof -
  have "n \<notin> fst ` set m" using assms(2) by (simp add: map_of_eq_None_iff)
  then have u: "AList.update n c m = m @ [(n, c)]" by (induction m) auto
  show "keyed (AList.update n c m)" using assms \<open>n \<notin> fst ` set m\<close> by (auto simp: keyed_def u)
  show "mset (ledgerOf (AList.update n c m)) = add_mset (entry c) (mset (ledgerOf m))" by (simp add: u ledgerOf_def)
qed

lemma keyed_fresh:
  assumes "keyed m" "map_of m n = None"
  shows "kind @ n \<notin> fst ` set (ledgerOf m)"
  using assms by (fastforce simp: keyed_def ledgerOf_def entry_def map_of_eq_None_iff image_iff)

lemma stop_named:
  assumes "identity_law alloc K E" "keyed m" "accounted alloc M (ledgerOf m @ rest) s" "map_of m n = Some c" "run_state (stop E c) s = (r, t)"
  shows "r = None \<and> accounted alloc M (ledgerOf (AList.delete n m) @ rest) t"
proof -
  have "entry c \<in> set (ledgerOf m @ rest)" using entry_ledgerOf [OF assms(4)] by simp
  from stop_accounted [OF assms(1,3) this assms(5)]
  have "r = None" and a: "accounted alloc M (remove1 (entry c) (ledgerOf m @ rest)) t" by simp_all
  moreover have "mset (remove1 (entry c) (ledgerOf m @ rest)) = mset (ledgerOf (AList.delete n m) @ rest)"
    using mset_ledgerOf_delete [OF assms(2,4)] by simp
  ultimately show ?thesis using accounted_perm by blast
qed

end

section \<open>Reconcilers\<close>

lemma leak_none:
  "(case x of Inl e \<Rightarrow> accounted alloc M ledger t | Inr c \<Rightarrow> Q c) \<Longrightarrow>
   (case x of Inl e \<Rightarrow> \<exists>L. size L \<le> (0::nat) \<and> accounted alloc (M + L) ledger t | Inr c \<Rightarrow> Q c)"
  by (cases x) simp_all

lemma hoare_record: "hoare P c (\<lambda>x. Q (fst x, f (snd x))) \<Longrightarrow> hoare P (do { (r, m) \<leftarrow> c; State_Monad.return (r, f m) }) Q"
  by (simp add: hoare_def State_Monad.bind_def case_prod_beta)

text \<open>What a reconciler passes on to the controllers it makes.\<close>

type_synonym makeArgs = "ResourceMap \<times> Clientset \<times> nat \<times> ApplyOptions"

text \<open>A reconciler keeps one controller per object: it stops the one of that name, makes another and starts it.  A controller that could not
  be made may leave up to \<open>leaks\<close> informers open.\<close>

locale reconciler = controller kind idOf informersOf work stop
  for kind :: string and idOf :: "'c \<Rightarrow> string" and informersOf :: "'c \<Rightarrow> ResourceInformer list"
    and work :: "'w k8s \<Rightarrow> 'w env \<Rightarrow> 'c \<Rightarrow> ('w, err + bool) pstate" and stop :: "'w env \<Rightarrow> 'c \<Rightarrow> ('w, err option) pstate" +
  fixes nameOf :: "'o \<Rightarrow> string" and listed :: "'w k8s \<Rightarrow> 'o \<Rightarrow> bool"
    and make :: "'w k8s \<Rightarrow> 'w env \<Rightarrow> 'a \<Rightarrow> 'o \<Rightarrow> ('w, err + 'c) pstate"
    and start :: "'w k8s \<Rightarrow> 'w env \<Rightarrow> 'c \<Rightarrow> ('w, 'c) pstate" and leaks :: nat
  assumes make_enters: "identity_law alloc K E \<Longrightarrow> listed K obj \<Longrightarrow> accounted alloc M ledger s \<Longrightarrow> kind @ nameOf obj \<notin> fst ` set ledger \<Longrightarrow>
      run_state (make K E a obj) s = (x, t) \<Longrightarrow>
      case x of Inl _ \<Rightarrow> \<exists>L. size L \<le> leaks \<and> accounted alloc (M + L) ledger t
      | Inr c \<Rightarrow> idOf c = kind @ nameOf obj \<and> accounted alloc M ((idOf c, informersOf c) # ledger) t"
    and start_keeps: "identity_law alloc K E \<Longrightarrow> accounted alloc M ledger s \<Longrightarrow> (idOf c, informersOf c) \<in> set ledger \<Longrightarrow>
      run_state (start K E c) s = (c', t) \<Longrightarrow> idOf c' = idOf c \<and> informersOf c' = informersOf c \<and> accounted alloc M ledger t"
begin

definition running :: "('w \<Rightarrow> nat set) \<Rightarrow> ResourceInformer multiset \<Rightarrow> ledger \<Rightarrow> (string, 'c) SyncMap \<Rightarrow> 'w \<times> proc \<Rightarrow> bool" where
  "running alloc M rest m s \<longleftrightarrow> keyed m \<and> accounted alloc M (ledgerOf m @ rest) s"

definition stopNamed :: "'w env \<Rightarrow> (string, 'c) SyncMap \<Rightarrow> string \<Rightarrow> ('w, err option \<times> (string, 'c) SyncMap) pstate" where
  "stopNamed E m name =
     (case SyncMap_LoadAndDelete m name of
        (None, _) \<Rightarrow> State_Monad.return (None, m)
      | (Some c, m') \<Rightarrow> do { r \<leftarrow> stop E c; State_Monad.return (r, m') })"

definition startNamed :: "'w k8s \<Rightarrow> 'w env \<Rightarrow> (string, 'c) SyncMap \<Rightarrow> string \<Rightarrow> 'c \<Rightarrow> ('w, err option \<times> (string, 'c) SyncMap) pstate" where
  "startNamed K E m name c = do { c \<leftarrow> start K E c; State_Monad.return (None, SyncMap_Store m name c) }"

definition replace :: "'w k8s \<Rightarrow> 'w env \<Rightarrow> 'a \<Rightarrow> (string, 'c) SyncMap \<Rightarrow> 'o \<Rightarrow> ('w, err option \<times> (string, 'c) SyncMap) pstate" where
  "replace K E a m obj =
     do { (r, m) \<leftarrow> stopNamed E m (nameOf obj);
          case r of
            Some e \<Rightarrow> State_Monad.return (Some e, m)
          | None \<Rightarrow>
              do { n \<leftarrow> make K E a obj;
                   case n of
                     Inl e \<Rightarrow> State_Monad.return (Some e, m)
                   | Inr c \<Rightarrow> startNamed K E m (nameOf obj) c } }"

lemma running_world: "growing alloc f \<Longrightarrow> hoare (running alloc M rest m) (liftFst f) (\<lambda>_. running alloc M rest m)"
  using accounted_world unfolding hoare_def running_def by blast

lemma hoare_stopNamed:
  assumes "identity_law alloc K E"
  shows "hoare (running alloc M rest m) (stopNamed E m name)
     (\<lambda>x s. fst x = None \<and> running alloc M rest (snd x) s \<and> map_of (snd x) name = None)"
proof (cases "map_of m name")
  case None
  then show ?thesis by (simp add: stopNamed_def SyncMap_LoadAndDelete_def hoare_return)
next
  case (Some c)
  have stop: "hoare (running alloc M rest m) (stop E c) (\<lambda>r s. r = None \<and> running alloc M rest (AList.delete name m) s)"
    using stop_named [OF assms _ _ Some] keyed_delete unfolding running_def by (intro hoareI) blast
  have "hoare (running alloc M rest m) (do { r \<leftarrow> stop E c; State_Monad.return (r, AList.delete name m) })
      (\<lambda>x s. fst x = None \<and> running alloc M rest (snd x) s \<and> map_of (snd x) name = None)"
    by (intro hoare_bind [OF stop] hoare_return) (simp add: delete_conv')
  then show ?thesis by (simp add: stopNamed_def SyncMap_LoadAndDelete_def Some)
qed

lemma hoare_startNamed:
  assumes "identity_law alloc K E" "map_of m n = None" "idOf c = kind @ n"
  shows "hoare (\<lambda>s. keyed m \<and> accounted alloc M (entry c # ledgerOf m @ rest) s) (startNamed K E m n c) (\<lambda>x. running alloc M rest (snd x))"
proof -
  have start: "hoare (\<lambda>s. keyed m \<and> accounted alloc M (entry c # ledgerOf m @ rest) s) (start K E c)
      (\<lambda>c' s. entry c' = entry c \<and> keyed m \<and> accounted alloc M (entry c # ledgerOf m @ rest) s)"
  proof (rule hoareI)
    fix s c' t
    assume a: "keyed m \<and> accounted alloc M (entry c # ledgerOf m @ rest) s" "run_state (start K E c) s = (c', t)"
    show "entry c' = entry c \<and> keyed m \<and> accounted alloc M (entry c # ledgerOf m @ rest) t"
      using start_keeps [OF assms(1) conjunct2 [OF a(1)] _ a(2)] a(1) by (simp add: entry_def)
  qed
  have "running alloc M rest (SyncMap_Store m n c') s"
    if "entry c' = entry c" "keyed m" "accounted alloc M (entry c # ledgerOf m @ rest) s" for c' s
  proof -
    have "idOf c' = kind @ n" using that(1) assms(3) by (simp add: entry_def)
    note u = keyed_update [OF that(2) assms(2) this]
    have "mset (ledgerOf (AList.update n c' m) @ rest) = mset (entry c # ledgerOf m @ rest)" by (simp add: u(2) that(1))
    with that(3) have "accounted alloc M (ledgerOf (AList.update n c' m) @ rest) s" using accounted_perm by blast
    with u(1) show ?thesis by (simp add: running_def SyncMap_Store_def)
  qed
  then show ?thesis unfolding startNamed_def by (intro hoare_bind [OF start] hoare_return) simp
qed

text \<open>Replacing a controller closes what the old one held, opens what the new one holds, and leaves every other controller alone.\<close>

lemma hoare_replace:
  assumes "identity_law alloc K E" "listed K obj" "\<And>n. kind @ n \<notin> fst ` set rest"
  shows "hoare (running alloc M rest m) (replace K E a m obj) (\<lambda>x s. \<exists>L. size L \<le> leaks \<and> running alloc (M + L) rest (snd x) s)"
    (is "hoare _ _ ?Q")
proof -
  let ?absent = "\<lambda>m s. running alloc M rest m s \<and> map_of m (nameOf obj) = None"
  let ?made = "\<lambda>m x s. case x of Inl _ \<Rightarrow> \<exists>L. size L \<le> leaks \<and> running alloc (M + L) rest m s
    | Inr c \<Rightarrow> idOf c = kind @ nameOf obj \<and> map_of m (nameOf obj) = None \<and> keyed m \<and> accounted alloc M (entry c # ledgerOf m @ rest) s"
  have exact: "running alloc M rest m s \<Longrightarrow> \<exists>L. size L \<le> leaks \<and> running alloc (M + L) rest m s" for m s
    by (rule exI [of _ "{#}"]) simp
  have make: "hoare (?absent m) (make K E a obj) (?made m)" for m
  proof (rule hoareI)
    fix s x t
    assume a: "?absent m s" "run_state (make K E a obj) s = (x, t)"
    have "kind @ nameOf obj \<notin> fst ` set (ledgerOf m @ rest)"
      using keyed_fresh [of m "nameOf obj"] assms(3) [of "nameOf obj"] a(1) by (simp only: running_def set_append image_Un Un_iff simp_thms)
    from make_enters [OF assms(1,2) _ this a(2), of M] a(1) show "?made m x t"
      unfolding running_def entry_def by (cases x) auto
  qed
  have start: "hoare (?made m x) (case x of Inl e \<Rightarrow> State_Monad.return (Some e, m) | Inr c \<Rightarrow> startNamed K E m (nameOf obj) c) ?Q" for m x
  proof (cases x)
    case (Inr c)
    show ?thesis
    proof (cases "map_of m (nameOf obj) = None \<and> idOf c = kind @ nameOf obj")
      case True
      then show ?thesis using hoare_weaken [OF hoare_startNamed [OF assms(1)] exact] Inr by simp
    qed (auto simp: hoare_def Inr)
  qed (auto intro!: hoare_return)
  have stopped: "hoare (\<lambda>s. fst x = None \<and> ?absent (snd x) s) (case x of (r, m) \<Rightarrow> case r of Some e \<Rightarrow> State_Monad.return (Some e, m)
      | None \<Rightarrow> F m) ?Q" if "\<And>m. hoare (?absent m) (F m) ?Q" for x F
    using that by (cases x; cases "fst x") (auto simp: hoare_def)
  show ?thesis
    unfolding replace_def
    by (intro hoare_bind [OF hoare_stopNamed [OF assms(1)]] stopped hoare_bind [OF make start])
qed

text \<open>The object a reconciler reads.\<close>

lemma hoare_read:
  assumes "growing alloc get" "\<And>w obj w'. run_state get w = (Inr obj, w') \<Longrightarrow> listed K obj"
    and "\<And>e. hoare (running alloc M rest m) (F e) Q" "\<And>obj. listed K obj \<Longrightarrow> hoare (running alloc M rest m) (G obj) Q"
  shows "hoare (running alloc M rest m) (do { r \<leftarrow> liftFst get; case r of Inl e \<Rightarrow> F e | Inr obj \<Rightarrow> G obj }) Q"
proof (rule hoare_bind)
  show "hoare (running alloc M rest m) (liftFst get) (\<lambda>r s. (case r of Inl _ \<Rightarrow> True | Inr obj \<Rightarrow> listed K obj) \<and> running alloc M rest m s)"
  proof (rule hoareI)
    fix s r t
    assume a: "running alloc M rest m s" "run_state (liftFst get) s = (r, t)"
    have "running alloc M rest m t" using hoareD [OF running_world [OF assms(1)] a] .
    moreover have "run_state get (fst s) = (r, fst t)" using a(2) by (cases s) (auto simp: prod_eq_iff)
    ultimately show "(case r of Inl _ \<Rightarrow> True | Inr obj \<Rightarrow> listed K obj) \<and> running alloc M rest m t"
      using assms(2) by (auto split: sum.split)
  qed
  show "hoare (\<lambda>s. (case r of Inl _ \<Rightarrow> True | Inr obj \<Rightarrow> listed K obj) \<and> running alloc M rest m s)
      (case r of Inl e \<Rightarrow> F e | Inr obj \<Rightarrow> G obj) Q" for r
    using assms(3,4) by (cases r) (auto simp: hoare_def)
qed

end

end
