(* ===== verification/Composite_Ledger.thy ===== *)
theory Composite_Ledger
  imports Ledger Composite_Control
begin

text \<open>
  Composite controllers keep the ledger: the interface of theory \<open>Ledger\<close> is proved of the workers, the making, starting and stopping of
  composite controllers and of the reconciler that does so as their objects change.
\<close>

section \<open>The work of a controller\<close>

text \<open>Every write a sync may make keeps the identities.\<close>

lemma identity_syncAllows:
  assumes "identity_law alloc K E"
  shows "syncAllows (\<lambda>w. A \<subseteq> alloc w) K E pc"
proof -
  note g = identityD(4-12) [OF assms, unfolded growing_def, rule_format]
  show ?thesis
    unfolding syncAllows_def storeStatus_def
    by (intro conjI allI impI ManageChildren_keeps g preserves_cases)
qed

lemma identity_enqueueParentObject:
  assumes "identity_law alloc K E"
  shows "growing alloc (enqueueParentObject K E pc obj)"
  unfolding growing_def enqueueParentObject_def
  by (auto intro!: pres identityD(3) [OF assms] split: sum.split)

lemma account_syncRevisions:
  assumes "identity_law alloc K E" "retry_law K"
  shows "preserves (account alloc (mgId (ptCustomize pc)) M R) (syncRevisions K E (enqueueParentObject K E pc) pc parent observed related)"
proof -
  note q = identityD(3) [OF assms(1)] and allows = identity_syncAllows [OF assms(1), where pc = pc]
  have g: "growing alloc (claimRevisions K E pc parent)" "growing alloc (manageRevisions K r parent obs des)"
      "growing alloc (callHook K E pc obj observed rel)" for obj rel r obs des
    unfolding growing_def
    by (intro allI quiet_claimRevisions quiet_manageRevisions [OF allows] quiet_callHook q allows assms(2))+
  note [pres] = g [THEN account_world] account_GetRelatedObjects [OF assms(1) identity_enqueueParentObject [OF assms(1)]]
  have [pres]: "preserves (account alloc (mgId (ptCustomize pc)) M R) (syncRevision K E (enqueueParentObject K E pc) pc parent observed pr)" for pr
    unfolding syncRevision_def by (auto intro!: pres split: sum.split)
  have [pres]: "preserves (account alloc (mgId (ptCustomize pc)) M R) (mapState (syncRevision K E (enqueueParentObject K E pc) pc parent observed) prs)" for prs
    by (induction prs) (auto intro!: pres)
  show ?thesis
    unfolding syncRevisions_def rollRevisions_def Let_def by (auto intro!: pres split: option.split sum.split)
qed

lemma account_applyResult:
  assumes "identity_law alloc K E" "retry_law K"
  shows "preserves (account alloc c M R) (applyResult K E pc parent observed result)"
proof -
  note q = identityD(3) [OF assms(1)] and allows = identity_syncAllows [OF assms(1), where pc = pc]
  have g: "growing alloc (enqueueParentObjectAfter E pc ev d)" "growing alloc (RemoveFinalizer K rc obj (fmName (ptFinalizer pc)))"
      "growing alloc (finishSync K pc obj status manageErr)" for ev obj d rc status manageErr
    unfolding growing_def
    by (intro allI quiet_enqueue(2) [OF q] quiet_RemoveFinalizer(1) [OF q assms(2) allows] quiet_finishSync [OF q assms(2) allows])+
  have m: "keepsW (\<lambda>w. A \<subseteq> alloc w) (manageParentChildren K pc p obs des)" for A p obs des
    unfolding manageParentChildren_def
    by (intro preserves_cases pres ManageChildren_keeps identityD(4-8) [OF assms(1), unfolded growing_def, rule_format])
  note [pres] = g [THEN account_world] account_cache [OF m]
  show ?thesis unfolding applyResult_def Let_def by (auto intro!: pres split: sum.split)
qed

lemma account_syncParentObject:
  assumes "identity_law alloc K E" "retry_law K"
  shows "preserves (account alloc (mgId (ptCustomize pc)) M R) (syncParentObject K E pc parent)"
proof -
  note q = identityD(3) [OF assms(1)] and allows = identity_syncAllows [OF assms(1), where pc = pc]
  have "preserves (\<lambda>w. A \<subseteq> alloc w) (SyncObject K (ptFinalizer pc) rc obj)" for A rc obj
    unfolding SyncObject_def by (auto intro!: pres quiet_RemoveFinalizer [OF q assms(2) allows])
  then have g: "growing alloc (CtxErr K)" "growing alloc (SyncObject K (ptFinalizer pc) rc obj)" "growing alloc (claimChildren K E pc obj)" for rc obj
    unfolding growing_def by (intro allI quiet_pres(1) [OF q], simp, intro allI quiet_claimChildren q allows assms(2))
  note [pres] = g [THEN account_world] account_GetRelatedObjects [OF assms(1) identity_enqueueParentObject [OF assms(1)]]
    account_syncRevisions [OF assms(1,2)] account_applyResult [OF assms]
  show ?thesis unfolding syncParentObject_def by (auto intro!: pres split: option.split sum.split)
qed

text \<open>A work item leaves the account of its controller in order, whatever it ends in.\<close>

lemma account_processNextWorkItem:
  assumes "identity_law alloc K E" "retry_law K"
  shows "preserves (account alloc (mgId (ptCustomize pc)) M R) (processNextWorkItem K E pc)"
proof -
  note [pres] = account_GetObject [OF assms(1)] account_syncParentObject [OF assms]
  have "preserves (account alloc (mgId (ptCustomize pc)) M R) (sync K E pc key)" for key
    unfolding sync_def by (auto intro!: pres split: sum.split)
  then show ?thesis unfolding processNextWorkItem_def by (rule account_processItem [OF assms(1)])
qed

lemma relatedInformers_relatedOf: "relatedInformers rm s = relatedOf s (mgId rm)"
  by (simp add: relatedInformers_def relatedOf_def)

section \<open>The life of a controller\<close>

interpretation composite: controller "''CompositeController/''" "\<lambda>pc. mgId (ptCustomize pc)" controllerInformers processNextWorkItem Stop
proof
  show "preserves (account alloc (mgId (ptCustomize pc)) M R) (processNextWorkItem K E pc)"
    if "identity_law alloc K E" "retry_law K" for alloc and K :: "'a k8s" and E pc M R
    using that by (rule account_processNextWorkItem)
  show "hoare (\<lambda>s. subscribed alloc M s \<and> relatedOf s (mgId (ptCustomize pc)) = related) (Stop E pc)
      (\<lambda>x s. x = None \<and> subscribed alloc (M - mset (map snd related @ controllerInformers pc)) s)"
    if "fresh_law E alloc" "growing_env alloc E" "mset (map snd related @ controllerInformers pc) \<subseteq># M" for E :: "'a env" and alloc related pc M
    using hoare_Stop [OF that] by (simp add: relatedInformers_relatedOf)
  have "untouched (Stop E pc)" for E :: "'a env" and pc unfolding Stop_def by (intro untouched_rules)
  then show "relatedOf (snd (run_state (Stop E pc) s)) c = relatedOf s c" for E :: "'a env" and pc s c by (simp only: untouchedD)
qed

text \<open>A composite controller enters the ledger under its own name, and the others keep their related informers.\<close>

lemma related_newParentController:
  fixes cc :: CompositeController
  defines "c \<equiv> ''CompositeController/'' @ ccName cc"
  shows "hoare (\<lambda>s. others c R (relatedOf s)) (newParentController K E resources dyn cc n opts)
     (\<lambda>x s. others c R (relatedOf s) \<and> (case x of Inl _ \<Rightarrow> True | Inr pc \<Rightarrow> mgId (ptCustomize pc) = c \<and> relatedOf s c = []))"
    (is "hoare ?P _ ?Q")
proof -
  have c: "''CompositeController'' @ ''/'' @ ccName cc = c" by (simp add: c_def)
  note manager = related_NewCustomizeManager [where t = "''CompositeController''" and name = "ccName cc", unfolded c]
  have err: "hoare ?P (State_Monad.return (Inl e)) ?Q" for e by (simp add: hoare_return)
  have last: "hoare ?P (do { m \<leftarrow> NewCustomizeManager K E (ccName cc) ctl d infs kinds ''CompositeController'';
      State_Monad.return (case m of Inl e \<Rightarrow> Inl e | Inr x \<Rightarrow> Inr (f x)) }) ?Q" if "\<And>x. ptCustomize (f x) = x" for ctl d infs kinds f
    using that by (intro hoare_bind [OF manager] hoare_return) (auto split: sum.splits)
  have finish: "hoare ?P (finishController K E dyn cc n opts client strategy pinf m) ?Q" for client strategy pinf m
    unfolding finishController_def Let_def
    by (intro hoare_bind [OF untouched_hoare] hoare_cases err last untouched_rules) simp_all
  have close: "hoare (?Q r) (closeOnError E ris r) ?Q" for ris r
    by (rule related_closeOnError)
  show ?thesis
    unfolding newParentController_def Let_def
    by (intro hoare_bind [OF untouched_hoare] hoare_bind [OF _ close] hoare_cases err finish untouched_rules)
qed

definition listedOnce :: "'w k8s \<Rightarrow> CompositeController \<Rightarrow> bool" where
  "listedOnce K cc \<longleftrightarrow> uniqueResources K (map (\<lambda>c. (rrAPIVersion c, rrResource c)) (ccsChildResources (ccSpec cc)))"

lemma accounted_newParentController:
  assumes "identity_law alloc K E" "listedOnce K cc" "accounted alloc M ledger s" "''CompositeController/'' @ ccName cc \<notin> fst ` set ledger"
    and "run_state (newParentController K E resources dyn cc n opts) s = (x, t)"
  shows "case x of Inl _ \<Rightarrow> accounted alloc M ledger t
    | Inr pc \<Rightarrow> mgId (ptCustomize pc) = ''CompositeController/'' @ ccName cc \<and> accounted alloc M (composite.entry pc # ledger) t"
proof -
  let ?c = "''CompositeController/'' @ ccName cc" and ?N = "M + sum_list (map (holds s) ledger)"
  have a: "distinct (map fst ledger)" "subscribed alloc ?N s" using assms(3) by (simp_all add: accounted_def)
  have "others ?c (relatedOf s) (relatedOf s)" by (simp add: others_def)
  note rel = hoareD [OF related_newParentController, of _ _ s, OF this assms(5)]
  have "\<forall>r \<in> set (ccsChildResources (ccSpec cc)). \<exists>gv. ParseGroupVersion K (rrAPIVersion r) = Inr gv"
    "distinct (map (\<lambda>c. resourceOf K (rrAPIVersion c) (rrResource c)) (ccsChildResources (ccSpec cc)))"
    using assms(2) by (auto simp: listedOnce_def uniqueResources_def comp_def)
  note sub = hoareD [OF hoare_newParentController [OF identityD(1,2) [OF assms(1)] this] a(2) assms(5)]
  have o: "c' \<noteq> ?c \<Longrightarrow> relatedOf t c' = relatedOf s c'" for c' using rel by (auto simp: others_def)
  show ?thesis
  proof (cases x)
    case (Inl e)
    have "sum_list (map (holds t) ledger) = sum_list (map (holds s) ledger)"
      by (rule holds_cong) (metis assms(4) o)
    then show ?thesis using a(1) sub Inl by (simp add: accounted_def)
  next
    case (Inr pc)
    then show ?thesis
      using accounted_enter [OF a(1) assms(4) o] rel sub by (simp add: composite.entry_def)
  qed
qed

text \<open>Handlers only read caches and add to the queue.\<close>

lemma identity_handlers:
  assumes "identity_law alloc K E"
  shows "growing alloc (parentHandlers K E pc ev)" "growing alloc (childHandlers K E pc ev)"
proof -
  note q = identityD(3) [OF assms]
  have [pres]: "preserves (\<lambda>w. A \<subseteq> alloc w) (notifyParent K E pc ns r)" for A ns r
    unfolding notifyParent_def resolveControllerRef_def GetObject_def by (auto intro!: pres q split: option.split)
  have [pres]: "preserves (\<lambda>w. A \<subseteq> alloc w) (childDeleted K E pc child)" for A child
    unfolding childDeleted_def by (auto intro!: pres split: option.split)
  have [pres]: "preserves (\<lambda>w. A \<subseteq> alloc w) (onChildDelete K E pc obj)" for A obj
    by (cases "(K, E, pc, obj)" rule: onChildDelete.cases) (auto intro!: pres)
  have [pres]: "preserves (\<lambda>w. A \<subseteq> alloc w) (onChildAdd K E pc obj)" for A obj
    unfolding onChildAdd_def findPotentialParents_def by (auto intro!: pres q split: option.split)
  show "growing alloc (parentHandlers K E pc ev)"
    unfolding growing_def by (cases ev) (auto simp: updateParentObject_def intro!: pres q)
  show "growing alloc (childHandlers K E pc ev)"
    unfolding growing_def by (cases ev) (auto simp: onChildUpdate_def intro!: pres q)
qed

lemma accounted_Start:
  assumes "identity_law alloc K E" "accounted alloc M ledger s" "composite.entry pc \<in> set ledger" "run_state (Start K E pc) s = (pc', t)"
  shows "composite.entry pc' = composite.entry pc \<and> accounted alloc M ledger t"
proof -
  note [pres] = account_ForEach account_handler [OF assms(1) identity_handlers(1) [OF assms(1)]] account_handler [OF assms(1) identity_handlers(2) [OF assms(1)]]
  have p: "preserves (account alloc (mgId (ptCustomize pc)) M R) (Start K E pc)" for M R
    unfolding Start_def Let_def by (intro pres)
  have "pc' = pc\<lparr>ptCustomize := Manager_Start (ptCustomize pc)\<rparr>" using assms(4) by (auto simp: Start_def Let_def case_prod_beta)
  moreover have "accounted alloc M ledger t"
    using accounted_member [OF p assms(2), of "controllerInformers pc"] assms(3,4) by (simp add: composite.entry_def)
  ultimately show ?thesis by (simp add: composite.entry_def controllerInformers_def managerInformers_def Manager_Start_def)
qed

definition makeComposite :: "'w k8s \<Rightarrow> 'w env \<Rightarrow> makeArgs \<Rightarrow> CompositeController \<Rightarrow> ('w, err + parentController) pstate" where
  "makeComposite K E a cc = (case a of (resources, dyn, n, opts) \<Rightarrow> newParentController K E resources dyn cc n opts)"

interpretation composite: reconciler "''CompositeController/''" "\<lambda>pc. mgId (ptCustomize pc)" controllerInformers processNextWorkItem Stop
  ccName listedOnce makeComposite Start 0
proof
  fix alloc K E M ledger s x t a
  fix cc :: CompositeController
  assume a: "identity_law alloc K E" "listedOnce K cc" "accounted alloc M ledger s" "''CompositeController/'' @ ccName cc \<notin> fst ` set ledger"
    "run_state (makeComposite K E a cc) s = (x, t)"
  obtain r d n o' where run: "run_state (newParentController K E r d cc n o') s = (x, t)"
    using a(5) by (auto simp: makeComposite_def split: prod.splits)
  show "case x of Inl _ \<Rightarrow> \<exists>L. size L \<le> 0 \<and> accounted alloc (M + L) ledger t
    | Inr pc \<Rightarrow> mgId (ptCustomize pc) = ''CompositeController/'' @ ccName cc \<and> accounted alloc M ((mgId (ptCustomize pc), controllerInformers pc) # ledger) t"
    using accounted_newParentController [OF a(1-4) run] unfolding composite.entry_def by (rule leak_none)
next
  fix alloc K E M ledger s pc pc' t
  assume a: "identity_law alloc K E" "accounted alloc M ledger s" "(mgId (ptCustomize pc), controllerInformers pc) \<in> set ledger"
    "run_state (Start K E pc) s = (pc', t)"
  show "mgId (ptCustomize pc') = mgId (ptCustomize pc) \<and> controllerInformers pc' = controllerInformers pc \<and> accounted alloc M ledger t"
    using accounted_Start [OF a(1,2) _ a(4)] a(3) by (simp add: composite.entry_def)
qed

text \<open>The reconciler of composite controllers works on the map of those that run.\<close>

definition compositeArgs :: "Metacontroller \<Rightarrow> makeArgs" where
  "compositeArgs mc = (mcResources mc, mcDynClient mc, mcNumWorkers mc, mcSsaOptions mc)"

lemma stopController_named:
  "stopController E mc name =
     do { (r, m) \<leftarrow> composite.stopNamed E (mcParentControllers mc) name; State_Monad.return (r, mc\<lparr>mcParentControllers := m\<rparr>) }"
  by (rule state.expand) (auto simp: stopController_def composite.stopNamed_def SyncMap_LoadAndDelete_def case_prod_beta split: option.split)

lemma reconcileCompositeController_replace:
  "reconcileCompositeController K E mc cc =
     do { ce \<leftarrow> liftFst (CtxErr K);
          case ce of
            Some e \<Rightarrow> State_Monad.return (Some e, mc)
          | None \<Rightarrow>
              if (case SyncMap_Load (mcParentControllers mc) (ccName cc) of None \<Rightarrow> False | Some pc \<Rightarrow> ccSpec cc = ccSpec (ptCC pc))
              then State_Monad.return (None, mc)
              else do { (r, m) \<leftarrow> composite.replace K E (compositeArgs mc) (mcParentControllers mc) cc;
                        State_Monad.return (r, mc\<lparr>mcParentControllers := m\<rparr>) } }"
proof -
  have "run_state (do { (r, mc) \<leftarrow> stopController E mc (ccName cc);
                     case r of
                       Some e \<Rightarrow> State_Monad.return (Some e, mc)
                     | None \<Rightarrow>
                         do { n \<leftarrow> newParentController K E (mcResources mc) (mcDynClient mc) cc (mcNumWorkers mc) (mcSsaOptions mc);
                              case n of
                                Inl e \<Rightarrow> State_Monad.return (Some e, mc)
                              | Inr pc \<Rightarrow>
                                  do { pc \<leftarrow> Start K E pc;
                                       State_Monad.return (None, mc\<lparr>mcParentControllers := SyncMap_Store (mcParentControllers mc) (ccName cc) pc\<rparr>) } } }) s =
     run_state (do { (r, m) \<leftarrow> composite.replace K E (compositeArgs mc) (mcParentControllers mc) cc;
                        State_Monad.return (r, mc\<lparr>mcParentControllers := m\<rparr>) }) s" for s
    unfolding stopController_named composite.replace_def composite.startNamed_def makeComposite_def compositeArgs_def
    by (simp add: case_prod_beta split: option.split sum.split)
  then show ?thesis
    unfolding reconcileCompositeController_def
    by (intro state.expand ext) (simp add: case_prod_beta split: option.split)
qed

text \<open>The state of the composite controllers beside the entries \<open>rest\<close> of others.\<close>

abbreviation composites :: "('w \<Rightarrow> nat set) \<Rightarrow> ResourceInformer multiset \<Rightarrow> ledger \<Rightarrow> Metacontroller \<Rightarrow> 'w \<times> proc \<Rightarrow> bool" where
  "composites alloc M rest mc \<equiv> composite.running alloc M rest (mcParentControllers mc)"

lemma hoare_stopController:
  assumes "identity_law alloc K E"
  shows "hoare (composites alloc M rest mc) (stopController E mc name) (\<lambda>x s. fst x = None \<and> composites alloc M rest (snd x) s)"
  unfolding stopController_named
  by (rule hoare_record, rule hoare_weaken [OF composite.hoare_stopNamed [OF assms]]) simp

lemma hoare_reconcileCompositeController:
  assumes "identity_law alloc K E" "listedOnce K cc" "\<And>n. ''CompositeController/'' @ n \<notin> fst ` set rest"
  shows "hoare (composites alloc M rest mc) (reconcileCompositeController K E mc cc) (\<lambda>x. composites alloc M rest (snd x))"
proof -
  have ctx: "growing alloc (CtxErr K)" using quiet_pres(1) [OF identityD(3) [OF assms(1)]] by (simp add: growing_def)
  have replace: "hoare (composites alloc M rest mc)
      (do { (r, m) \<leftarrow> composite.replace K E a (mcParentControllers mc) cc; State_Monad.return (r, mc\<lparr>mcParentControllers := m\<rparr>) })
      (\<lambda>x. composites alloc M rest (snd x))" for a
    by (rule hoare_record, rule hoare_weaken [OF composite.hoare_replace [OF assms]]) simp
  show ?thesis
    unfolding reconcileCompositeController_replace
    by (intro hoare_bind [OF composite.running_world [OF ctx]] hoare_cases hoare_if replace) (simp_all add: hoare_return)
qed

lemma hoare_Reconcile:
  assumes "identity_law alloc K E" "\<And>w cc w'. run_state (GetCompositeController E name) w = (Inr cc, w') \<Longrightarrow> listedOnce K cc"
    and "\<And>n. ''CompositeController/'' @ n \<notin> fst ` set rest"
  shows "hoare (composites alloc M rest mc) (Reconcile K E mc name) (\<lambda>x. composites alloc M rest (snd x))"
proof -
  have crd: "hoare (composites alloc M rest mc) (liftFst (GetCRD E n)) (\<lambda>_. composites alloc M rest mc)" for n
    by (rule composite.running_world [OF identityD(18) [OF assms(1)]])
  have ret: "hoare (composites alloc M rest mc) (State_Monad.return (e, mc)) (\<lambda>x. composites alloc M rest (snd x))" for e
    by (simp add: hoare_return)
  have stop: "hoare (composites alloc M rest mc) (stopController E mc name) (\<lambda>x. composites alloc M rest (snd x))"
    by (rule hoare_weaken [OF hoare_stopController [OF assms(1)]]) simp
  show ?thesis
    unfolding Reconcile_def
    by (rule composite.hoare_read [OF identityD(17) [OF assms(1)] assms(2)])
      (intro hoare_bind [OF crd] hoare_cases hoare_if ret stop hoare_reconcileCompositeController [OF assms(1) _ assms(3)] | assumption)+
qed

end
