(* ===== verification/Decorator_Ledger.thy ===== *)
theory Decorator_Ledger
  imports Ledger Decorator_Control
begin

text \<open>
  Decorator controllers keep the ledger, as composite controllers do, except that one that could not be made may leave the
  namespace informer of its customize manager open.
\<close>

section \<open>The work of a controller\<close>

lemma identity_decoratorAllows:
  assumes "identity_law alloc K E"
  shows "decoratorAllows (\<lambda>w. A \<subseteq> alloc w) K dt"
proof -
  note g = identityD(4-12) [OF assms, unfolded growing_def, rule_format]
  show ?thesis
    unfolding decoratorAllows_def by (intro conjI allI impI ManageChildren_keeps g)
qed

lemma identity_Decorator_enqueue:
  assumes "identity_law alloc K E"
  shows "growing alloc (Decorator_enqueueParentObject K E dt obj)" "growing alloc (Decorator_enqueueParentObjectAfter K E dt obj d)"
  unfolding growing_def by (intro allI quiet_Decorator_enqueue identityD(3) [OF assms])+

lemma account_Decorator_syncParentObject:
  assumes "identity_law alloc K E" "retry_law K"
  shows "preserves (account alloc (mgId (dtCustomize dt)) M R) (Decorator_syncParentObject K E dt parent)"
proof -
  note q = identityD(3) [OF assms(1)] and g = identityD(4-12) [OF assms(1), unfolded growing_def, rule_format]
  have [pres]: "preserves (\<lambda>w. A \<subseteq> alloc w) (RemoveFinalizer K rc obj f)" "preserves (\<lambda>w. A \<subseteq> alloc w) (AddFinalizer K rc obj f)" for A rc obj f
    unfolding RemoveFinalizer_def AddFinalizer_def
    by (rule au.confined [OF assms(2)]; auto intro!: g quiet_pres(1,2) [OF q])+
  have "preserves (\<lambda>w. A \<subseteq> alloc w) (SyncObject K (dtFinalizer dt) rc obj)" for A rc obj
    unfolding SyncObject_def by (auto intro!: pres)
  moreover have m: "keepsW (\<lambda>w. A \<subseteq> alloc w) (Decorator_manageChildren K dt p obs des)" for A p obs des
    unfolding Decorator_manageChildren_def by (intro preserves_cases pres ManageChildren_keeps g)
  ultimately have grow: "growing alloc (CtxErr K)" "growing alloc (SyncObject K (dtFinalizer dt) rc obj)" "growing alloc (getChildren K E dt obj)"
      "growing alloc (Decorator_callHook K E dt obj obs rel)" "growing alloc (Decorator_updateParent K dt rc obj result)" for rc obj obs rel result
    using quiet_pres(1) [OF q] quiet_getChildren [OF q] quiet_Decorator_callHook [OF q] allowed_updateParent [OF identity_decoratorAllows [OF assms(1)]]
    by (simp_all add: growing_def)
  note [pres] = grow [THEN account_world] account_GetRelatedObjects [OF assms(1) identity_Decorator_enqueue(1) [OF assms(1)]]
    account_cache [OF m] identity_Decorator_enqueue(2) [OF assms(1), THEN account_world]
  have [pres]: "preserves (account alloc (mgId (dtCustomize dt)) M R) (Decorator_applyResult K E dt client p obs result)" for client p obs result
    unfolding Decorator_applyResult_def by (auto intro!: pres split: option.split)
  show ?thesis unfolding Decorator_syncParentObject_def by (auto intro!: pres split: option.split sum.split)
qed

lemma account_Decorator_processNextWorkItem:
  assumes "identity_law alloc K E" "retry_law K"
  shows "preserves (account alloc (mgId (dtCustomize dt)) M R) (Decorator_processNextWorkItem K E dt)"
proof -
  note [pres] = account_GetObject [OF assms(1)] account_Decorator_syncParentObject [OF assms]
  have "preserves (account alloc (mgId (dtCustomize dt)) M R) (Decorator_sync K E dt key)" for key
    unfolding Decorator_sync_def by (auto intro!: pres split: sum.split option.split)
  then show ?thesis unfolding Decorator_processNextWorkItem_def by (rule account_processItem [OF assms(1)])
qed

section \<open>The life of a controller\<close>

lemma hoare_Decorator_Stop:
  assumes "fresh_law E alloc" "growing_env alloc E" "mset (map snd related @ decoratorInformers dt) \<subseteq># M"
  shows "hoare (\<lambda>s. subscribed alloc M s \<and> relatedOf s (mgId (dtCustomize dt)) = related) (Decorator_Stop E dt)
     (\<lambda>x s. x = None \<and> subscribed alloc (M - mset (map snd related @ decoratorInformers dt)) s)"
  using hoare_stopInformers [OF assms(1,2), of related "map snd (dtChildInformers dt) @ map snd (dtParentInformers dt)" "dtCustomize dt" M "dtQueue dt"] assms(3)
  by (simp add: Decorator_Stop_def decoratorInformers_def relatedInformers_def relatedOf_def)

interpretation decorator: controller "''DecoratorController/''" "\<lambda>dt. mgId (dtCustomize dt)" decoratorInformers Decorator_processNextWorkItem Decorator_Stop
proof
  show "preserves (account alloc (mgId (dtCustomize dt)) M R) (Decorator_processNextWorkItem K E dt)"
    if "identity_law alloc K E" "retry_law K" for alloc and K :: "'a k8s" and E dt M R
    using that by (rule account_Decorator_processNextWorkItem)
  show "hoare (\<lambda>s. subscribed alloc M s \<and> relatedOf s (mgId (dtCustomize dt)) = related) (Decorator_Stop E dt)
      (\<lambda>x s. x = None \<and> subscribed alloc (M - mset (map snd related @ decoratorInformers dt)) s)"
    if "fresh_law E alloc" "growing_env alloc E" "mset (map snd related @ decoratorInformers dt) \<subseteq># M" for E :: "'a env" and alloc related dt M
    using that by (rule hoare_Decorator_Stop)
  have "untouched (Decorator_Stop E dt)" for E :: "'a env" and dt unfolding Decorator_Stop_def by (intro untouched_rules)
  then show "relatedOf (snd (run_state (Decorator_Stop E dt) s)) c = relatedOf s c" for E :: "'a env" and dt s c by (simp only: untouchedD)
qed

lemma related_newDecoratorController:
  fixes dc :: DecoratorController
  defines "c \<equiv> ''DecoratorController/'' @ dcName dc"
  shows "hoare (\<lambda>s. others c R (relatedOf s)) (newDecoratorController K E resources dyn dc n opts)
     (\<lambda>x s. others c R (relatedOf s) \<and> (case x of Inl _ \<Rightarrow> True | Inr dt \<Rightarrow> mgId (dtCustomize dt) = c \<and> relatedOf s c = []))"
    (is "hoare ?P _ ?Q")
proof -
  have c: "''DecoratorController'' @ ''/'' @ dcName dc = c" by (simp add: c_def)
  note manager = related_NewCustomizeManager [where t = "''DecoratorController''" and name = "dcName dc", unfolded c]
  have err: "hoare ?P (State_Monad.return (Inl e)) ?Q" for e by (simp add: hoare_return)
  let ?R = "\<lambda>rm s. others c R (relatedOf s) \<and> mgId rm = c \<and> relatedOf s c = []"
  have err': "hoare (?R rm) (State_Monad.return (Inl e)) ?Q" for e rm by (rule hoare_return) simp
  have opened: "hoare (?R rm) (openDecoratorInformers K E dc controller) ?Q"
    if "\<And>ps cs. mgId (dtCustomize (controller ps cs)) = mgId rm" for rm controller
  proof -
    have close: "hoare (?R rm) (closeOnError E ris r) ?Q" if "\<And>dt. r = Inr dt \<Longrightarrow> mgId (dtCustomize dt) = mgId rm" for ris r
      using that
      by (intro hoare_strengthen [OF related_closeOnError [where Q' = "\<lambda>dt rel. mgId (dtCustomize dt) = c \<and> rel c = []"]]) (auto split: sum.split)
    show ?thesis
      unfolding openDecoratorInformers_def
      by (intro hoare_bind [OF untouched_hoare [where Q = "\<lambda>rel. others c R rel \<and> mgId rm = c \<and> rel c = []"]] hoare_cases close untouched_rules)
        (auto simp: that split: option.splits)
  qed
  have made: "hoare (\<lambda>s. others c R (relatedOf s) \<and> (case m of Inl _ \<Rightarrow> True | Inr rm \<Rightarrow> mgId rm = c \<and> relatedOf s c = []))
      (case m of Inl e \<Rightarrow> State_Monad.return (Inl e) | Inr rm \<Rightarrow> F rm) ?Q" if "\<And>rm. hoare (?R rm) (F rm) ?Q" for m F
    using that err by (cases m) simp_all
  show ?thesis
    unfolding newDecoratorController_def
    by (intro hoare_cases err hoare_bind [OF untouched_hoare [OF untouched_lift(1)]] hoare_bind [OF manager] made err' opened) simp_all
qed

definition decoratorListedOnce :: "'w k8s \<Rightarrow> DecoratorController \<Rightarrow> bool" where
  "decoratorListedOnce K dc \<longleftrightarrow>
     uniqueResources K (map (\<lambda>r. (rrAPIVersion r, rrResource r)) (dcsResources (dcSpec dc))) \<and>
     uniqueResources K (map (\<lambda>r. (rrAPIVersion r, rrResource r)) (dcsAttachments (dcSpec dc)))"

lemma accounted_newDecoratorController:
  assumes "identity_law alloc K E" "decoratorListedOnce K dc" "accounted alloc M ledger s" "''DecoratorController/'' @ dcName dc \<notin> fst ` set ledger"
    and "run_state (newDecoratorController K E resources dyn dc n opts) s = (x, t)"
  shows "case x of Inl _ \<Rightarrow> \<exists>L. size L \<le> 1 \<and> accounted alloc (M + L) ledger t
    | Inr dt \<Rightarrow> mgId (dtCustomize dt) = ''DecoratorController/'' @ dcName dc \<and> accounted alloc M ((mgId (dtCustomize dt), decoratorInformers dt) # ledger) t"
proof -
  let ?c = "''DecoratorController/'' @ dcName dc" and ?N = "M + sum_list (map (holds s) ledger)"
  have a: "distinct (map fst ledger)" "subscribed alloc ?N s" using assms(3) by (simp_all add: accounted_def)
  have "others ?c (relatedOf s) (relatedOf s)" by (simp add: others_def)
  note rel = hoareD [OF related_newDecoratorController, of _ _ s, OF this assms(5)]
  note sub = hoareD [OF hoare_newDecoratorController [OF identityD(1,2) [OF assms(1)]] a(2) assms(5)]
  have o: "c' \<noteq> ?c \<Longrightarrow> relatedOf t c' = relatedOf s c'" for c' using rel by (auto simp: others_def)
  show ?thesis
  proof (cases x)
    case (Inl e)
    have "sum_list (map (holds t) ledger) = sum_list (map (holds s) ledger)"
      by (rule holds_cong) (metis assms(4) o)
    moreover obtain L where "leftOpen L" "subscribed alloc (?N + L) t" using sub assms(2) Inl by (auto simp: decoratorListedOnce_def)
    moreover from this have "size L \<le> 1" by (auto simp: leftOpen_def managerInformers_def split: option.splits)
    ultimately have "size L \<le> 1 \<and> accounted alloc (M + L) ledger t" using a(1) by (simp add: accounted_def ac_simps)
    then show ?thesis using Inl by auto
  next
    case (Inr dt)
    then show ?thesis
      using accounted_enter [OF a(1) assms(4) o] rel sub assms(2) by (simp add: decoratorListedOnce_def)
  qed
qed

lemma identity_Decorator_handlers:
  assumes "identity_law alloc K E"
  shows "growing alloc (Decorator_parentHandlers K E dt ev)" "growing alloc (Decorator_childHandlers K E dt ev)"
proof -
  note q = identityD(3) [OF assms]
  have [pres]: "preserves (\<lambda>w. A \<subseteq> alloc w) (attachmentChanged K E dt child)" for A child
    unfolding attachmentChanged_def Decorator_resolveControllerRef_def GetObject_def by (auto intro!: pres q split: option.split)
  have [pres]: "preserves (\<lambda>w. A \<subseteq> alloc w) (Decorator_onChildDelete K E dt obj)" for A obj
    by (cases "(K, E, dt, obj)" rule: Decorator_onChildDelete.cases) (auto intro!: pres)
  have [pres]: "preserves (\<lambda>w. A \<subseteq> alloc w) (Decorator_onChildAdd K E dt obj)" for A obj
    unfolding Decorator_onChildAdd_def by (auto intro!: pres)
  show "growing alloc (Decorator_parentHandlers K E dt ev)"
    unfolding growing_def by (cases ev) (auto simp: Decorator_updateParentObject_def intro!: pres q)
  show "growing alloc (Decorator_childHandlers K E dt ev)"
    unfolding growing_def by (cases ev) (auto simp: Decorator_onChildUpdate_def intro!: pres q)
qed

lemma accounted_Decorator_Start:
  assumes "identity_law alloc K E" "accounted alloc M ledger s" "(mgId (dtCustomize dt), decoratorInformers dt) \<in> set ledger"
    and "run_state (Decorator_Start K E dt) s = (dt', t)"
  shows "mgId (dtCustomize dt') = mgId (dtCustomize dt) \<and> decoratorInformers dt' = decoratorInformers dt \<and> accounted alloc M ledger t"
proof -
  note [pres] = account_ForEach account_handler [OF assms(1) identity_Decorator_handlers(1) [OF assms(1)]]
    account_handler [OF assms(1) identity_Decorator_handlers(2) [OF assms(1)]]
  have p: "preserves (account alloc (mgId (dtCustomize dt)) M R) (Decorator_Start K E dt)" for M R
    unfolding Decorator_Start_def Let_def by (intro pres)
  have "dt' = dt\<lparr>dtCustomize := Manager_Start (dtCustomize dt)\<rparr>" using assms(4) by (auto simp: Decorator_Start_def Let_def case_prod_beta)
  moreover have "accounted alloc M ledger t"
    using accounted_member [OF p assms(2,3)] assms(4) by simp
  ultimately show ?thesis by (simp add: decoratorInformers_def managerInformers_def Manager_Start_def)
qed

definition makeDecorator :: "'w k8s \<Rightarrow> 'w env \<Rightarrow> makeArgs \<Rightarrow> DecoratorController \<Rightarrow> ('w, err + decoratorController) pstate" where
  "makeDecorator K E a dc = (case a of (resources, dyn, n, opts) \<Rightarrow> newDecoratorController K E resources dyn dc n opts)"

interpretation decorator: reconciler "''DecoratorController/''" "\<lambda>dt. mgId (dtCustomize dt)" decoratorInformers Decorator_processNextWorkItem Decorator_Stop
  dcName decoratorListedOnce makeDecorator Decorator_Start 1
proof
  fix alloc K E M ledger s x t a
  fix dc :: DecoratorController
  assume a: "identity_law alloc K E" "decoratorListedOnce K dc" "accounted alloc M ledger s" "''DecoratorController/'' @ dcName dc \<notin> fst ` set ledger"
    "run_state (makeDecorator K E a dc) s = (x, t)"
  obtain r d n o' where run: "run_state (newDecoratorController K E r d dc n o') s = (x, t)"
    using a(5) by (auto simp: makeDecorator_def split: prod.splits)
  show "case x of Inl _ \<Rightarrow> \<exists>L. size L \<le> 1 \<and> accounted alloc (M + L) ledger t
    | Inr dt \<Rightarrow> mgId (dtCustomize dt) = ''DecoratorController/'' @ dcName dc \<and> accounted alloc M ((mgId (dtCustomize dt), decoratorInformers dt) # ledger) t"
    by (rule accounted_newDecoratorController [OF a(1-4) run])
qed (rule accounted_Decorator_Start)

section \<open>The reconciler\<close>

definition decoratorArgs :: "DecoratorMetacontroller \<Rightarrow> makeArgs" where
  "decoratorArgs mc = (dmResources mc, dmDynClient mc, dmNumWorkers mc, dmSsaOptions mc)"

lemma stopDecorator_named:
  "stopDecorator E mc name =
     do { (r, m) \<leftarrow> decorator.stopNamed E (dmDecoratorControllers mc) name; State_Monad.return (r, mc\<lparr>dmDecoratorControllers := m\<rparr>) }"
  by (rule state.expand) (auto simp: stopDecorator_def decorator.stopNamed_def SyncMap_LoadAndDelete_def case_prod_beta split: option.split)

lemma reconcileDecoratorController_replace:
  "reconcileDecoratorController K E mc dc =
     do { ce \<leftarrow> liftFst (CtxErr K);
          case ce of
            Some e \<Rightarrow> State_Monad.return (Some e, mc)
          | None \<Rightarrow>
              if (case SyncMap_Load (dmDecoratorControllers mc) (dcName dc) of None \<Rightarrow> False | Some dt \<Rightarrow> dcSpec dc = dcSpec (dtDC dt))
              then State_Monad.return (None, mc)
              else do { (r, m) \<leftarrow> decorator.replace K E (decoratorArgs mc) (dmDecoratorControllers mc) dc;
                        State_Monad.return (r, mc\<lparr>dmDecoratorControllers := m\<rparr>) } }"
proof -
  have "run_state (do { (r, mc) \<leftarrow> stopDecorator E mc (dcName dc);
                     case r of
                       Some e \<Rightarrow> State_Monad.return (Some e, mc)
                     | None \<Rightarrow>
                         do { n \<leftarrow> newDecoratorController K E (dmResources mc) (dmDynClient mc) dc (dmNumWorkers mc) (dmSsaOptions mc);
                              case n of
                                Inl e \<Rightarrow> State_Monad.return (Some e, mc)
                              | Inr dt \<Rightarrow>
                                  do { dt \<leftarrow> Decorator_Start K E dt;
                                       State_Monad.return (None, mc\<lparr>dmDecoratorControllers := SyncMap_Store (dmDecoratorControllers mc) (dcName dc) dt\<rparr>) } } }) s =
     run_state (do { (r, m) \<leftarrow> decorator.replace K E (decoratorArgs mc) (dmDecoratorControllers mc) dc;
                        State_Monad.return (r, mc\<lparr>dmDecoratorControllers := m\<rparr>) }) s" for s
    unfolding stopDecorator_named decorator.replace_def decorator.startNamed_def makeDecorator_def decoratorArgs_def
    by (simp add: case_prod_beta split: option.split sum.split)
  then show ?thesis
    unfolding reconcileDecoratorController_def
    by (intro state.expand ext) (simp add: case_prod_beta split: option.split)
qed

abbreviation decorators :: "('w \<Rightarrow> nat set) \<Rightarrow> ResourceInformer multiset \<Rightarrow> ledger \<Rightarrow> DecoratorMetacontroller \<Rightarrow> 'w \<times> proc \<Rightarrow> bool" where
  "decorators alloc M rest mc \<equiv> decorator.running alloc M rest (dmDecoratorControllers mc)"

lemma hoare_stopDecorator:
  assumes "identity_law alloc K E"
  shows "hoare (decorators alloc M rest mc) (stopDecorator E mc name) (\<lambda>x s. fst x = None \<and> decorators alloc M rest (snd x) s)"
  unfolding stopDecorator_named
  by (rule hoare_record, rule hoare_weaken [OF decorator.hoare_stopNamed [OF assms]]) simp

text \<open>Reconciling a decorator leaves at most one informer behind.\<close>

definition leaking :: "('w \<Rightarrow> nat set) \<Rightarrow> ResourceInformer multiset \<Rightarrow> ledger \<Rightarrow> DecoratorMetacontroller \<Rightarrow> 'w \<times> proc \<Rightarrow> bool" where
  "leaking alloc M rest mc s \<longleftrightarrow> (\<exists>L. size L \<le> 1 \<and> decorators alloc (M + L) rest mc s)"

lemma leaking_exact: "decorators alloc M rest mc s \<Longrightarrow> leaking alloc M rest mc s"
  unfolding leaking_def by (rule exI [of _ "{#}"]) simp

lemma hoare_Decorator_Reconcile:
  assumes "identity_law alloc K E" "\<And>w dc w'. run_state (GetDecoratorController E name) w = (Inr dc, w') \<Longrightarrow> decoratorListedOnce K dc"
    and "\<And>n. ''DecoratorController/'' @ n \<notin> fst ` set rest"
  shows "hoare (decorators alloc M rest mc) (Decorator_Reconcile K E mc name) (\<lambda>x. leaking alloc M rest (snd x))"
proof -
  have ctx: "growing alloc (CtxErr K)" using quiet_pres(1) [OF identityD(3) [OF assms(1)]] by (simp add: growing_def)
  have ret: "hoare (decorators alloc M rest mc) (State_Monad.return (e, mc)) (\<lambda>x. leaking alloc M rest (snd x))" for e
    by (simp add: hoare_return leaking_exact)
  have stop: "hoare (decorators alloc M rest mc) (stopDecorator E mc name) (\<lambda>x. leaking alloc M rest (snd x))"
    by (rule hoare_weaken [OF hoare_stopDecorator [OF assms(1)]]) (simp add: leaking_exact)
  have replace: "hoare (decorators alloc M rest mc)
      (do { (r, m) \<leftarrow> decorator.replace K E a (dmDecoratorControllers mc) dc; State_Monad.return (r, mc\<lparr>dmDecoratorControllers := m\<rparr>) })
      (\<lambda>x. leaking alloc M rest (snd x))" if "decoratorListedOnce K dc" for a dc
    by (rule hoare_record, rule hoare_weaken [OF decorator.hoare_replace [OF assms(1) that assms(3)]]) (simp add: leaking_def)
  have reconcile: "hoare (decorators alloc M rest mc) (reconcileDecoratorController K E mc dc) (\<lambda>x. leaking alloc M rest (snd x))"
    if "decoratorListedOnce K dc" for dc
    unfolding reconcileDecoratorController_replace
    by (intro hoare_bind [OF decorator.running_world [OF ctx]] hoare_cases hoare_if replace that ret)
  show ?thesis
    unfolding Decorator_Reconcile_def
    by (rule decorator.hoare_read [OF identityD(19) [OF assms(1)] assms(2)]) (intro hoare_if stop ret reconcile | assumption)+
qed

end
