(* ===== verification/Lifecycle.thy ===== *)
theory Lifecycle
  imports Composite_Ledger Decorator_Ledger
begin

text \<open>
  The process over time: both reconcilers create, replace and stop controllers as their objects change, the workers of the controllers that
  run sync parents, informers call event handlers, discovery is refreshed, and the world moves on.  The invariant is that the open
  subscriptions are those of the controllers that run, beside what failed decorator controllers left behind.  Reconciles, work items, events and refreshes are steps;
  the code runs them concurrently, with the informer factory behind a lock.
\<close>

section \<open>Steps\<close>

record 'w process =
  psComposite :: Metacontroller
  psDecorator :: DecoratorMetacontroller
  psState :: "'w \<times> proc"

datatype action = ReconcileComposite string | ReconcileDecorator string | WorkComposite string | WorkDecorator string | Event | Discover | Outside

text \<open>The resource map is shared by both reconcilers, their controllers and the informer factory, so that a refresh of
  discovery reaches all of them.\<close>

definition discoverComposite :: "ResourceMap \<Rightarrow> parentController \<Rightarrow> parentController" where
  "discoverComposite rm pc = pc\<lparr>ptDynClient := (ptDynClient pc)\<lparr>csResources := rm\<rparr>,
     ptCustomize := (ptCustomize pc)\<lparr>mgDynClient := (mgDynClient (ptCustomize pc))\<lparr>csResources := rm\<rparr>\<rparr>\<rparr>"

definition discoverDecorator :: "ResourceMap \<Rightarrow> decoratorController \<Rightarrow> decoratorController" where
  "discoverDecorator rm dt = dt\<lparr>dtResources := rm, dtDynClient := (dtDynClient dt)\<lparr>csResources := rm\<rparr>,
     dtCustomize := (dtCustomize dt)\<lparr>mgDynClient := (mgDynClient (dtCustomize dt))\<lparr>csResources := rm\<rparr>\<rparr>\<rparr>"

definition rediscovered :: "ResourceMap \<Rightarrow> 'w process \<Rightarrow> 'w process" where
  "rediscovered rm p =
     (let mc = psComposite p; dm = psDecorator p; fc = pcFactory (snd (psState p)) in
      p\<lparr>psComposite := mc\<lparr>mcResources := rm, mcDynClient := (mcDynClient mc)\<lparr>csResources := rm\<rparr>,
            mcParentControllers := map (map_prod id (discoverComposite rm)) (mcParentControllers mc)\<rparr>,
        psDecorator := dm\<lparr>dmResources := rm, dmDynClient := (dmDynClient dm)\<lparr>csResources := rm\<rparr>,
            dmDecoratorControllers := map (map_prod id (discoverDecorator rm)) (dmDecoratorControllers dm)\<rparr>,
        psState := (fst (psState p), (snd (psState p))\<lparr>pcFactory := fc\<lparr>fcClientset := (fcClientset fc)\<lparr>csResources := rm\<rparr>\<rparr>\<rparr>)\<rparr>)"

text \<open>Handlers a running controller has registered.\<close>

definition compositeHandlers :: "'w k8s \<Rightarrow> 'w env \<Rightarrow> parentController \<Rightarrow> (informerEvent \<Rightarrow> ('w, unit) state) set" where
  "compositeHandlers K E pc = {parentHandlers K E pc, childHandlers K E pc, relatedHandler K E (enqueueParentObject K E pc) (ptCustomize pc)}"

definition decoratorHandlers :: "'w k8s \<Rightarrow> 'w env \<Rightarrow> decoratorController \<Rightarrow> (informerEvent \<Rightarrow> ('w, unit) state) set" where
  "decoratorHandlers K E dt =
     {Decorator_parentHandlers K E dt, Decorator_childHandlers K E dt, relatedHandler K E (Decorator_enqueueParentObject K E dt) (dtCustomize dt)}"

inductive step :: "'w k8s \<Rightarrow> 'w env \<Rightarrow> ('w \<Rightarrow> nat set) \<Rightarrow> action \<Rightarrow> 'w process \<Rightarrow> 'w process \<Rightarrow> bool"
  for K :: "'w k8s" and E :: "'w env" and alloc :: "'w \<Rightarrow> nat set" where
  reconcileComposite: "run_state (Reconcile K E (psComposite p) name) (psState p) = ((r, mc), s) \<Longrightarrow>
     step K E alloc (ReconcileComposite name) p (p\<lparr>psComposite := mc, psState := s\<rparr>)"
| reconcileDecorator: "run_state (Decorator_Reconcile K E (psDecorator p) name) (psState p) = ((r, mc), s) \<Longrightarrow>
     step K E alloc (ReconcileDecorator name) p (p\<lparr>psDecorator := mc, psState := s\<rparr>)"
| workComposite: "map_of (mcParentControllers (psComposite p)) name = Some pc \<Longrightarrow>
     run_state (processNextWorkItem K E pc) (psState p) = (r, s) \<Longrightarrow> step K E alloc (WorkComposite name) p (p\<lparr>psState := s\<rparr>)"
| workDecorator: "map_of (dmDecoratorControllers (psDecorator p)) name = Some dt \<Longrightarrow>
     run_state (Decorator_processNextWorkItem K E dt) (psState p) = (r, s) \<Longrightarrow> step K E alloc (WorkDecorator name) p (p\<lparr>psState := s\<rparr>)"
| eventComposite: "map_of (mcParentControllers (psComposite p)) name = Some pc \<Longrightarrow> h \<in> compositeHandlers K E pc \<Longrightarrow>
     run_state (liftFst (h ev)) (psState p) = (r, s) \<Longrightarrow> step K E alloc Event p (p\<lparr>psState := s\<rparr>)"
| eventDecorator: "map_of (dmDecoratorControllers (psDecorator p)) name = Some dt \<Longrightarrow> h \<in> decoratorHandlers K E dt \<Longrightarrow>
     run_state (liftFst (h ev)) (psState p) = (r, s) \<Longrightarrow> step K E alloc Event p (p\<lparr>psState := s\<rparr>)"
| discover: "run_state (liftFst (refresh K (mcResources (psComposite p)))) (psState p) = (Inr rm, s) \<Longrightarrow>
     step K E alloc Discover p (rediscovered rm (p\<lparr>psState := s\<rparr>))"
| outside: "alloc (fst (psState p)) \<subseteq> alloc w \<Longrightarrow> step K E alloc Outside p (p\<lparr>psState := (w, snd (psState p))\<rparr>)"

inductive_cases stepE: "step K E alloc a p p'"

inductive steps :: "'w k8s \<Rightarrow> 'w env \<Rightarrow> ('w \<Rightarrow> nat set) \<Rightarrow> action list \<Rightarrow> 'w process \<Rightarrow> 'w process \<Rightarrow> bool"
  for K :: "'w k8s" and E :: "'w env" and alloc :: "'w \<Rightarrow> nat set" where
  none: "steps K E alloc [] p p"
| more: "steps K E alloc as p p' \<Longrightarrow> step K E alloc a p' p'' \<Longrightarrow> steps K E alloc (as @ [a]) p p''"

section \<open>The invariant\<close>

definition ledgerOfProcess :: "'w process \<Rightarrow> ledger" where
  "ledgerOfProcess p =
     composite.ledgerOf (mcParentControllers (psComposite p)) @ decorator.ledgerOf (dmDecoratorControllers (psDecorator p))"

definition process_inv :: "('w \<Rightarrow> nat set) \<Rightarrow> ResourceInformer multiset \<Rightarrow> 'w process \<Rightarrow> bool" where
  "process_inv alloc M p \<longleftrightarrow>
     composite.keyed (mcParentControllers (psComposite p)) \<and> decorator.keyed (dmDecoratorControllers (psDecorator p)) \<and>
     accounted alloc M (ledgerOfProcess p) (psState p)"

lemma other_kind:
  "decorator.keyed m \<Longrightarrow> ''CompositeController/'' @ n \<notin> fst ` set (decorator.ledgerOf m)"
  "composite.keyed m' \<Longrightarrow> ''DecoratorController/'' @ n \<notin> fst ` set (composite.ledgerOf m')"
  by (auto simp: decorator.keyed_def decorator.ledgerOf_def decorator.entry_def composite.keyed_def composite.ledgerOf_def composite.entry_def)

lemma process_inv_composites:
  "process_inv alloc M p \<longleftrightarrow> decorator.keyed (dmDecoratorControllers (psDecorator p)) \<and>
     composites alloc M (decorator.ledgerOf (dmDecoratorControllers (psDecorator p))) (psComposite p) (psState p)"
  by (auto simp: process_inv_def composite.running_def ledgerOfProcess_def)

lemma process_inv_decorators:
  "process_inv alloc M p \<longleftrightarrow> composite.keyed (mcParentControllers (psComposite p)) \<and>
     decorators alloc M (composite.ledgerOf (mcParentControllers (psComposite p))) (psDecorator p) (psState p)"
proof -
  have "accounted alloc M (ledgerOfProcess p) (psState p) =
      accounted alloc M (decorator.ledgerOf (dmDecoratorControllers (psDecorator p)) @ composite.ledgerOf (mcParentControllers (psComposite p))) (psState p)"
    by (rule accounted_perm) (simp add: ledgerOfProcess_def)
  then show ?thesis by (auto simp: process_inv_def decorator.running_def)
qed

lemma process_inv_same:
  assumes "process_inv alloc M p" "accounted alloc M (ledgerOfProcess p) s"
  shows "process_inv alloc M (p\<lparr>psState := s\<rparr>)"
  using assms by (simp add: process_inv_def ledgerOfProcess_def)

text \<open>What the API server is assumed to hold: controller objects that list their resources once each.\<close>

definition listing_law :: "'w k8s \<Rightarrow> 'w env \<Rightarrow> bool" where
  "listing_law K E \<longleftrightarrow>
     (\<forall>n w cc w'. run_state (GetCompositeController E n) w = (Inr cc, w') \<longrightarrow> listedOnce K cc) \<and>
     (\<forall>n w dc w'. run_state (GetDecoratorController E n) w = (Inr dc, w') \<longrightarrow> decoratorListedOnce K dc)"

fun mayLeak :: "action \<Rightarrow> nat" where
  "mayLeak (ReconcileDecorator _) = 1"
| "mayLeak _ = 0"

lemma identity_allHandlers:
  assumes "identity_law alloc K E"
  shows "h \<in> compositeHandlers K E pc \<Longrightarrow> growing alloc (h ev)" "h \<in> decoratorHandlers K E dt \<Longrightarrow> growing alloc (h ev)"
proof -
  have "growing alloc (relatedHandler K E (enqueueParentObject K E pc) rm ev)" "growing alloc (relatedHandler K E (Decorator_enqueueParentObject K E dt) rm ev)" for rm
    unfolding growing_def by (intro allI quiet_relatedHandler quiet_enqueue(1) quiet_Decorator_enqueue(1) identityD(3) [OF assms])+
  then show "h \<in> compositeHandlers K E pc \<Longrightarrow> growing alloc (h ev)" "h \<in> decoratorHandlers K E dt \<Longrightarrow> growing alloc (h ev)"
    using identity_handlers [OF assms] identity_Decorator_handlers [OF assms] by (auto simp: compositeHandlers_def decoratorHandlers_def)
qed

lemma accounted_outside:
  assumes "accounted alloc M ledger s" "alloc (fst s) \<subseteq> alloc w"
  shows "accounted alloc M ledger (w, snd s)"
proof -
  have "sum_list (map (holds (w, snd s)) ledger) = sum_list (map (holds s) ledger)"
    by (rule holds_cong) (simp add: relatedOf_def)
  moreover have "subscribed alloc N s \<Longrightarrow> subscribed alloc N (w, snd s)" for N
    using assms(2) by (auto simp: subscribed_def intro: factory_inv_mono)
  ultimately show ?thesis using assms(1) by (simp add: accounted_def)
qed

text \<open>Discovery changes neither what the controllers hold nor the factory's counts.\<close>

lemma ledgerOfProcess_rediscovered: "ledgerOfProcess (rediscovered rm p) = ledgerOfProcess p"
  by (simp add: ledgerOfProcess_def rediscovered_def Let_def composite.ledgerOf_def composite.entry_def decorator.ledgerOf_def decorator.entry_def
      discoverComposite_def discoverDecorator_def controllerInformers_def decoratorInformers_def managerInformers_def)

lemma rediscovered_inv:
  assumes "process_inv alloc M p"
  shows "process_inv alloc M (rediscovered rm p)"
proof -
  have "subscribed alloc N (psState (rediscovered rm p)) \<longleftrightarrow> subscribed alloc N (psState p)" for N
    by (simp add: subscribed_def rediscovered_def Let_def factory_inv_def refCountOf_def)
  moreover have "holds (psState (rediscovered rm p)) = holds (psState p)"
    by (rule ext) (simp add: holds_def relatedOf_def rediscovered_def Let_def)
  moreover have "composite.keyed (mcParentControllers (psComposite (rediscovered rm p)))" "decorator.keyed (dmDecoratorControllers (psDecorator (rediscovered rm p)))"
    using assms by (auto simp: process_inv_def composite.keyed_def decorator.keyed_def rediscovered_def Let_def discoverComposite_def discoverDecorator_def)
  ultimately show ?thesis using assms by (simp add: process_inv_def accounted_def ledgerOfProcess_rediscovered)
qed

lemma growing_refresh: "identity_law alloc K E \<Longrightarrow> growing alloc (refresh K rm)"
  unfolding refresh_def by (intro growing_rules identityD(20)) (auto intro: growing_rules split: prod.split)

lemma reconcileComposite_inv:
  assumes "identity_law alloc K E" "listing_law K E" "process_inv alloc M p"
    and "run_state (Reconcile K E (psComposite p) name) (psState p) = ((r, mc), s)"
  shows "process_inv alloc M (p\<lparr>psComposite := mc, psState := s\<rparr>)"
proof -
  let ?rest = "decorator.ledgerOf (dmDecoratorControllers (psDecorator p))"
  have k: "decorator.keyed (dmDecoratorControllers (psDecorator p))" "composites alloc M ?rest (psComposite p) (psState p)"
    using assms(3) process_inv_composites by blast+
  have "composites alloc M ?rest mc s"
    using hoareD [OF hoare_Reconcile [OF assms(1) _ other_kind(1) [OF k(1)]] k(2) assms(4)] assms(2) unfolding listing_law_def snd_conv by blast
  then show ?thesis using k(1) by (simp add: process_inv_composites)
qed

lemma reconcileDecorator_inv:
  assumes "identity_law alloc K E" "listing_law K E" "process_inv alloc M p"
    and "run_state (Decorator_Reconcile K E (psDecorator p) name) (psState p) = ((r, mc), s)"
  shows "\<exists>L. size L \<le> 1 \<and> process_inv alloc (M + L) (p\<lparr>psDecorator := mc, psState := s\<rparr>)"
proof -
  let ?rest = "composite.ledgerOf (mcParentControllers (psComposite p))"
  have k: "composite.keyed (mcParentControllers (psComposite p))" "decorators alloc M ?rest (psDecorator p) (psState p)"
    using assms(3) process_inv_decorators by blast+
  have "leaking alloc M ?rest mc s"
    using hoareD [OF hoare_Decorator_Reconcile [OF assms(1) _ other_kind(2) [OF k(1)]] k(2) assms(4)] assms(2) unfolding listing_law_def snd_conv by blast
  then show ?thesis using k(1) by (auto simp: process_inv_decorators leaking_def)
qed

lemma step_inv:
  assumes "identity_law alloc K E" "retry_law K" "listing_law K E" "process_inv alloc M p" "step K E alloc a p p'"
  shows "\<exists>L. size L \<le> mayLeak a \<and> process_inv alloc (M + L) p'"
proof -
  note exact = exI [of "\<lambda>L. size L \<le> mayLeak a \<and> process_inv alloc (M + L) p'" "{#}"]
  have acc: "accounted alloc M (ledgerOfProcess p) (psState p)" using assms(4) by (simp add: process_inv_def)
  from assms(5) show ?thesis
  proof cases
    case (reconcileComposite name r mc s)
    then show ?thesis using reconcileComposite_inv [OF assms(1,3,4)] by (intro exact) simp
  next
    case (reconcileDecorator name r mc s)
    then show ?thesis using reconcileDecorator_inv [OF assms(1,3,4)] by simp
  next
    case (workComposite name pc r s)
    have "composite.entry pc \<in> set (ledgerOfProcess p)"
      using composite.entry_ledgerOf [OF workComposite(3)] by (simp add: ledgerOfProcess_def)
    from composite.work_accounted [OF assms(1,2) acc this] show ?thesis
      using process_inv_same [OF assms(4)] workComposite(2,4) by (intro exact) simp
  next
    case (workDecorator name dt r s)
    have "decorator.entry dt \<in> set (ledgerOfProcess p)"
      using decorator.entry_ledgerOf [OF workDecorator(3)] by (simp add: ledgerOfProcess_def)
    from decorator.work_accounted [OF assms(1,2) acc this] show ?thesis
      using process_inv_same [OF assms(4)] workDecorator(2,4) by (intro exact) simp
  next
    case (eventComposite name pc h ev r s)
    from accounted_world [OF identity_allHandlers(1) [OF assms(1) eventComposite(4)] acc]
    have "accounted alloc M (ledgerOfProcess p) s" using eventComposite(5) by (metis snd_conv)
    with process_inv_same [OF assms(4)] eventComposite(2) show ?thesis by (intro exact) simp
  next
    case (eventDecorator name dt h ev r s)
    from accounted_world [OF identity_allHandlers(2) [OF assms(1) eventDecorator(4)] acc]
    have "accounted alloc M (ledgerOfProcess p) s" using eventDecorator(5) by (metis snd_conv)
    with process_inv_same [OF assms(4)] eventDecorator(2) show ?thesis by (intro exact) simp
  next
    case (discover rm s)
    from accounted_world [OF growing_refresh [OF assms(1)] acc]
    have "accounted alloc M (ledgerOfProcess p) s" using discover(3) by (metis snd_conv)
    from rediscovered_inv [OF process_inv_same [OF assms(4) this]] discover(2) show ?thesis by (intro exact) simp
  next
    case (outside w)
    then show ?thesis using process_inv_same [OF assms(4) accounted_outside [OF acc]] by (intro exact) simp
  qed
qed

lemma steps_inv:
  assumes "identity_law alloc K E" "retry_law K" "listing_law K E" "steps K E alloc as p p'" "process_inv alloc M p"
  shows "\<exists>L. size L \<le> sum_list (map mayLeak as) \<and> process_inv alloc (M + L) p'"
  using assms(4,5)
proof (induction rule: steps.induct)
  case (none p)
  then show ?case by (intro exI [of _ "{#}"]) simp
next
  case (more as p p' a p'')
  then obtain L where L: "size L \<le> sum_list (map mayLeak as)" "process_inv alloc (M + L) p'" by blast
  obtain L' where "size L' \<le> mayLeak a" "process_inv alloc (M + L + L') p''" using step_inv [OF assms(1-3) L(2) more.hyps(2)] by blast
  with L(1) show ?case by (intro exI [of _ "L + L'"]) (simp add: ac_simps)
qed

section \<open>Properties\<close>

text \<open>No composite or decorator controller runs when the process starts.\<close>

definition idle :: "'w process \<Rightarrow> bool" where
  "idle p \<longleftrightarrow> mcParentControllers (psComposite p) = [] \<and> dmDecoratorControllers (psDecorator p) = []"

lemma idle_inv: "idle p \<Longrightarrow> subscribed alloc M (psState p) \<Longrightarrow> process_inv alloc M p"
  by (simp add: idle_def process_inv_def ledgerOfProcess_def composite.keyed_def composite.ledgerOf_def decorator.keyed_def decorator.ledgerOf_def accounted_def)

definition heldBy :: "'w process \<Rightarrow> ResourceInformer multiset" where
  "heldBy p =
     (\<Sum>pc \<leftarrow> map snd (mcParentControllers (psComposite p)). mset (controllerInformers pc @ map snd (relatedInformers (ptCustomize pc) (psState p)))) +
     (\<Sum>dt \<leftarrow> map snd (dmDecoratorControllers (psDecorator p)). mset (decoratorInformers dt @ map snd (relatedInformers (dtCustomize dt) (psState p))))"

lemma heldBy_ledger: "heldBy p = sum_list (map (holds (psState p)) (ledgerOfProcess p))"
  by (simp add: heldBy_def ledgerOfProcess_def composite.ledgerOf_def decorator.ledgerOf_def holds_def composite.entry_def decorator.entry_def
      relatedInformers_def relatedOf_def comp_def case_prod_beta ac_simps)

text \<open>Whatever the reconcilers, workers and event handlers of a process have done, in whatever order, the informers that are open are
  those that were open at first and those the running controllers hold: of their parents and children, of their customize
  managers and the related ones opened on demand.  Nothing else is left behind except an informer per reconcile of a decorator
  controller at most.\<close>

theorem open_informers_accounted:
  assumes "identity_law alloc K E" "retry_law K" "listing_law K E"
    and "idle p" "subscribed alloc M (psState p)" "steps K E alloc as p p'"
  shows "\<exists>L. size L \<le> length (filter (\<lambda>a. \<exists>n. a = ReconcileDecorator n) as) \<and> subscribed alloc (M + L + heldBy p') (psState p')"
proof -
  have "sum_list (map mayLeak as) = length (filter (\<lambda>a. \<exists>n. a = ReconcileDecorator n) as)" for as
  proof (induction as)
    case (Cons a as)
    then show ?case by (cases a) simp_all
  qed simp
  with steps_inv [OF assms(1-3,6) idle_inv [OF assms(4,5)]] show ?thesis
    by (auto simp: process_inv_def accounted_def heldBy_ledger)
qed


section \<open>A process that starts a controller\<close>

definition clusterResources :: ResourceMap where
  "clusterResources = \<lparr>rmGroupVersions = Some [(''v1'',
     \<lparr>gveHeap = [\<lparr>arName = ''pods'', arKind = ''Pod'', arGroup = '''', arVersion = ''v1'', arNamespaced = True, arAPIVersion = ''v1'', arSubresourceMap = []\<rparr>,
        \<lparr>arName = ''namespaces'', arKind = ''Namespace'', arGroup = '''', arVersion = ''v1'', arNamespaced = False, arAPIVersion = ''v1'', arSubresourceMap = []\<rparr>],
      gveResources = [(''pods'', 0), (''namespaces'', 1)], gveKinds = [(''Pod'', 0), (''Namespace'', 1)], gveSubresources = []\<rparr>)]\<rparr>"

definition clusterGroups :: "apiResourceList list" where
  "clusterGroups = [\<lparr>arlGroupVersion = ''v1'', arlAPIResources =
     [\<lparr>marName = ''pods'', marKind = ''Pod'', marGroup = '''', marVersion = '''', marNamespaced = True\<rparr>,
      \<lparr>marName = ''namespaces'', marKind = ''Namespace'', marGroup = '''', marVersion = '''', marNamespaced = False\<rparr>]\<rparr>]"

definition clusterWorld :: world where
  "clusterWorld = podStore\<lparr>wGroups := clusterGroups, wLog := [(''attempt'', ''''), (''attempt'', ''''), (''attempt'', ''''), (''start'', ''''), (''start'', '''')]\<rparr>"

lemma clusterWorld_refresh: "run_state (refresh refK NewResourceMap) clusterWorld = (Inr clusterResources, clusterWorld)"
  by (simp add: refresh_def refK_simps clusterWorld_def clusterGroups_def makeEntry_def emptyEntry_def addResource_def refGroupVersion_def
      NewResourceMap_def clusterResources_def Let_def numeral_2_eq_2)

definition clusterClientset :: Clientset where
  "clusterClientset = \<lparr>csResources = clusterResources\<rparr>"

definition hookedComposite :: CompositeController where
  "hookedComposite = compositeW\<lparr>ccSpec := (ccSpec compositeW)\<lparr>ccsHooks := Some \<lparr>cchCustomize = None, cchSync = None, cchFinalize = None,
     cchPreUpdateChild = None, cchPostUpdateChild = None\<rparr>\<rparr>\<rparr>"

definition processEnv :: "world env" where
  "processEnv = refE\<lparr>GetCompositeController := (\<lambda>_. State_Monad.return (Inr hookedComposite))\<rparr>"

abbreviation serverOpts :: ApplyOptions where
  "serverOpts \<equiv> \<lparr>aoFieldManager = '''', aoStrategy = ''dynamic-apply''\<rparr>"

definition startProcess :: "world process" where
  "startProcess = \<lparr>psComposite = \<lparr>mcResources = clusterResources, mcDynClient = clusterClientset, mcNumWorkers = 1, mcSsaOptions = serverOpts, mcParentControllers = []\<rparr>,
     psDecorator = \<lparr>dmResources = clusterResources, dmDynClient = clusterClientset, dmNumWorkers = 1, dmSsaOptions = serverOpts, dmDecoratorControllers = []\<rparr>,
     psState = (clusterWorld, emptyProc\<lparr>pcFactory := NewSharedInformerFactory clusterClientset 0\<rparr>)\<rparr>"

lemma startProcess_idle: "idle startProcess" "subscribed alloc {#} (psState startProcess)"
  by (simp_all add: idle_def startProcess_def subscribed_def factory_inv_start)

lemma processEnv_laws:
  "identity_law (\<lambda>w. {..<length (wLog w)}) refK processEnv" "listing_law refK processEnv"
proof -
  have g: "fresh_law processEnv (\<lambda>w. {..<length (wLog w)})" "growing_env (\<lambda>w. {..<length (wLog w)}) processEnv"
    using refE_fresh refE_growing by (simp_all add: processEnv_def fresh_law_def growing_env_def)
  have "quiet (\<lambda>w. A \<subseteq> {..<length (wLog w)}) refK processEnv" for A
    unfolding quiet_def processEnv_def
    by (intro conjI allI) (auto simp: preserves_def refK_simps refEnv_simps logE_def refGet_def)
  with g show "identity_law (\<lambda>w. {..<length (wLog w)}) refK processEnv"
    unfolding identity_law_def
    by (intro conjI allI) (auto simp: growing_def preserves_def processEnv_def refK_simps refEnv_simps logE_def refPut_def refRevPut_def refDelete_def refPatch_def Let_def split: prod.splits option.splits if_splits sum.splits)
  show "listing_law refK processEnv"
    by (auto simp: listing_law_def processEnv_def refEnv_simps hookedComposite_def compositeW_def listedOnce_def uniqueResources_def)
qed

lemma clusterClientset_Resource:
  "\<exists>rc. Clientset_Resource refK clusterClientset ''v1'' ''namespaces'' = Inr rc"
  "\<exists>rc. Clientset_Resource refK clusterClientset ''v1'' ''pods'' = Inr rc"
  by (simp_all add: Clientset_Resource_def clusterClientset_def clusterResources_def ResourceMap_Get_def Clientset_resource_def
      APIResource_GroupVersionResource_def APIResource_GroupVersion_def podClient_def refK_simps refGroupVersion_def numeral_2_eq_2 Let_def)

lemma processEnv_makes:
  "\<exists>pc t. run_state (newParentController refK processEnv clusterResources clusterClientset hookedComposite 1 serverOpts) (psState startProcess) = (Inr pc, t)"
proof -
  obtain n where n: "Clientset_Resource refK clusterClientset ''v1'' ''namespaces'' = Inr n" using clusterClientset_Resource(1) by blast
  obtain r where r: "Clientset_Resource refK clusterClientset ''v1'' ''pods'' = Inr r" using clusterClientset_Resource(2) by blast
  show ?thesis
    by (simp add: newParentController_def hookedComposite_def compositeW_def n r makeUpdateStrategyMap_def finishController_def closeOnError_def
        newHooks_def NewHook_def ResolveEndpointConfig_def syncWebhook_def finalizeWebhook_def NewCustomizeManager_def newCustomizeHook_def
        CompositeController_GetCustomizeHook_def IsInitialized_def startProcess_def processEnv_def
        Factory_Resource_def getFactory_def modifyFactory_def newResourceInformer_def newSharedResourceInformer_def emptyProc_def
        NewSharedInformerFactory_def refEnv_simps logE_def newResponseCache_def setRelated_def refCountOf_def resourceKey_def Let_def)
qed

lemma startProcess_reconciles:
  "\<exists>p pc. step refK processEnv alloc (ReconcileComposite ''cc'') startProcess p \<and> mcParentControllers (psComposite p) = [(''cc'', pc)]"
proof -
  let ?mc = "psComposite startProcess"
  obtain pc t where made: "run_state (newParentController refK processEnv (mcResources ?mc) (mcDynClient ?mc) hookedComposite (mcNumWorkers ?mc) (mcSsaOptions ?mc))
      (psState startProcess) = (Inr pc, t)"
    using processEnv_makes by (auto simp: startProcess_def)
  obtain pc' u where start: "run_state (Start refK processEnv pc) t = (pc', u)" by (metis surj_pair)
  have none: "mcParentControllers ?mc = []" by (simp add: startProcess_def)
  have ctx: "run_state (liftFst (CtxErr refK)) s = (None, s)" for s :: "world \<times> proc" by (cases s) (simp add: refK_simps)
  have name: "ccName hookedComposite = ''cc''" by (simp add: hookedComposite_def compositeW_def)
  have "run_state (reconcileCompositeController refK processEnv ?mc hookedComposite) (psState startProcess) =
      ((None, ?mc\<lparr>mcParentControllers := [(''cc'', pc')]\<rparr>), u)"
    by (simp add: reconcileCompositeController_def ctx none stopController_def SyncMap_Load_def SyncMap_LoadAndDelete_def SyncMap_Store_def name made start)
  moreover have "run_state (Reconcile refK processEnv ?mc ''cc'') s = run_state (reconcileCompositeController refK processEnv ?mc hookedComposite) s" for s
  proof -
    have v: "rrAPIVersion (ccsParentResource (ccSpec hookedComposite)) = ''v1''" "refGroupVersion ''v1'' = ('''', ''v1'')"
      by (simp_all add: hookedComposite_def compositeW_def refGroupVersion_def numeral_2_eq_2)
    have get: "run_state (liftFst (GetCompositeController processEnv ''cc'')) s = (Inr hookedComposite, s)"
      "run_state (liftFst (GetCRD processEnv n)) s = (Inr \<lparr>crdVersions = [\<lparr>cvName = ''v1'', cvSubresources = Some True\<rparr>]\<rparr>, s)" for n
      by (cases s; simp add: processEnv_def refEnv_simps)+
    show ?thesis by (simp add: Reconcile_def get v refK_simps HasStatusSubresource_def)
  qed
  ultimately have "step refK processEnv alloc (ReconcileComposite ''cc'') startProcess (startProcess\<lparr>psComposite := ?mc\<lparr>mcParentControllers := [(''cc'', pc')]\<rparr>, psState := u\<rparr>)"
    by (intro step.reconcileComposite [where r = None]) simp
  then show ?thesis by (intro exI [of _ "startProcess\<lparr>psComposite := ?mc\<lparr>mcParentControllers := [(''cc'', pc')]\<rparr>, psState := u\<rparr>"] exI [of _ pc']) simp
qed

lemma heldBy_running: "mcParentControllers (psComposite p) = [(n, pc)] \<Longrightarrow> heldBy p \<noteq> {#}"
  by (simp add: heldBy_def controllerInformers_def)

theorem open_informers_accounted_witness:
  "\<exists>p. steps refK processEnv (\<lambda>w. {..<length (wLog w)}) [ReconcileComposite ''cc''] startProcess p \<and> heldBy p \<noteq> {#} \<and>
     subscribed (\<lambda>w. {..<length (wLog w)}) (heldBy p) (psState p)"
proof -
  obtain p pc where p: "step refK processEnv (\<lambda>w. {..<length (wLog w)}) (ReconcileComposite ''cc'') startProcess p" "mcParentControllers (psComposite p) = [(''cc'', pc)]"
    using startProcess_reconciles by blast
  have st: "steps refK processEnv (\<lambda>w. {..<length (wLog w)}) [ReconcileComposite ''cc''] startProcess p"
    using steps.more [OF steps.none p(1)] by simp
  from open_informers_accounted [OF processEnv_laws(1) refK_retry processEnv_laws(2) startProcess_idle st] st heldBy_running [OF p(2)] show ?thesis
    by (intro exI [of _ p]) simp
qed


end
