(* ===== verification/Server.thy ===== *)
theory Server
  imports Lifecycle
begin

text \<open>
  How the process comes to be: \<^verbatim>\<open>cmd/metacontroller/main.go\<close>, \<^verbatim>\<open>options\<close>, \<^verbatim>\<open>server/server.go\<close>, the context of
  \<^verbatim>\<open>controller/common/common.go\<close>, \<^verbatim>\<open>events\<close> and \<^verbatim>\<open>profile\<close>.  Constructors of the client libraries and of the
  controller-runtime manager are the parameter \<open>'w boot\<close>.  What comes out is the idle process from which theory
  \<open>Lifecycle\<close> starts.
\<close>

section \<open>Configuration\<close>

record restConfig =
  rsHost :: string
  rsQPS :: rat
  rsBurst :: int

record correlatorOptions =
  coBurstSize :: int
  coQPS :: rat

record leaderElectionOptions =
  leLeaderElection :: bool
  leLeaderElectionResourceLock :: string
  leLeaderElectionNamespace :: string
  leLeaderElectionID :: string

record Configuration =
  cfRestConfig :: restConfig
  cfDiscoveryInterval :: int
  cfInformerRelist :: int
  cfWorkers :: int
  cfCorrelatorOptions :: correlatorOptions
  cfMetricsEndpoint :: string
  cfLeaderElectionOptions :: leaderElectionOptions
  cfHealthProbeBindAddress :: string
  cfTargetLabelSelector :: string
  cfApplyStrategy :: string
  cfSsaFieldManager :: string

record flags =
  flDiscoveryInterval :: int
  flInformerRelist :: int
  flMetricsAddr :: string
  flClientGoQPS :: rat
  flClientGoBurst :: int
  flWorkers :: int
  flEventsQPS :: rat
  flEventsBurst :: int
  flPprofAddr :: string
  flLeaderElection :: bool
  flLeaderElectionResourceLock :: string
  flLeaderElectionNamespace :: string
  flLeaderElectionID :: string
  flHealthProbeBindAddress :: string
  flTargetLabelSelector :: string
  flApplyStrategy :: string
  flSsaFieldManager :: string

definition second :: int where
  "second = 10 ^ 9"

text \<open>The defaults; the name of the leases lock is a constant of the client library.\<close>

definition defaultFlags :: "string \<Rightarrow> flags" where
  "defaultFlags leasesResourceLock =
     \<lparr>flDiscoveryInterval = 30 * second, flInformerRelist = 30 * 60 * second, flMetricsAddr = '':9999'', flClientGoQPS = 5,
      flClientGoBurst = 10, flWorkers = 5, flEventsQPS = 1 / 300, flEventsBurst = 25, flPprofAddr = ''0'', flLeaderElection = False,
      flLeaderElectionResourceLock = leasesResourceLock, flLeaderElectionNamespace = '''', flLeaderElectionID = ''metacontroller'',
      flHealthProbeBindAddress = '':8081'', flTargetLabelSelector = '''', flApplyStrategy = ''dynamic-apply'',
      flSsaFieldManager = ''metacontroller''\<rparr>"

text \<open>What the libraries provide.  \<open>Attempt\<close> is one request to the API server, \<open>WaitOrDone\<close> a pause of five seconds that the end of the
  context cuts short with an error, and \<open>RunManager\<close> the manager's run to its end.\<close>

record managerOptions =
  mnMetrics :: string
  mnHealthProbeBindAddress :: string
  mnLeaderElection :: leaderElectionOptions

record 'w boot =
  ToFloat32 :: "rat \<Rightarrow> rat"
  GetConfig :: "('w, err + restConfig) state"
  McNewForConfig :: "restConfig \<Rightarrow> ('w, err option) state"
  Attempt :: "('w, err option) state"
  WaitOrDone :: "('w, err option) state"
  DiscoveryNewForConfig :: "restConfig \<Rightarrow> ('w, err option) state"
  DynamicNewForConfig :: "restConfig \<Rightarrow> ('w, err option) state"
  KubernetesNewForConfig :: "restConfig \<Rightarrow> ('w, err option) state"
  StartRecordingToSink :: "correlatorOptions \<Rightarrow> ('w, unit) state"
  NewRuntimeManager :: "restConfig \<Rightarrow> managerOptions \<Rightarrow> ('w, err option) state"
  AddKnownTypes :: "string \<Rightarrow> string list \<Rightarrow> ('w, unit) state"
  ApiextensionsAddToScheme :: "('w, err option) state"
  ParseSelector :: "string \<Rightarrow> err + selector"
  NewController :: "string \<Rightarrow> ('w, err option) state"
  WatchKind :: "string \<Rightarrow> string \<Rightarrow> (strmap option \<Rightarrow> bool) \<Rightarrow> ('w, err option) state"
  StartDiscovery :: "int \<Rightarrow> ('w, unit) state"
  StartMcInformers :: "('w, unit) state"
  AddCheck :: "string \<Rightarrow> ('w, err option) state"
  ServePprof :: "string \<Rightarrow> ('w, unit) state"
  RunManager :: "('w, err option) state"

section \<open>The context of the controllers\<close>

text \<open>Continue unless a call failed.\<close>

definition orFail :: "('w, err option) state \<Rightarrow> ('w, err + 'a) state \<Rightarrow> ('w, err + 'a) state" where
  "orFail c k = do { e \<leftarrow> c; case e of Some e \<Rightarrow> State_Monad.return (Inl e) | None \<Rightarrow> k }"

record ControllerContext =
  cxResources :: ResourceMap
  cxDynClient :: Clientset
  cxDynInformers :: SharedInformerFactory
  cxConfiguration :: Configuration

definition Clientset_New :: "'w boot \<Rightarrow> restConfig \<Rightarrow> ResourceMap \<Rightarrow> ('w, err + Clientset) state" where
  "Clientset_New B config resources =
     do { e \<leftarrow> DynamicNewForConfig B config;
          State_Monad.return (case e of
              Some e \<Rightarrow> Inl (Errorf ''can't create dynamic client when creating clientset'' (Some e))
            | None \<Rightarrow> Inr \<lparr>csResources = resources\<rparr>) }"

definition NewBroadcaster :: "'w boot \<Rightarrow> restConfig \<Rightarrow> correlatorOptions \<Rightarrow> ('w, err option) state" where
  "NewBroadcaster B config opts =
     do { e \<leftarrow> KubernetesNewForConfig B config;
          case e of
            Some e \<Rightarrow> State_Monad.return (Some e)
          | None \<Rightarrow> do { StartRecordingToSink B opts; State_Monad.return None } }"

text \<open>\<^verbatim>\<open>NewDiscoveryClientForConfigOrDie\<close> panics when it fails.\<close>

definition NewControllerContext :: "'w boot \<Rightarrow> Configuration \<Rightarrow> ('w, err + ControllerContext) state" where
  "NewControllerContext B configuration =
     do { e \<leftarrow> DiscoveryNewForConfig B (cfRestConfig configuration);
          case e of
            Some _ \<Rightarrow> State_Monad.return (Inl GoPanic)
          | None \<Rightarrow>
              do { dyn \<leftarrow> Clientset_New B (cfRestConfig configuration) NewResourceMap;
                   case dyn of
                     Inl e \<Rightarrow> State_Monad.return (Inl e)
                   | Inr dynClient \<Rightarrow>
                       orFail (NewBroadcaster B (cfRestConfig configuration) (cfCorrelatorOptions configuration))
                         (State_Monad.return (Inr
                            \<lparr>cxResources = NewResourceMap, cxDynClient = dynClient,
                             cxDynInformers = NewSharedInformerFactory dynClient (cfInformerRelist configuration),
                             cxConfiguration = configuration\<rparr>)) } }"

definition Context_Start :: "'w boot \<Rightarrow> ControllerContext \<Rightarrow> ('w, unit) state" where
  "Context_Start B cx = do { StartDiscovery B (cfDiscoveryInterval (cxConfiguration cx)); StartMcInformers B }"

definition NewMetacontroller :: "ControllerContext \<Rightarrow> int \<Rightarrow> ApplyOptions \<Rightarrow> Metacontroller" where
  "NewMetacontroller cx numWorkers ssaOptions =
     \<lparr>mcResources = cxResources cx, mcDynClient = cxDynClient cx, mcNumWorkers = nat numWorkers, mcSsaOptions = ssaOptions,
      mcParentControllers = []\<rparr>"

definition Decorator_NewMetacontroller :: "ControllerContext \<Rightarrow> int \<Rightarrow> ApplyOptions \<Rightarrow> DecoratorMetacontroller" where
  "Decorator_NewMetacontroller cx numWorkers ssaOptions =
     \<lparr>dmResources = cxResources cx, dmDynClient = cxDynClient cx, dmNumWorkers = nat numWorkers, dmSsaOptions = ssaOptions,
      dmDecoratorControllers = []\<rparr>"

definition knownTypes :: "string list" where
  "knownTypes = [''CompositeController'', ''CompositeControllerList'', ''DecoratorController'', ''DecoratorControllerList'',
     ''ControllerRevision'', ''ControllerRevisionList'']"

definition addKnownTypes :: "'w boot \<Rightarrow> ('w, err option) state" where
  "addKnownTypes B = do { AddKnownTypes B ''metacontroller.k8s.io/v1alpha1'' knownTypes; State_Monad.return None }"

section \<open>The server\<close>

primrec communicate :: "'w boot \<Rightarrow> nat \<Rightarrow> err option \<Rightarrow> ('w, err option) state" where
  "communicate B 0 err = State_Monad.return err"
| "communicate B (Suc n) err =
     do { err \<leftarrow> Attempt B;
          case err of
            None \<Rightarrow> State_Monad.return None
          | Some e \<Rightarrow>
              do { d \<leftarrow> WaitOrDone B;
                   case d of
                     Some ctxErr \<Rightarrow> State_Monad.return (Some ctxErr)
                   | None \<Rightarrow> communicate B n (Some e) } }"

definition k8sCommunicationCheck :: "'w boot \<Rightarrow> ('w, err option) state" where
  "k8sCommunicationCheck B = communicate B 6 None"

definition targetSelector :: "'w k8s \<Rightarrow> 'w boot \<Rightarrow> string \<Rightarrow> err + selector" where
  "targetSelector K B s = (if s \<noteq> '''' then ParseSelector B s else Inr (Everything K))"

definition applyStrategyOf :: "string \<Rightarrow> err + string" where
  "applyStrategyOf s =
     (if s = '''' \<or> s = ''dynamic-apply'' then Inr ''dynamic-apply''
      else if s = ''server-side-apply'' then Inr ''server-side-apply''
      else Inl (Errorf (''unknown apply strategy: '' @ s) None))"

record server =
  svSelector :: selector
  svComposite :: Metacontroller
  svDecorator :: DecoratorMetacontroller
  svContext :: ControllerContext

definition watchControllers :: "'w boot \<Rightarrow> selector \<Rightarrow> ControllerContext \<Rightarrow> ApplyOptions \<Rightarrow> ('w, err + server) state" where
  "watchControllers B sel cx opts =
     (let filter = (\<lambda>labels. Matches sel labels); workers = cfWorkers (cxConfiguration cx);
          compositeReconciler = NewMetacontroller cx workers opts
      in orFail (NewController B ''composite-metacontroller'')
        (orFail (WatchKind B ''composite-metacontroller'' ''CompositeController'' filter)
          (let decoratorReconciler = Decorator_NewMetacontroller cx workers opts
           in orFail (NewController B ''decorator-metacontroller'')
             (orFail (WatchKind B ''decorator-metacontroller'' ''DecoratorController'' filter)
               (do { Context_Start B cx;
                     State_Monad.return (Inr \<lparr>svSelector = sel, svComposite = compositeReconciler, svDecorator = decoratorReconciler,
                       svContext = cx\<rparr>) })))))"

definition New :: "'w k8s \<Rightarrow> 'w boot \<Rightarrow> Configuration \<Rightarrow> ('w, err + server) state" where
  "New K B configuration =
     do { e \<leftarrow> McNewForConfig B (cfRestConfig configuration);
          case e of
            Some e \<Rightarrow> State_Monad.return (Inl (Errorf ''can't create client for api metacontroller.k8s.io/v1alpha1'' (Some e)))
          | None \<Rightarrow>
              orFail (k8sCommunicationCheck B)
                (do { c \<leftarrow> NewControllerContext B configuration;
                      case c of
                        Inl e \<Rightarrow> State_Monad.return (Inl e)
                      | Inr cx \<Rightarrow>
                          orFail (NewRuntimeManager B (cfRestConfig configuration)
                              \<lparr>mnMetrics = cfMetricsEndpoint configuration, mnHealthProbeBindAddress = cfHealthProbeBindAddress configuration,
                               mnLeaderElection = cfLeaderElectionOptions configuration\<rparr>)
                            (orFail (addKnownTypes B)
                              (orFail (ApiextensionsAddToScheme B)
                                (case targetSelector K B (cfTargetLabelSelector configuration) of
                                   Inl e \<Rightarrow> State_Monad.return (Inl e)
                                 | Inr sel \<Rightarrow>
                                     (case applyStrategyOf (cfApplyStrategy configuration) of
                                        Inl e \<Rightarrow> State_Monad.return (Inl e)
                                      | Inr strategy \<Rightarrow>
                                          watchControllers B sel cx
                                            \<lparr>aoFieldManager = cfSsaFieldManager configuration, aoStrategy = strategy\<rparr>)))) }) }"

section \<open>The command\<close>

definition EnablePprof :: "'w boot \<Rightarrow> string \<Rightarrow> ('w, bool) state" where
  "EnablePprof B address =
     (if address = ''0'' then State_Monad.return False
      else do { ServePprof B address; State_Monad.return True })"

definition configurationOf :: "'w boot \<Rightarrow> flags \<Rightarrow> restConfig \<Rightarrow> Configuration" where
  "configurationOf B fl config =
     \<lparr>cfRestConfig = config\<lparr>rsQPS := ToFloat32 B (flClientGoQPS fl), rsBurst := flClientGoBurst fl\<rparr>,
      cfDiscoveryInterval = flDiscoveryInterval fl, cfInformerRelist = flInformerRelist fl, cfWorkers = flWorkers fl,
      cfCorrelatorOptions = \<lparr>coBurstSize = flEventsBurst fl, coQPS = ToFloat32 B (flEventsQPS fl)\<rparr>,
      cfMetricsEndpoint = flMetricsAddr fl,
      cfLeaderElectionOptions = \<lparr>leLeaderElection = flLeaderElection fl, leLeaderElectionResourceLock = flLeaderElectionResourceLock fl,
        leLeaderElectionNamespace = flLeaderElectionNamespace fl, leLeaderElectionID = flLeaderElectionID fl\<rparr>,
      cfHealthProbeBindAddress = flHealthProbeBindAddress fl, cfTargetLabelSelector = flTargetLabelSelector fl,
      cfApplyStrategy = flApplyStrategy fl, cfSsaFieldManager = flSsaFieldManager fl\<rparr>"

text \<open>The exit status.  The manager runs beside the main routine, which waits for it.\<close>

definition mainProgram :: "'w k8s \<Rightarrow> 'w boot \<Rightarrow> flags \<Rightarrow> ('w, int) state" where
  "mainProgram K B fl =
     do { EnablePprof B (flPprofAddr fl);
          c \<leftarrow> GetConfig B;
          case c of
            Inl _ \<Rightarrow> State_Monad.return 1
          | Inr config \<Rightarrow>
              do { r \<leftarrow> New K B (configurationOf B fl config);
                   case r of
                     Inl _ \<Rightarrow> State_Monad.return 1
                   | Inr _ \<Rightarrow>
                       do { e \<leftarrow> AddCheck B ''healthz'';
                            case e of
                              Some _ \<Rightarrow> State_Monad.return 1
                            | None \<Rightarrow>
                                do { e \<leftarrow> AddCheck B ''readyz'';
                                     case e of
                                       Some _ \<Rightarrow> State_Monad.return 1
                                     | None \<Rightarrow>
                                         do { e \<leftarrow> RunManager B;
                                              State_Monad.return (case e of Some _ \<Rightarrow> 1 | None \<Rightarrow> 0) } } } } }"

section \<open>Waiting for the API server\<close>

text \<open>The outcomes of the requests to the API server, numbered, while nothing ends the context.\<close>

definition attempts_law :: "'w boot \<Rightarrow> ('w \<Rightarrow> nat) \<Rightarrow> (nat \<Rightarrow> err option) \<Rightarrow> bool" where
  "attempts_law B tries outcome \<longleftrightarrow>
     (\<forall>w. fst (run_state (Attempt B) w) = outcome (tries w) \<and> tries (snd (run_state (Attempt B) w)) = Suc (tries w)) \<and>
     (\<forall>w. fst (run_state (WaitOrDone B) w) = None \<and> tries (snd (run_state (WaitOrDone B) w)) = tries w)"

lemma communicate_attempts:
  assumes "attempts_law B tries outcome" "run_state (communicate B n err) w = (r, w')" "n > 0 \<or> err \<noteq> None"
  shows "(r = None \<longleftrightarrow> (\<exists>i < n. outcome (tries w + i) = None)) \<and> tries w' \<le> tries w + n \<and>
     (\<forall>i. tries w \<le> i \<and> Suc i < tries w' \<longrightarrow> outcome i \<noteq> None)"
  using assms(2,3)
proof (induction n arbitrary: err w)
  case (Suc n)
  obtain w1 where w1: "run_state (Attempt B) w = (outcome (tries w), w1)" "tries w1 = Suc (tries w)"
    using assms(1) unfolding attempts_law_def by (metis prod.collapse)
  show ?case
  proof (cases "outcome (tries w)")
    case None
    then have "r = None" "w' = w1" using Suc.prems(1) w1(1) by simp_all
    moreover have "\<exists>i < Suc n. outcome (tries w + i) = None" using None by (intro exI [of _ 0]) simp
    ultimately show ?thesis using w1(2) by auto
  next
    case (Some e)
    obtain w2 where w2: "run_state (WaitOrDone B) w1 = (None, w2)" "tries w2 = tries w1"
      using assms(1) unfolding attempts_law_def by (metis prod.collapse)
    have "run_state (communicate B n (Some e)) w2 = (r, w')" using Suc.prems(1) w1(1) w2(1) Some by simp
    from Suc.IH [OF this] have IH: "r = None \<longleftrightarrow> (\<exists>i < n. outcome (Suc (tries w) + i) = None)" "tries w' \<le> Suc (tries w) + n"
        "\<forall>i. Suc (tries w) \<le> i \<and> Suc i < tries w' \<longrightarrow> outcome i \<noteq> None"
      using w1(2) w2(2) by simp_all
    have "(\<exists>i < Suc n. outcome (tries w + i) = None) \<longleftrightarrow> (\<exists>i < n. outcome (Suc (tries w) + i) = None)"
      using Some by (simp add: Ex_less_Suc2)
    moreover have "outcome i \<noteq> None" if "tries w \<le> i" "Suc i < tries w'" for i
      using that IH(3) Some by (cases "i = tries w") auto
    ultimately show ?thesis using IH(1,2) by simp
  qed
qed auto

text \<open>C24: The program waits for the API server for at most six requests: the check succeeds exactly if one of the first six
  requests does, and no request follows one that succeeded.\<close>

theorem k8sCommunicationCheck_attempts:
  assumes "attempts_law B tries outcome" "run_state (k8sCommunicationCheck B) w = (r, w')"
  shows "(r = None \<longleftrightarrow> (\<exists>i < 6. outcome (tries w + i) = None)) \<and> tries w' \<le> tries w + 6 \<and>
     (\<forall>i. tries w \<le> i \<and> Suc i < tries w' \<longrightarrow> outcome i \<noteq> None)"
  using communicate_attempts [OF assms(1) assms(2) [unfolded k8sCommunicationCheck_def]] by simp

section \<open>What a server starts\<close>

text \<open>A property of the world that nothing but the start of discovery and informers changes, and of the watches only those that
  filter by the target selector keep.\<close>

definition quietBoot :: "('w \<Rightarrow> bool) \<Rightarrow> 'w k8s \<Rightarrow> 'w boot \<Rightarrow> Configuration \<Rightarrow> bool" where
  "quietBoot P K B cf \<longleftrightarrow>
     (\<forall>c. preserves P (McNewForConfig B c)) \<and> preserves P (Attempt B) \<and> preserves P (WaitOrDone B) \<and>
     (\<forall>c. preserves P (DiscoveryNewForConfig B c)) \<and> (\<forall>c. preserves P (DynamicNewForConfig B c)) \<and>
     (\<forall>c. preserves P (KubernetesNewForConfig B c)) \<and> (\<forall>c. preserves P (StartRecordingToSink B c)) \<and>
     (\<forall>c m. preserves P (NewRuntimeManager B c m)) \<and> (\<forall>v ts. preserves P (AddKnownTypes B v ts)) \<and>
     preserves P (ApiextensionsAddToScheme B) \<and> (\<forall>n. preserves P (NewController B n)) \<and>
     (\<forall>n k sel. targetSelector K B (cfTargetLabelSelector cf) = Inr sel \<longrightarrow> preserves P (WatchKind B n k (Matches sel)))"

lemma preserves_communicate: "preserves P (Attempt B) \<Longrightarrow> preserves P (WaitOrDone B) \<Longrightarrow> preserves P (communicate B n err)"
  by (induction n arbitrary: err) (auto intro!: pres split: option.split)

lemma hoare_orFail:
  assumes "preserves P c" "hoare P k Q" "\<And>e s. P s \<Longrightarrow> Q (Inl e) s"
  shows "hoare P (orFail c k) Q"
  unfolding orFail_def
proof (rule hoare_bind [OF hoare_preserves [OF assms(1)]])
  fix x
  show "hoare P (case x of None \<Rightarrow> k | Some e \<Rightarrow> State_Monad.return (Inl e)) Q"
    using assms(2,3) by (cases x) (auto intro: hoare_return)
qed

definition processOf :: "server \<Rightarrow> 'w \<Rightarrow> 'w process" where
  "processOf sv w = \<lparr>psComposite = svComposite sv, psDecorator = svDecorator sv,
     psState = (w, \<lparr>pcFactory = cxDynInformers (svContext sv), pcHandlers = [], pcLastUpdated = [], pcRelated = []\<rparr>)\<rparr>"

text \<open>A server that is ready: its selector is the one asked for, its controllers get an apply strategy they know, no
  controller runs and no informer is open.\<close>

definition ready :: "'w k8s \<Rightarrow> 'w boot \<Rightarrow> Configuration \<Rightarrow> server \<Rightarrow> bool" where
  "ready K B cf sv \<longleftrightarrow>
     targetSelector K B (cfTargetLabelSelector cf) = Inr (svSelector sv) \<and>
     (\<forall>client. \<exists>a. NewApplier client (mcSsaOptions (svComposite sv)) = Inr a) \<and>
     (\<forall>client. \<exists>a. NewApplier client (dmSsaOptions (svDecorator sv)) = Inr a) \<and>
     mcParentControllers (svComposite sv) = [] \<and> dmDecoratorControllers (svDecorator sv) = [] \<and>
     (\<exists>cs d. cxDynInformers (svContext sv) = NewSharedInformerFactory cs d)"

definition outcomeOf :: "('w \<Rightarrow> bool) \<Rightarrow> 'w k8s \<Rightarrow> 'w boot \<Rightarrow> Configuration \<Rightarrow> err + server \<Rightarrow> 'w \<Rightarrow> bool" where
  "outcomeOf P K B cf r w = (case r of Inl _ \<Rightarrow> P w | Inr sv \<Rightarrow> ready K B cf sv)"

lemma outcomeOf_simps [simp]: "outcomeOf P K B cf (Inl e) w = P w" "outcomeOf P K B cf (Inr sv) w = ready K B cf sv"
  by (simp_all add: outcomeOf_def)

lemma hoare_NewControllerContext:
  assumes "quietBoot P K B cf"
  shows "hoare P (NewControllerContext B cf) (\<lambda>r w. P w \<and> (\<forall>cx. r = Inr cx \<longrightarrow> (\<exists>cs d. cxDynInformers cx = NewSharedInformerFactory cs d)))"
proof -
  have [pres]: "preserves P (DiscoveryNewForConfig B c)" "preserves P (DynamicNewForConfig B c)" "preserves P (KubernetesNewForConfig B c)" "preserves P (StartRecordingToSink B o')" for c o'
    using assms by (simp_all add: quietBoot_def)
  have "preserves P (NewControllerContext B cf)"
    unfolding NewControllerContext_def Clientset_New_def NewBroadcaster_def orFail_def
    by (auto intro!: pres split: option.split sum.split)
  moreover have "\<exists>cs d. cxDynInformers cx = NewSharedInformerFactory cs d" if "run_state (NewControllerContext B cf) w = (Inr cx, w')" for cx w w'
    using that by (auto simp: NewControllerContext_def orFail_def case_prod_beta split: option.splits sum.splits prod.splits intro!: exI)
  ultimately show ?thesis
    unfolding hoare_def preserves_def by (metis prod.collapse)
qed

lemma hoare_watchControllers:
  assumes "quietBoot P K B cf" "targetSelector K B (cfTargetLabelSelector cf) = Inr sel" "\<And>client. \<exists>a. NewApplier client opts = Inr a"
    and "\<exists>cs d. cxDynInformers cx = NewSharedInformerFactory cs d"
  shows "hoare P (watchControllers B sel cx opts) (outcomeOf P K B cf)"
proof -
  have q: "preserves P (NewController B n)" "preserves P (WatchKind B n k (Matches sel))" for n k
    using assms(1,2) by (simp_all add: quietBoot_def)
  have "hoare P (do { Context_Start B cx; State_Monad.return (Inr \<lparr>svSelector = sel, svComposite = NewMetacontroller cx n opts,
      svDecorator = Decorator_NewMetacontroller cx n opts, svContext = cx\<rparr>) }) (outcomeOf P K B cf)" for n
    using assms(2-4) by (simp add: hoare_def case_prod_beta ready_def NewMetacontroller_def Decorator_NewMetacontroller_def)
  then show ?thesis
    unfolding watchControllers_def Let_def by (intro hoare_orFail q) auto
qed

lemma applyStrategyOf_known: "applyStrategyOf s = Inr strategy \<Longrightarrow> \<exists>a. NewApplier client \<lparr>aoFieldManager = f, aoStrategy = strategy\<rparr> = Inr a"
  by (auto simp: applyStrategyOf_def NewApplier_def split: if_splits)

lemma hoare_New:
  assumes "quietBoot P K B cf"
  shows "hoare P (New K B cf) (outcomeOf P K B cf)"
proof -
  have q: "preserves P (McNewForConfig B c)" "preserves P (k8sCommunicationCheck B)" "preserves P (NewRuntimeManager B c m)"
      "preserves P (addKnownTypes B)" "preserves P (ApiextensionsAddToScheme B)" for c m
    using assms unfolding k8sCommunicationCheck_def addKnownTypes_def
    by (auto simp: quietBoot_def intro!: preserves_communicate pres)
  have go: "hoare P (case targetSelector K B (cfTargetLabelSelector cf) of
           Inl e \<Rightarrow> State_Monad.return (Inl e)
         | Inr sel \<Rightarrow> (case applyStrategyOf (cfApplyStrategy cf) of Inl e \<Rightarrow> State_Monad.return (Inl e)
             | Inr strategy \<Rightarrow> watchControllers B sel cx \<lparr>aoFieldManager = cfSsaFieldManager cf, aoStrategy = strategy\<rparr>))
       (outcomeOf P K B cf)" if "\<exists>cs d. cxDynInformers cx = NewSharedInformerFactory cs d" for cx
    using hoare_watchControllers [OF assms _ applyStrategyOf_known that] by (auto intro: hoare_return split: sum.split)
  have mgr: "hoare (\<lambda>w. P w \<and> (\<forall>cx. c = Inr cx \<longrightarrow> (\<exists>cs d. cxDynInformers cx = NewSharedInformerFactory cs d)))
      (case c of Inl e \<Rightarrow> State_Monad.return (Inl e)
       | Inr cx \<Rightarrow> orFail (NewRuntimeManager B r m) (orFail (addKnownTypes B) (orFail (ApiextensionsAddToScheme B)
           (case targetSelector K B (cfTargetLabelSelector cf) of
              Inl e \<Rightarrow> State_Monad.return (Inl e)
            | Inr sel \<Rightarrow> (case applyStrategyOf (cfApplyStrategy cf) of Inl e \<Rightarrow> State_Monad.return (Inl e)
                | Inr strategy \<Rightarrow> watchControllers B sel cx \<lparr>aoFieldManager = cfSsaFieldManager cf, aoStrategy = strategy\<rparr>)))))
      (outcomeOf P K B cf)" for c r m
  proof (cases c)
    case (Inr cx)
    show ?thesis
    proof (cases "\<exists>cs d. cxDynInformers cx = NewSharedInformerFactory cs d")
      case True
      show ?thesis
        unfolding Inr sum.case by (rule hoare_strengthen [where R = P], intro hoare_orFail q go [OF True]) auto
    qed (use Inr in \<open>simp add: hoare_def\<close>)
  qed (auto intro: hoare_return)
  have check: "hoare P (case e of Some e \<Rightarrow> State_Monad.return (Inl (Errorf m (Some e))) | None \<Rightarrow> orFail (k8sCommunicationCheck B) k) (outcomeOf P K B cf)"
    if "hoare P k (outcomeOf P K B cf)" for e m k
    using hoare_orFail [OF q(2) that] by (auto intro: hoare_return split: option.split)
  show ?thesis
    unfolding New_def by (intro hoare_bind [OF hoare_preserves [OF q(1)]] check hoare_bind [OF hoare_NewControllerContext [OF assms]] mgr)
qed

section \<open>Properties\<close>

text \<open>C22: Nothing is started before everything is set up.  When the server cannot be made, neither discovery nor informers run, and
  the watches made so far, if any, are filtered by the target label selector; when it is made, its controllers know
  their apply strategy and none runs yet.\<close>

theorem New_ready:
  assumes "quietBoot P K B cf" "P w" "run_state (New K B cf) w = (r, w')"
  shows "case r of Inl _ \<Rightarrow> P w' | Inr sv \<Rightarrow> ready K B cf sv"
  using hoareD [OF hoare_New [OF assms(1)] assms(2,3)] by (simp add: outcomeOf_def)


section \<open>A server that starts\<close>

definition refBoot :: "world boot" where
  "refBoot =
     \<lparr>ToFloat32 = id, GetConfig = State_Monad.return (Inr \<lparr>rsHost = ''h'', rsQPS = 0, rsBurst = 0\<rparr>),
      McNewForConfig = (\<lambda>_. State_Monad.return None), 
      Attempt = State (\<lambda>w. (if length (wLog w) < 2 then Some (LibErr ''down'') else None, w\<lparr>wLog := wLog w @ [(''attempt'', '''')]\<rparr>)),
      WaitOrDone = State_Monad.return None, DiscoveryNewForConfig = (\<lambda>_. State_Monad.return None),
      DynamicNewForConfig = (\<lambda>_. State_Monad.return None), KubernetesNewForConfig = (\<lambda>_. State_Monad.return None),
      StartRecordingToSink = (\<lambda>_. State_Monad.return ()), NewRuntimeManager = (\<lambda>_ _. State_Monad.return None),
      AddKnownTypes = (\<lambda>_ _. State_Monad.return ()), ApiextensionsAddToScheme = State_Monad.return None,
      ParseSelector = (\<lambda>_. Inl (LibErr ''selector'')), NewController = (\<lambda>_. State_Monad.return None),
      WatchKind = (\<lambda>_ _ _. State_Monad.return None), StartDiscovery = (\<lambda>_. logE ''start'' ''''), StartMcInformers = logE ''start'' '''',
      AddCheck = (\<lambda>_. State_Monad.return None), ServePprof = (\<lambda>_. State_Monad.return ()), RunManager = State_Monad.return None\<rparr>"

definition refConfiguration :: "string \<Rightarrow> Configuration" where
  "refConfiguration strategy =
     \<lparr>cfRestConfig = \<lparr>rsHost = ''h'', rsQPS = 0, rsBurst = 0\<rparr>, cfDiscoveryInterval = 0, cfInformerRelist = 0, cfWorkers = 1,
      cfCorrelatorOptions = \<lparr>coBurstSize = 0, coQPS = 0\<rparr>, cfMetricsEndpoint = '''',
      cfLeaderElectionOptions = \<lparr>leLeaderElection = False, leLeaderElectionResourceLock = '''', leLeaderElectionNamespace = '''', leLeaderElectionID = ''''\<rparr>,
      cfHealthProbeBindAddress = '''', cfTargetLabelSelector = '''', cfApplyStrategy = strategy, cfSsaFieldManager = ''''\<rparr>"

definition bootWorld :: world where
  "bootWorld = clusterWorld\<lparr>wLog := []\<rparr>"

theorem k8sCommunicationCheck_attempts_witness:
  "fst (run_state (k8sCommunicationCheck refBoot) bootWorld) = None"
proof -
  have law: "attempts_law refBoot (\<lambda>w. length (wLog w)) (\<lambda>n. if n < 2 then Some (LibErr ''down'') else None)"
    by (simp add: attempts_law_def refBoot_def)
  obtain r w' where run: "run_state (k8sCommunicationCheck refBoot) bootWorld = (r, w')" by (metis surj_pair)
  have "\<exists>i < 6. (if length (wLog bootWorld) + i < 2 then Some (LibErr ''down'') else None) = None"
    by (rule exI [of _ 2]) simp
  then have "r = None" using k8sCommunicationCheck_attempts [OF law run] by blast
  with run show ?thesis by simp
qed

lemmas refBoot_eval = New_def refBoot_def orFail_def k8sCommunicationCheck_def NewControllerContext_def Clientset_New_def
  NewBroadcaster_def addKnownTypes_def targetSelector_def applyStrategyOf_def watchControllers_def Context_Start_def logE_def
  eval_nat_numeral Let_def refConfiguration_def

text \<open>A strategy that is not known: the error comes before anything starts.\<close>

theorem New_ready_witness:
  "\<exists>e w. run_state (New refK refBoot (refConfiguration ''merge'')) bootWorld = (Inl e, w) \<and> (''start'', '''') \<notin> set (wLog w)"
proof -
  let ?cf = "refConfiguration ''merge''" and ?P = "\<lambda>w. (''start'', '''') \<notin> set (wLog w)"
  obtain e w where run: "run_state (New refK refBoot ?cf) bootWorld = (Inl e, w)"
    by (simp add: refBoot_eval bootWorld_def clusterWorld_def podStore_def)
  have "quietBoot ?P refK refBoot ?cf" unfolding quietBoot_def refBoot_def by (simp add: preserves_def logE_def)
  moreover have "?P bootWorld" by (simp add: bootWorld_def clusterWorld_def podStore_def)
  ultimately have "?P w" using New_ready [OF _ _ run] by simp
  with run show ?thesis by blast
qed

lemma serverW:
  "\<exists>sv. run_state (New refK refBoot (refConfiguration '''')) bootWorld = (Inr sv, clusterWorld) \<and>
     mcResources (svComposite sv) = NewResourceMap \<and> rediscovered clusterResources (processOf sv clusterWorld) = startProcess"
  by (simp add: refBoot_eval bootWorld_def rediscovered_def processOf_def startProcess_def NewMetacontroller_def Decorator_NewMetacontroller_def
      clusterClientset_def emptyProc_def NewSharedInformerFactory_def clusterWorld_def podStore_def)


end
