(* ===== verification/Spec2Isabelle.thy ===== *)
theory Spec2Isabelle
  imports Rollout Attachments Steady Worker Server
begin

text \<open>
  \<^bold>\<open>Metacontroller\<close> runs Kubernetes controllers that users write as webhooks.  A \<^verbatim>\<open>CompositeController\<close> object
  declares that children follow from a parent; a \<^verbatim>\<open>DecoratorController\<close> object declares attachments to existing
  objects.  For each the program keeps one controller: it watches parents and children through shared
  informers, queues parents that may need work, calls the user's hook with parent and observed
  children, and brings the cluster to what the hook answers.

  \<^bold>\<open>The model.\<close>  Sources are under \<^verbatim>\<open>src/pkg\<close>.  Data are records and datatypes, decoded JSON is the datatype
  \<open>json\<close>.  Fallible functions return \<open>err + 'a\<close> or \<open>err option\<close>; a run-time panic is the error \<open>GoPanic\<close>.
  Code that reaches outside is a computation of the state monad over the world \<open>'w\<close>.  What the repository
  does not hold (Kubernetes client libraries and API server, work queues, HTTP, caches, the clock) are the
  two records \<open>'w k8s\<close> (theory \<open>K8s\<close>) and \<open>'w env\<close> (theory \<open>Env\<close>), parameters of every definition that
  uses them; what a theorem needs of them is a named predicate (\<open>retry_law\<close>, \<open>fresh_law\<close>, \<open>index_law\<close>,
  \<open>queue_law\<close>, \<open>labels_law\<close>, and so on) stating documented behaviour.  The reference
  library \<open>refK\<close> (theory \<open>Reference\<close>) and environment \<open>refEnv\<close>, an API server in memory, serve witnesses only.

  \<^bold>\<open>Theories, in the order of dependence.\<close>
  \<^item> \<open>Prelude\<close>: JSON values, maps, errors, strings, the collection \<open>pres\<close> of rules for \<open>preserves P c\<close> (a
    computation keeps a property of the world).
  \<^item> \<open>K8s_Data\<close>, \<open>Types\<close>: data exchanged with the libraries; \<^verbatim>\<open>apis/metacontroller/v1alpha1/types.go\<close> and hook responses.
  \<^item> \<open>Apply\<close>: \<^verbatim>\<open>dynamic/apply\<close>, the three-way merge (field by field, idempotent, list maps, last-applied annotation).
  \<^item> \<open>Object_Status\<close>: \<^verbatim>\<open>dynamic/object/status.go\<close>.
  \<^item> \<open>Discovery\<close>, \<open>Clientset\<close>: \<^verbatim>\<open>dynamic/discovery\<close> and \<^verbatim>\<open>dynamic/clientset\<close>; lookups after a refresh, the refresh loop through outages, atomic updates.
    The three update loops are interpretations of the locale \<open>read_modify_write\<close>.
  \<^item> \<open>Finalizer\<close>: \<^verbatim>\<open>controller/common/finalizer\<close>.
  \<^item> \<open>ControllerRef\<close>: \<^verbatim>\<open>dynamic/controllerref\<close>, \<^verbatim>\<open>third_party/kubernetes\<close>; claiming writes only owner references of
    orphans to adopt and of children to release.
  \<^item> \<open>ObjectMap\<close>: \<^verbatim>\<open>controller/common/api\<close>; one locale \<open>object_map\<close>, interpreted for relative and for uniform maps.
  \<^item> \<open>Requests\<close>: \<^verbatim>\<open>composite/api\<close> and \<^verbatim>\<open>decorator/api\<close>; the request builders, and that a hook reads what was observed.
  \<^item> \<open>ManageChildren\<close>: \<^verbatim>\<open>controller/common/manage_children.go\<close>, \<^verbatim>\<open>diff.go\<close>; what deletes, updates and creates are made; the locale
    \<open>applier\<close> is interpreted for both apply strategies.
  \<^item> \<open>Revisions\<close>, \<open>Rolling\<close>, \<open>Rollout\<close>: \<^verbatim>\<open>composite/controller_revision.go\<close>, \<^verbatim>\<open>rolling_update.go\<close>; at most one child moves per sync, and
    a rollout that nothing holds up ends after at most as many syncs as there are children.
  \<^item> \<open>Common\<close>, \<open>Informer\<close>: \<^verbatim>\<open>controller/common/common.go\<close>, \<^verbatim>\<open>dynamic/informer\<close>; \<open>factory_reach\<close> is the step relation of the shared
    informer factory, and reference counts are its invariant.
  \<^item> \<open>Metrics\<close>: \<^verbatim>\<open>metrics/http.go\<close>; the collectors of every hook client are registered, once.
  \<^item> \<open>Hooks\<close>: \<^verbatim>\<open>hooks\<close>; endpoint settings, webhook calls with and without ETag.
  \<^item> \<open>Process\<close>: the state of the process beside the world, the record \<open>proc\<close>: factory, event handlers, cache of last updates, related informers.
  \<^item> \<open>Customize\<close>: \<^verbatim>\<open>controller/common/customize\<close>; related objects, and that the objects handed to the hook are
    those whose changes wake the parent.
  \<^item> \<open>Quiet\<close>, \<open>Subscriptions\<close>: lemma libraries.  \<open>quiet\<close> carries the confinement proofs; \<open>hoare\<close> and \<open>subscribed\<close> carry the
    accounting of open informers.
  \<^item> \<open>Control\<close>: what both controllers have in common.
  \<^item> \<open>Composite\<close>, \<open>Composite_Control\<close>: \<^verbatim>\<open>controller/composite\<close>; the sync of one parent, then events, queue, life cycle and
    reconciler.
  \<^item> \<open>Steady\<close>: applying the same desired state again; merges, updates of children and whole syncs of children have fixed points.
  \<^item> \<open>Wake\<close>: the event handlers of the composite controller; no event is lost on a parent it concerns.
  \<^item> \<open>Decorator\<close>, \<open>Decorator_Control\<close>: \<^verbatim>\<open>controller/decorator\<close>, likewise.
  \<^item> \<open>Attachments\<close>: a sync sees, and a hook is sent, exactly the attachments the caches show, and the change of an attachment syncs the object it belongs to.
  \<^item> \<open>Worker\<close>: the workers' loops as partial functions; they end once the queue is shut down.
  \<^item> \<open>Ledger\<close>, \<open>Composite_Ledger\<close>, \<open>Decorator_Ledger\<close>, \<open>Lifecycle\<close>: the process over time.  The locales \<open>controller\<close> and \<open>reconciler\<close> say what
    controllers and their reconcilers promise about the informers they open, and are interpreted for both kinds; \<open>step\<close> is the step relation of
    the process (reconciles, work items, events, refreshes of discovery, the world outside), and the accounting of open informers is its invariant.
  \<^item> \<open>Server\<close>: \<^verbatim>\<open>cmd/metacontroller/main.go\<close>, \<^verbatim>\<open>options\<close>, \<^verbatim>\<open>server\<close> and the controller context of \<^verbatim>\<open>controller/common/common.go\<close>; what is
    checked before anything starts, and that the process that starts is the one \<open>Lifecycle\<close> is about.

  \<^bold>\<open>What is shown.\<close>  Safety theorems have the form \<open>preserves P (operation)\<close>: every property \<open>P\<close> of the world that the
  listed requests keep survives the operation, so the operation makes no other request.  Life-cycle theorems say which
  informers are open before and after.  Liveness theorems say that a request is made or a key is queued whatever
  else fails.  The error theorems state where the code departs from its intention.

  \<^bold>\<open>Bounds and fuel.\<close>  No definition uses fuel: loops are structural recursion or \<open>function\<close> with a measure (the merge descends in
  the values); the
  loop of a worker, which may run for ever, is a partial function with an optional result.  Retries on conflict are a parameter, bounded by \<open>retry_law\<close> to finitely many runs.  Hashes and
  \<^verbatim>\<open>int64\<close> durations are words; \<^verbatim>\<open>float64\<close> seconds are rationals, and a float inside JSON is
  its shortest decimal form.  A Go map visited by \<^verbatim>\<open>range\<close> is a list in the order of the visit, over which theorems quantify.

  \<^bold>\<open>Not modelled.\<close>  Goroutines, locks, contexts and channels: operations run to their end one after the other (workers,
  resync timers and the parallel hook calls of revisions included); log output and Kubernetes events;
  the mutation of the desired object that \<^verbatim>\<open>ApplyUpdate\<close> shares with its caller; null entries in the lists of
  a hook's answer; the contents of \<^verbatim>\<open>%#v\<close> in messages; generated clients and deep copies, and the profiler.
  Constructors and the manager of controller-runtime are the parameter \<open>'w boot\<close> of theory \<open>Server\<close>; Prometheus is \<open>'w prom\<close>.
  The resource map is a value that the step of a refresh replaces wherever the code shares its pointer; within one step it does not change.

  \<^bold>\<open>Left.\<close>  Workers that run in parallel on one queue, and the timers of single event handlers.
\<close>

end
